(* ===== verification/Prelude.thy ===== *)
theory Prelude
  imports Main "HOL-Library.Multiset"
begin

text \<open>
  Shared vocabulary of the development: the names of the machine types the Go code uses, the
  collections of rewrite rules the component proofs draw on, and the generic facts on tables.

  A table of the database is a list of rows.  A query is a \<open>filter\<close> or a \<open>List.find\<close>, an
  \<open>INSERT\<close> appends a row, an \<open>UPDATE\<close> maps the rows that satisfy its condition
  (\<open>update_where\<close>) and a \<open>DELETE\<close> filters them out.  The facts about a key column (\<open>map f rows\<close>)
  under these operations are proved here once.
\<close>

named_theorems sql_defs \<open>the SQL statements as operations on the tables\<close>
named_theorems repo_defs \<open>the methods of the repositories\<close>
named_theorems svc_defs \<open>the methods of the services\<close>
named_theorems http_defs \<open>the HTTP handlers and middleware\<close>

text \<open>
  \<open>int64\<close> values are integers with an explicit range; the code does no arithmetic on them, so the
  range is all that has to be kept.  \<open>time\<close> is nanoseconds since the Unix epoch.
\<close>

type_synonym int64 = int
type_synonym time = int
type_synonym duration = int

definition int64_ok :: "int \<Rightarrow> bool" where
  "int64_ok x \<longleftrightarrow> - (2 ^ 63) \<le> x \<and> x < 2 ^ 63"

text \<open>The zero value of \<open>time.Time\<close>: January 1, year 1, 00:00:00 UTC.\<close>

definition zero_time :: time where
  "zero_time = - 62135596800000000000"

text \<open>\<open>UPDATE t SET f WHERE p\<close>: every row that satisfies \<open>p\<close> is replaced by \<open>f\<close> of it.\<close>

definition update_where :: "('a \<Rightarrow> bool) \<Rightarrow> ('a \<Rightarrow> 'a) \<Rightarrow> 'a list \<Rightarrow> 'a list" where
  "update_where p f rows = map (\<lambda>r. if p r then f r else r) rows"

text \<open>The number of rows a statement with condition \<open>p\<close> touches.\<close>

definition affected :: "('a \<Rightarrow> bool) \<Rightarrow> 'a list \<Rightarrow> nat" where
  "affected p rows = length (filter p rows)"

lemma update_where_Nil [simp]: "update_where p f [] = []"
  by (simp add: update_where_def)

lemma update_where_Cons [simp]:
  "update_where p f (r # rows) = (if p r then f r else r) # update_where p f rows"
  by (simp add: update_where_def)

lemma update_where_append [simp]:
  "update_where p f (xs @ ys) = update_where p f xs @ update_where p f ys"
  by (simp add: update_where_def)

lemma set_update_where:
  "set (update_where p f rows) = (\<lambda>r. if p r then f r else r) ` set rows"
  by (simp add: update_where_def)

lemma update_where_key:
  assumes "\<And>r. p r \<Longrightarrow> k (f r) = k r"
  shows "map k (update_where p f rows) = map k rows"
  using assms by (induction rows) auto

lemma update_where_other:
  "r \<in> set rows \<Longrightarrow> \<not> p r \<Longrightarrow> r \<in> set (update_where p f rows)"
  by (force simp: set_update_where)

lemma update_where_id: "\<forall>r \<in> set rows. \<not> p r \<Longrightarrow> update_where p f rows = rows"
  by (induction rows) auto


lemma filter_update_where_in:
  assumes "\<And>r. r \<in> set rows \<Longrightarrow> p r \<Longrightarrow> \<not> q r \<and> \<not> q (f r)"
  shows "filter q (update_where p f rows) = filter q rows"
  using assms by (induction rows) auto

lemma filter_filter_in:
  assumes "\<And>r. r \<in> set rows \<Longrightarrow> q r \<Longrightarrow> p r"
  shows "filter q (filter p rows) = filter q rows"
  using assms by (induction rows) auto

lemma affected_0_iff: "affected p rows = 0 \<longleftrightarrow> (\<forall>r \<in> set rows. \<not> p r)"
  by (induction rows) (auto simp: affected_def)

lemma affected_pos_iff [simp]: "0 < affected p rows \<longleftrightarrow> (\<exists>r \<in> set rows. p r)"
  using affected_0_iff [of p rows] by auto

lemma find_SomeD: "find p xs = Some x \<Longrightarrow> x \<in> set xs \<and> p x"
  by (auto simp: find_Some_iff in_set_conv_nth)

lemma find_append: "find p (xs @ ys) = (case find p xs of None \<Rightarrow> find p ys | Some x \<Rightarrow> Some x)"
  by (induction xs) auto

text \<open>In a table whose key column is distinct, a row is found by its key.\<close>

lemma find_by_key:
  assumes "distinct (map k rows)" and "r \<in> set rows"
  shows "find (\<lambda>x. k x = k r) rows = Some r"
  using assms by (induction rows) (auto simp: image_iff)

lemma distinct_key_eq:
  assumes "distinct (map k rows)" and "r \<in> set rows" and "s \<in> set rows" and "k r = k s"
  shows "r = s"
  using assms by (metis distinct_map inj_onD)

lemma find_update_where:
  assumes "\<And>r. p r \<Longrightarrow> k (f r) = k r"
  shows "find (\<lambda>x. k x = v) (update_where p f rows) =
         map_option (\<lambda>r. if p r then f r else r) (find (\<lambda>x. k x = v) rows)"
  using assms by (induction rows) auto

text \<open>Errors travel as \<open>Inl\<close>, results as \<open>Inr\<close>; the state is returned on both.\<close>

type_synonym ('e, 'a) go_result = "'e + 'a"

end
