(* ===== verification/GoStd.thy ===== *)
theory GoStd
  imports Prelude "HOL-Library.Sublist"
begin

text \<open>
  The parts of the Go standard library the program uses on strings: \<open>strconv\<close> (\<open>FormatInt\<close>,
  \<open>ParseInt\<close>, \<open>Atoi\<close>), \<open>strings\<close> (\<open>Contains\<close>, \<open>SplitN\<close>, \<open>EqualFold\<close>), \<open>encoding/hex\<close> and
  \<open>encoding/base64\<close> (raw URL alphabet).  A Go string is a sequence of bytes, an Isabelle
  \<open>char\<close> is a byte, so \<open>string\<close> is the same type and \<open>length\<close> counts what \<open>len\<close> counts.
\<close>

abbreviation ord :: "char \<Rightarrow> nat" where
  "ord c \<equiv> of_char c"

abbreviation chr :: "nat \<Rightarrow> char" where
  "chr n \<equiv> char_of n"

subsection \<open>strconv\<close>

text \<open>The reasons of a \<open>strconv.NumError\<close>.\<close>

datatype num_err = ErrSyntax | ErrRange

text \<open>
  \<open>ParseUint(s, 10, 64)\<close>: the loop over the bytes of \<open>s\<close>.  A byte that is no decimal digit is a
  syntax error (letters are digits of a larger base); a value that would pass \<open>2\<^sup>6\<^sup>4 - 1\<close> is a
  range error at once, before the bytes that follow are looked at.
\<close>

definition maxUint64 :: nat where
  "maxUint64 = 18446744073709551615"

fun parse_digits :: "nat \<Rightarrow> string \<Rightarrow> nat \<times> num_err option" where
  "parse_digits n [] = (n, None)"
| "parse_digits n (c # cs) =
     (if \<not> (48 \<le> ord c \<and> ord c \<le> 57) then (0, Some ErrSyntax)
      else if 10 * n + (ord c - 48) > maxUint64 then (maxUint64, Some ErrRange)
      else parse_digits (10 * n + (ord c - 48)) cs)"

definition ParseUint :: "string \<Rightarrow> nat \<times> num_err option" where
  "ParseUint s = (if s = [] then (0, Some ErrSyntax) else parse_digits 0 s)"

text \<open>
  \<open>ParseInt(s, 10, 64)\<close>: value and error, as Go returns them.  After a range error the value is
  the nearest bound of \<open>int64\<close>, after a syntax error it is 0.
\<close>

definition ParseInt :: "string \<Rightarrow> int64 \<times> num_err option" where
  "ParseInt s =
     (if s = [] then (0, Some ErrSyntax)
      else let neg = (hd s = CHR ''-'');
               digits = (if hd s = CHR ''+'' \<or> hd s = CHR ''-'' then tl s else s)
           in case ParseUint digits of
                (un, Some ErrSyntax) \<Rightarrow> (0, Some ErrSyntax)
              | (un, _) \<Rightarrow>
                  if \<not> neg \<and> un \<ge> 2 ^ 63 then (2 ^ 63 - 1, Some ErrRange)
                  else if neg \<and> un > 2 ^ 63 then (- (2 ^ 63), Some ErrRange)
                  else (if neg then - int un else int un, None))"

text \<open>\<open>Atoi(s)\<close> is \<open>ParseInt(s, 10, 0)\<close> converted to \<open>int\<close>, which has 64 bits here.\<close>

definition Atoi :: "string \<Rightarrow> int \<times> num_err option" where
  "Atoi s = ParseInt s"

fun nat_digits :: "nat \<Rightarrow> string" where
  "nat_digits n = (if n < 10 then [chr (48 + n)] else nat_digits (n div 10) @ [chr (48 + n mod 10)])"

declare nat_digits.simps [simp del]

text \<open>\<open>FormatInt(x, 10)\<close>, also \<open>strconv.Itoa\<close>.\<close>

definition FormatInt :: "int \<Rightarrow> string" where
  "FormatInt x = (if x < 0 then CHR ''-'' # nat_digits (nat (- x)) else nat_digits (nat x))"

subsection \<open>strings\<close>

fun strings_Contains :: "string \<Rightarrow> string \<Rightarrow> bool" where
  "strings_Contains [] sub = (sub = [])"
| "strings_Contains (c # cs) sub = (prefix sub (c # cs) \<or> strings_Contains cs sub)"

text \<open>\<open>strings.SplitN(s, sep, 2)\<close> for a separator of one byte.\<close>

definition strings_SplitN2 :: "char \<Rightarrow> string \<Rightarrow> string list" where
  "strings_SplitN2 sep s =
     (case dropWhile (\<lambda>c. c \<noteq> sep) s of
        [] \<Rightarrow> [s]
      | _ # rest \<Rightarrow> [takeWhile (\<lambda>c. c \<noteq> sep) s, rest])"

definition ascii_lower :: "char \<Rightarrow> char" where
  "ascii_lower c = (if 65 \<le> ord c \<and> ord c \<le> 90 then chr (ord c + 32) else c)"

text \<open>
  \<open>strings.EqualFold\<close> against an ASCII word without \<open>k\<close> and \<open>s\<close> (the only ASCII letters with
  case variants outside ASCII): byte-wise equality up to ASCII case.
\<close>

definition strings_EqualFold :: "string \<Rightarrow> string \<Rightarrow> bool" where
  "strings_EqualFold s t \<longleftrightarrow> map ascii_lower s = map ascii_lower t"

subsection \<open>encoding/hex and encoding/base64\<close>

definition hex_digits :: string where
  "hex_digits = ''0123456789abcdef''"

definition hex_EncodeToString :: "string \<Rightarrow> string" where
  "hex_EncodeToString s =
     concat (map (\<lambda>c. [hex_digits ! (ord c div 16), hex_digits ! (ord c mod 16)]) s)"

definition base64url :: string where
  "base64url = ''ABCDEFGHIJKLMNOPQRSTUVWXYZabcdefghijklmnopqrstuvwxyz0123456789-_''"

abbreviation b64 :: "nat \<Rightarrow> char" where
  "b64 n \<equiv> base64url ! n"

text \<open>\<open>base64.RawURLEncoding.EncodeToString\<close>: three bytes to four characters, no padding.\<close>

fun RawURLEncoding :: "string \<Rightarrow> string" where
  "RawURLEncoding [] = []"
| "RawURLEncoding [a] = [b64 (ord a div 4), b64 ((ord a mod 4) * 16)]"
| "RawURLEncoding [a, b] =
     [b64 (ord a div 4), b64 ((ord a mod 4) * 16 + ord b div 16), b64 ((ord b mod 16) * 4)]"
| "RawURLEncoding (a # b # c # rest) =
     b64 (ord a div 4) # b64 ((ord a mod 4) * 16 + ord b div 16)
     # b64 ((ord b mod 16) * 4 + ord c div 64) # b64 (ord c mod 64) # RawURLEncoding rest"

subsection \<open>Facts about strconv\<close>

lemma ord_chr: "n < 256 \<Longrightarrow> ord (chr n) = n"
  by simp

lemma parse_digits_snoc:
  "parse_digits n (cs @ [c]) =
     (case parse_digits n cs of (m, None) \<Rightarrow> parse_digits m [c] | r \<Rightarrow> r)"
  by (induction n cs rule: parse_digits.induct) auto

lemma nat_digits_nonempty [simp]: "nat_digits n \<noteq> []"
  by (subst nat_digits.simps) simp

lemma parse_nat_digits: "n \<le> maxUint64 \<Longrightarrow> parse_digits 0 (nat_digits n) = (n, None)"
proof (induction n rule: nat_digits.induct)
  case (1 n)
  show ?case
  proof (cases "n < 10")
    case True
    then show ?thesis
      by (subst nat_digits.simps) (simp add: ord_chr maxUint64_def)
  next
    case False
    have "n div 10 \<le> maxUint64"
      using "1.prems" by (meson div_le_dividend order_trans)
    then have "parse_digits 0 (nat_digits (n div 10)) = (n div 10, None)"
      using "1.IH" False by simp
    moreover have "10 * (n div 10) + n mod 10 = n"
      by simp
    ultimately show ?thesis
      using False "1.prems" by (subst nat_digits.simps) (simp add: parse_digits_snoc ord_chr)
  qed
qed

lemma nat_digits_hd: "48 \<le> ord (hd (nat_digits n)) \<and> ord (hd (nat_digits n)) \<le> 57"
proof (induction n rule: nat_digits.induct)
  case (1 n)
  then show ?case
    by (cases "n < 10"; subst (1 2) nat_digits.simps) (auto simp: ord_chr)
qed

lemma nat_digits_hd_sign: "hd (nat_digits n) \<noteq> CHR ''-'' \<and> hd (nat_digits n) \<noteq> CHR ''+''"
  using nat_digits_hd [of n] by auto

lemma ParseUint_nat_digits: "n \<le> maxUint64 \<Longrightarrow> ParseUint (nat_digits n) = (n, None)"
  by (simp add: ParseUint_def parse_nat_digits)

text \<open>Printing an \<open>int64\<close> and reading it back gives the same value.\<close>

lemma ParseInt_FormatInt:
  assumes "int64_ok x"
  shows "ParseInt (FormatInt x) = (x, None)"
proof (cases "x < 0")
  case True
  then have "nat (- x) \<le> 2 ^ 63"
    using assms by (simp add: int64_ok_def nat_le_iff)
  then show ?thesis
    using True by (simp add: FormatInt_def ParseInt_def ParseUint_nat_digits maxUint64_def)
next
  case False
  then have "nat x < 2 ^ 63"
    using assms by (simp add: int64_ok_def nat_less_iff)
  then show ?thesis
    using False nat_digits_hd_sign [of "nat x"]
    by (simp add: FormatInt_def ParseInt_def ParseUint_nat_digits maxUint64_def)
qed

text \<open>Whatever the input, the value is an \<open>int64\<close>.\<close>

lemma ParseInt_range: "ParseInt s = (v, e) \<Longrightarrow> int64_ok v"
  by (auto simp: ParseInt_def int64_ok_def Let_def split: prod.splits option.splits num_err.splits if_splits)

lemma ParseInt_empty [simp]: "ParseInt [] = (0, Some ErrSyntax)"
  by (simp add: ParseInt_def)

subsection \<open>Facts about strings\<close>

lemma strings_Contains_char: "strings_Contains s [c] \<longleftrightarrow> c \<in> set s"
  by (induction s) auto

lemma strings_SplitN2_Cons:
  "sep \<notin> set xs \<Longrightarrow> strings_SplitN2 sep (xs @ sep # ys) = [xs, ys]"
  by (induction xs) (auto simp: strings_SplitN2_def split: list.splits)

subsection \<open>The encodings are injective\<close>

lemma nth_inj: "distinct xs \<Longrightarrow> i < length xs \<Longrightarrow> j < length xs \<Longrightarrow> xs ! i = xs ! j \<longleftrightarrow> i = j"
  by (simp add: nth_eq_iff_index_eq)

lemma hex_digit_eq: "i < 16 \<Longrightarrow> j < 16 \<Longrightarrow> hex_digits ! i = hex_digits ! j \<longleftrightarrow> i = j"
  by (rule nth_inj) (simp_all add: hex_digits_def)

lemma b64_eq: "i < 64 \<Longrightarrow> j < 64 \<Longrightarrow> b64 i = b64 j \<longleftrightarrow> i = j"
  by (rule nth_inj) (simp_all add: base64url_def)

lemma ord_eqI: "ord a = (ord b :: nat) \<Longrightarrow> a = b"
  by (metis char_of_char)

lemma ord_bound: "(ord c :: nat) < 256"
  by simp

lemma length_hex_EncodeToString: "length (hex_EncodeToString s) = 2 * length s"
  by (induction s) (auto simp: hex_EncodeToString_def)

lemma hex_EncodeToString_inj: "hex_EncodeToString s = hex_EncodeToString t \<Longrightarrow> s = t"
proof (induction s arbitrary: t)
  case Nil
  then show ?case
    by (cases t) (auto simp: hex_EncodeToString_def)
next
  case (Cons a s)
  then obtain b t' where t: "t = b # t'"
    by (cases t) (auto simp: hex_EncodeToString_def)
  have "ord a div 16 = (ord b :: nat) div 16" and "ord a mod 16 = (ord b :: nat) mod 16"
    and rest: "hex_EncodeToString s = hex_EncodeToString t'"
    using Cons.prems t hex_digit_eq [of "ord a div 16" "ord b div 16"]
      hex_digit_eq [of "ord a mod 16" "ord b mod 16"] ord_bound [of a] ord_bound [of b]
    by (auto simp: hex_EncodeToString_def less_mult_imp_div_less)
  then have "a = b"
    by (metis div_mult_mod_eq ord_eqI)
  then show ?case
    using t Cons.IH [OF rest] by simp
qed

text \<open>
  Base64: one group of three bytes determines and is determined by its four characters; the same
  for the shorter last group.  The arithmetic is stated on numbers below 256.
\<close>

lemma radix_inj:
  fixes x y x' y' k :: nat
  assumes "y < k" and "y' < k" and "x * k + y = x' * k + y'"
  shows "x = x' \<and> y = y'"
proof -
  have "(x * k + y) div k = (x' * k + y') div k" and "(x * k + y) mod k = (x' * k + y') mod k"
    using assms(3) by simp_all
  then show ?thesis
    using assms(1,2) by simp
qed

lemma b64_group:
  fixes a b c a' b' c' :: nat
  assumes "a < 256" "b < 256" "c < 256" "a' < 256" "b' < 256" "c' < 256"
    and "b64 (a div 4) = b64 (a' div 4)"
    and "b64 ((a mod 4) * 16 + b div 16) = b64 ((a' mod 4) * 16 + b' div 16)"
    and "b64 ((b mod 16) * 4 + c div 64) = b64 ((b' mod 16) * 4 + c' div 64)"
    and "b64 (c mod 64) = b64 (c' mod 64)"
  shows "a = a' \<and> b = b' \<and> c = c'"
proof -
  have 1: "a div 4 = a' div 4"
    using assms(1,4,7) b64_eq [of "a div 4" "a' div 4"] by (simp add: less_mult_imp_div_less)
  have b: "b div 16 < 16" "b' div 16 < 16" "c div 64 < 4" "c' div 64 < 4"
    using assms(2,3,5,6) by (simp_all add: less_mult_imp_div_less)
  have m: "a mod 4 < 4" "a' mod 4 < 4" "b mod 16 < 16" "b' mod 16 < 16"
    by simp_all
  have 2: "(a mod 4) * 16 + b div 16 = (a' mod 4) * 16 + b' div 16"
    using assms(8) b64_eq [of "(a mod 4) * 16 + b div 16" "(a' mod 4) * 16 + b' div 16"] b m
    by linarith
  have 3: "(b mod 16) * 4 + c div 64 = (b' mod 16) * 4 + c' div 64"
    using assms(9) b64_eq [of "(b mod 16) * 4 + c div 64" "(b' mod 16) * 4 + c' div 64"] b m
    by linarith
  have 4: "c mod 64 = c' mod 64"
    using assms(10) b64_eq [of "c mod 64" "c' mod 64"] by simp
  have "a mod 4 = a' mod 4 \<and> b div 16 = b' div 16"
    using radix_inj [OF b(1,2) 2] .
  moreover have "b mod 16 = b' mod 16 \<and> c div 64 = c' div 64"
    using radix_inj [OF b(3,4) 3] .
  ultimately show ?thesis
    using 1 4 by (metis div_mult_mod_eq)
qed

lemmas b64_group2 = b64_group [where c = 0 and c' = 0, simplified]
lemmas b64_group1 = b64_group [where b = 0 and b' = 0 and c = 0 and c' = 0, simplified]

lemma length_RawURLEncoding:
  "length (RawURLEncoding s) = (4 * length s + 2) div 3"
  by (induction s rule: RawURLEncoding.induct) auto

lemma RawURLEncoding_inj:
  "length s = length t \<Longrightarrow> RawURLEncoding s = RawURLEncoding t \<Longrightarrow> s = t"
proof (induction s arbitrary: t rule: RawURLEncoding.induct)
  case 1
  then show ?case by simp
next
  case (2 a)
  then obtain a' where t: "t = [a']"
    by (metis length_0_conv length_Suc_conv)
  have "ord a = (ord a' :: nat)"
    using "2.prems"(2) t by (intro b64_group1) simp_all
  then show ?case
    using t ord_eqI by blast
next
  case (3 a b)
  then obtain a' b' where t: "t = [a', b']"
    by (metis length_0_conv length_Suc_conv)
  have "ord a = (ord a' :: nat) \<and> ord b = (ord b' :: nat)"
    using "3.prems"(2) t by (intro b64_group2) simp_all
  then show ?case
    using t ord_eqI by blast
next
  case (4 a b c rest)
  then obtain a' b' c' rest' where t: "t = a' # b' # c' # rest'"
    by (metis length_Suc_conv)
  have "ord a = (ord a' :: nat) \<and> ord b = (ord b' :: nat) \<and> ord c = (ord c' :: nat)"
    using "4.prems"(2) t by (intro b64_group) simp_all
  moreover have "rest = rest'"
    using "4.IH" "4.prems" t by simp
  ultimately show ?case
    using t ord_eqI by blast
qed

lemma b64_in: "n < 64 \<Longrightarrow> b64 n \<in> set base64url"
  by (rule nth_mem) (simp add: base64url_def)

lemma hex_digit_in: "n < 16 \<Longrightarrow> hex_digits ! n \<in> set hex_digits"
  by (rule nth_mem) (simp add: hex_digits_def)

lemma set_hex_EncodeToString: "set (hex_EncodeToString s) \<subseteq> set hex_digits"
  by (induction s) (auto simp: hex_EncodeToString_def intro!: hex_digit_in less_mult_imp_div_less ord_bound [simplified])

lemma set_RawURLEncoding: "set (RawURLEncoding s) \<subseteq> set base64url"
proof -
  have bounds: "ord c div 4 < 64" "ord c div 16 < 16" "ord c div 64 < (4::nat)" for c :: char
    using ord_bound [of c] by (auto intro!: less_mult_imp_div_less)
  have "(ord a mod 4) * 16 + ord b div 16 < (64::nat)" "(ord b mod 16) * 4 + ord c div 64 < (64::nat)"
    for a b c :: char
    using bounds(2) [of b] bounds(3) [of c] mod_less_divisor [of 4 "ord a"]
      mod_less_divisor [of 16 "ord b"] by linarith+
  moreover have "(ord a mod 4) * 16 < (64::nat)" "(ord a mod 16) * 4 < (64::nat)" for a :: char
    using mod_less_divisor [of 4 "ord a"] mod_less_divisor [of 16 "ord a"] by linarith+
  ultimately show ?thesis
    using bounds by (induction s rule: RawURLEncoding.induct) (auto intro!: b64_in)
qed

subsection \<open>More of strings\<close>

text \<open>\<open>strings.Split(s, c)\<close> for a separator of one character.\<close>

fun strings_Split :: "char \<Rightarrow> string \<Rightarrow> string list" where
  "strings_Split c [] = [[]]"
| "strings_Split c (x # xs) =
     (if x = c then [] # strings_Split c xs
      else (case strings_Split c xs of [] \<Rightarrow> [[x]] | s # ss \<Rightarrow> (x # s) # ss))"

text \<open>The white space of \<open>unicode.IsSpace\<close> in UTF-8.\<close>

definition spaces :: "string list" where
  "spaces = map (\<lambda>bs. map char_of bs)
     ([[9], [10], [11], [12], [13], [32], [194, 133], [194, 160], [225, 154, 128]] @
      map (\<lambda>b. [226, 128, b]) [128, 129, 130, 131, 132, 133, 134, 135, 136, 137, 138, 168, 169, 175] @
      [[226, 129, 159], [227, 128, 128 :: nat]])"

lemma spaces_nonempty: "sp \<in> set spaces \<Longrightarrow> sp \<noteq> []"
  by (auto simp: spaces_def)

function trim_left :: "string \<Rightarrow> string" where
  "trim_left s =
     (case find (\<lambda>sp. s \<noteq> [] \<and> take (length sp) s = sp) spaces of
        None \<Rightarrow> s
      | Some sp \<Rightarrow> trim_left (drop (length sp) s))"
  by auto
termination
  by (relation "measure length") (auto dest!: find_SomeD spaces_nonempty)

declare trim_left.simps [simp del]

function trim_right :: "string \<Rightarrow> string" where
  "trim_right s =
     (case find (\<lambda>sp. s \<noteq> [] \<and> drop (length s - length sp) s = sp) spaces of
        None \<Rightarrow> s
      | Some sp \<Rightarrow> trim_right (take (length s - length sp) s))"
  by auto
termination
  by (relation "measure length") (auto dest!: find_SomeD spaces_nonempty)

declare trim_right.simps [simp del]

definition strings_TrimSpace :: "string \<Rightarrow> string" where
  "strings_TrimSpace s = trim_right (trim_left s)"

text \<open>
  \<open>strings.ToLower\<close> as far as it can produce ASCII letters: those of ASCII, the Kelvin sign and the
  dotted capital i.
\<close>

fun strings_ToLower :: "string \<Rightarrow> string" where
  "strings_ToLower (a # b # c # rest) =
     (if a = CHR 0xE2 \<and> b = CHR 0x84 \<and> c = CHR 0xAA then CHR ''k'' # strings_ToLower rest
      else if a = CHR 0xC4 \<and> b = CHR 0xB0 then CHR ''i'' # strings_ToLower (c # rest)
      else ascii_lower a # strings_ToLower (b # c # rest))"
| "strings_ToLower [a, b] =
     (if a = CHR 0xC4 \<and> b = CHR 0xB0 then ''i'' else [ascii_lower a, ascii_lower b])"
| "strings_ToLower [a] = [ascii_lower a]"
| "strings_ToLower [] = []"

text \<open>\<open>strings.TrimRight(s, c)\<close> for a cut set of one character.\<close>

definition strings_TrimRight :: "char \<Rightarrow> string \<Rightarrow> string" where
  "strings_TrimRight c s = rev (dropWhile (\<lambda>x. x = c) (rev s))"

fun strings_Join :: "string \<Rightarrow> string list \<Rightarrow> string" where
  "strings_Join sep [] = []"
| "strings_Join sep [x] = x"
| "strings_Join sep (x # xs) = x @ sep @ strings_Join sep xs"

text \<open>Nothing that \<open>TrimSpace\<close> returns starts or ends with white space.\<close>

lemma trim_right_end:
  "sp \<in> set spaces \<Longrightarrow> trim_right s \<noteq> [] \<Longrightarrow> drop (length (trim_right s) - length sp) (trim_right s) \<noteq> sp"
proof (induction s rule: trim_right.induct)
  case (1 s)
  show ?case
  proof (cases "find (\<lambda>sp. s \<noteq> [] \<and> drop (length s - length sp) s = sp) spaces")
    case None
    then have "trim_right s = s"
      by (subst trim_right.simps) simp
    then show ?thesis
      using None "1.prems" by (auto simp: find_None_iff)
  next
    case (Some sp')
    then have "trim_right s = trim_right (take (length s - length sp') s)"
      by (subst trim_right.simps) simp
    then show ?thesis
      using "1.IH" [OF Some] "1.prems" by simp
  qed
qed

subsection \<open>float64\<close>

text \<open>
  A \<open>float64\<close> as far as the program looks at it: not a number, an infinity with its sign, or the
  finite value \<open>m * 2\<^sup>e\<close>.
\<close>

datatype float64 = NaN | Inf (positive: bool) | Fin (mantissa: int) (exponent: int)

text \<open>The comparison \<open>f <= 0\<close>; it is false for a NaN.\<close>

fun float_le_zero :: "float64 \<Rightarrow> bool" where
  "float_le_zero NaN = False"
| "float_le_zero (Inf pos) = (\<not> pos)"
| "float_le_zero (Fin m e) = (m \<le> 0)"

text \<open>The value rounded towards zero.\<close>

fun float_trunc :: "float64 \<Rightarrow> int option" where
  "float_trunc (Fin m e) =
     Some (if 0 \<le> e then m * 2 ^ nat e else sgn m * (\<bar>m\<bar> div 2 ^ nat (- e)))"
| "float_trunc _ = None"

text \<open>
  The conversion \<open>int64(f)\<close>: the rounded value when it fits; otherwise the result depends on the
  machine (\<open>other\<close>).
\<close>

definition float_to_int64 :: "(float64 \<Rightarrow> int64) \<Rightarrow> float64 \<Rightarrow> int64" where
  "float_to_int64 other f =
     (case float_trunc f of
        Some i \<Rightarrow> if int64_ok i then i else other f
      | None \<Rightarrow> other f)"

end
