(* ===== verification/Domain.thy ===== *)
theory Domain
  imports GoStd
begin

text \<open>
  Package \<open>domain\<close>: the entities (\<open>User\<close>, \<open>Task\<close>, \<open>RefreshToken\<close>), the task statuses and the
  error values, with \<open>errors.Is\<close>, \<open>errors.As\<close> and the text of an error as the layers above use
  them.

  An error is a value.  The six sentinels of \<open>domain/errors.go\<close> are constants; \<open>fmt.Errorf\<close> with
  \<open>%w\<close> puts text around an inner error (\<open>Wrap\<close>), which \<open>errors.Is\<close> looks through and \<open>==\<close> does
  not.  \<open>ErrNoRows\<close> is \<open>sql.ErrNoRows\<close>, \<open>PgError\<close> an error the database server reports with its
  SQLSTATE code, \<open>ErrDriver\<close> any other failure of the connection or the driver, \<open>NumError\<close> an
  error of \<open>strconv\<close>, \<open>ErrText\<close> an error that only has a text.
\<close>

datatype error =
    ErrNotFound
  | ErrAlreadyExists
  | ErrInvalidCredentials
  | ErrForbidden
  | ErrValidation
  | ErrTokenInvalid
  | ErrNoRows
  | PgError (pg_Code: string) (pg_text: string)
  | ErrDriver string
  | NumError (num_Func: string) (num_Num: string) (num_Err: num_err)
  | ErrText string
  | Wrap (wrap_prefix: string) (Unwrap: error) (wrap_suffix: string)

text \<open>\<open>errors.Is\<close>: the error or one it wraps is the target.\<close>

fun errors_Is :: "error \<Rightarrow> error \<Rightarrow> bool" where
  "errors_Is (Wrap p e s) t = (Wrap p e s = t \<or> errors_Is e t)"
| "errors_Is e t = (e = t)"

text \<open>\<open>errors.As\<close> with a \<open>*pgconn.PgError\<close> target: the code of the first one in the chain.\<close>

fun errors_As_PgError :: "error \<Rightarrow> string option" where
  "errors_As_PgError (PgError code txt) = Some code"
| "errors_As_PgError (Wrap p e s) = errors_As_PgError e"
| "errors_As_PgError _ = None"

text \<open>
  The text of an error (method \<open>Error\<close>).  \<open>q\<close> is \<open>strconv.Quote\<close>, which the text of a
  \<open>strconv.NumError\<close> uses.
\<close>

fun num_err_text :: "num_err \<Rightarrow> string" where
  "num_err_text ErrSyntax = ''invalid syntax''"
| "num_err_text ErrRange = ''value out of range''"

fun Error_text :: "(string \<Rightarrow> string) \<Rightarrow> error \<Rightarrow> string" where
  "Error_text q ErrNotFound = ''resource not found''"
| "Error_text q ErrAlreadyExists = ''resource already exists''"
| "Error_text q ErrInvalidCredentials = ''invalid email or password''"
| "Error_text q ErrForbidden = ''you do not have access to this resource''"
| "Error_text q ErrValidation = ''validation failed''"
| "Error_text q ErrTokenInvalid = ''invalid or expired refresh token''"
| "Error_text q ErrNoRows = ''sql: no rows in result set''"
| "Error_text q (PgError code txt) = txt"
| "Error_text q (ErrDriver txt) = txt"
| "Error_text q (NumError f n r) = ''strconv.'' @ f @ '': parsing '' @ q n @ '': '' @ num_err_text r"
| "Error_text q (ErrText txt) = txt"
| "Error_text q (Wrap p e s) = p @ Error_text q e @ s"

subsection \<open>Entities\<close>

record User =
  u_ID :: int64
  u_Email :: string
  u_PasswordHash :: string
  u_CreatedAt :: time

type_synonym TaskStatus = string

definition TaskStatusPending :: TaskStatus where
  "TaskStatusPending = ''pending''"

definition TaskStatusInProgress :: TaskStatus where
  "TaskStatusInProgress = ''in_progress''"

definition TaskStatusDone :: TaskStatus where
  "TaskStatusDone = ''done''"

definition TaskStatus_Valid :: "TaskStatus \<Rightarrow> bool" where
  "TaskStatus_Valid s \<longleftrightarrow> s \<in> {TaskStatusPending, TaskStatusInProgress, TaskStatusDone}"

record Task =
  t_ID :: int64
  t_UserID :: int64
  t_Title :: string
  t_Description :: string
  t_Status :: TaskStatus
  t_DueDate :: "time option"
  t_CreatedAt :: time
  t_UpdatedAt :: time

record RefreshToken =
  rt_ID :: int64
  rt_UserID :: int64
  rt_TokenHash :: string
  rt_ExpiresAt :: time
  rt_RevokedAt :: "time option"
  rt_CreatedAt :: time

text \<open>\<open>Expired\<close> reads the clock; the reading is its argument.\<close>

definition RefreshToken_Expired :: "time \<Rightarrow> RefreshToken \<Rightarrow> bool" where
  "RefreshToken_Expired now t \<longleftrightarrow> now > rt_ExpiresAt t"

definition RefreshToken_Revoked :: "RefreshToken \<Rightarrow> bool" where
  "RefreshToken_Revoked t \<longleftrightarrow> rt_RevokedAt t \<noteq> None"

lemma errors_Is_sentinel_Wrap [simp]:
  "errors_Is (Wrap p e s) ErrNotFound = errors_Is e ErrNotFound"
  "errors_Is (Wrap p e s) ErrAlreadyExists = errors_Is e ErrAlreadyExists"
  "errors_Is (Wrap p e s) ErrInvalidCredentials = errors_Is e ErrInvalidCredentials"
  "errors_Is (Wrap p e s) ErrForbidden = errors_Is e ErrForbidden"
  "errors_Is (Wrap p e s) ErrValidation = errors_Is e ErrValidation"
  "errors_Is (Wrap p e s) ErrTokenInvalid = errors_Is e ErrTokenInvalid"
  by simp_all

lemma TaskStatus_Valid_Pending [simp]: "TaskStatus_Valid TaskStatusPending"
  by (simp add: TaskStatus_Valid_def)

lemma TaskStatus_Valid_nonempty: "TaskStatus_Valid s \<Longrightarrow> s \<noteq> ''''"
  by (auto simp: TaskStatus_Valid_def TaskStatusPending_def TaskStatusInProgress_def TaskStatusDone_def)

end
