(* ===== verification/Database.thy ===== *)
theory Database
  imports Domain
begin

text \<open>
  What the program meets outside itself: the three tables of \<open>internal/database/migrations\<close> with
  their constraints, and the environment.

  The state (\<open>world\<close>) holds the rows of the tables and the sequences behind the \<open>BIGSERIAL\<close>
  columns.  A SQL statement is one atomic step on it.  Every interaction with the outside (a
  statement, a clock reading, a read of random bytes) takes the next index of \<open>tick\<close>, and the
  environment answers by index: a theorem that holds for every environment holds for every
  sequence of answers.  A statement is answered, or fails with the statement not applied, or
  fails with the statement applied and its reply lost (a connection cut after the commit, a
  context that ran out).  No transaction spans two statements; the code opens none.
\<close>

datatype answer = Answered | NotApplied string | ReplyLost string

text \<open>The claims and signing methods of a token, as the JWT library exchanges them.\<close>

record RegisteredClaims =
  cl_Subject :: string
  cl_IssuedAt :: "time option"
  cl_ExpiresAt :: "time option"

datatype SigningMethod = SigningMethodHMAC (sm_alg: string) | SigningMethodOther (sm_alg: string)

abbreviation SigningMethodHS256 :: SigningMethod where
  "SigningMethodHS256 \<equiv> SigningMethodHMAC ''HS256''"

text \<open>
  The environment.  The first group answers by index; \<open>env_dbnow\<close> is the database server's
  clock, \<open>env_rank\<close> the place at which a query meets a row (a table has no order of its own, and two
  queries may meet the same rows in different orders), \<open>env_affected\<close> an error of \<open>RowsAffected\<close>.  The second group stands for code outside the repository: the driver's
  conversion of a time to \<open>TIMESTAMPTZ\<close>, the texts of server errors, \<open>strconv.Quote\<close>, bcrypt and
  the JWT library.
\<close>

record env =
  env_now :: "nat \<Rightarrow> time"
  env_dbnow :: "nat \<Rightarrow> time"
  env_db :: "nat \<Rightarrow> answer"
  env_affected :: "nat \<Rightarrow> string option"
  env_rank :: "nat \<Rightarrow> Task \<Rightarrow> int"
  env_rand :: "nat \<Rightarrow> nat \<Rightarrow> error + string"
  env_GenerateFromPassword :: "nat \<Rightarrow> string \<Rightarrow> error + string"
  env_timestamptz :: "time \<Rightarrow> time"
  env_pgtext :: "string \<Rightarrow> string"
  env_Quote :: "string \<Rightarrow> string"
  env_CompareHashAndPassword :: "string \<Rightarrow> string \<Rightarrow> error option"
  env_NewNumericDate :: "time \<Rightarrow> time"
  env_SignedString :: "SigningMethod \<Rightarrow> RegisteredClaims \<Rightarrow> string \<Rightarrow> error + string"
  env_ParseWithClaims ::
    "time \<Rightarrow> string \<Rightarrow> (SigningMethod \<Rightarrow> error + string) \<Rightarrow> error + (RegisteredClaims \<times> bool)"

record world =
  users :: "User list"
  tasks :: "Task list"
  refresh_tokens :: "RefreshToken list"
  users_id_seq :: int
  tasks_id_seq :: int
  refresh_tokens_id_seq :: int
  tick :: nat

text \<open>The tables as the migrations leave an empty database.\<close>

definition empty_world :: world where
  "empty_world = \<lparr>users = [], tasks = [], refresh_tokens = [],
     users_id_seq = 0, tasks_id_seq = 0, refresh_tokens_id_seq = 0, tick = 0\<rparr>"

type_synonym 'a stmt = "nat \<Rightarrow> world \<Rightarrow> (error + 'a) \<times> world"
type_synonym 'a op = "world \<Rightarrow> (error + 'a) \<times> world"

definition db_call :: "env \<Rightarrow> 'a stmt \<Rightarrow> 'a op" where
  "db_call E stmt w =
     (let n = tick w; w1 = w\<lparr>tick := Suc n\<rparr>
      in case env_db E n of
           Answered \<Rightarrow> stmt n w1
         | NotApplied msg \<Rightarrow> (Inl (ErrDriver msg), w1)
         | ReplyLost msg \<Rightarrow> (Inl (ErrDriver msg), snd (stmt n w1)))"

text \<open>\<open>time.Now()\<close>.\<close>

definition time_Now :: "env \<Rightarrow> world \<Rightarrow> time \<times> world" where
  "time_Now E w = (env_now E (tick w), w\<lparr>tick := Suc (tick w)\<rparr>)"

text \<open>\<open>nextval\<close> of the sequence behind a \<open>BIGSERIAL\<close> column; \<open>None\<close> when it is used up.\<close>

definition nextval :: "int \<Rightarrow> int option" where
  "nextval s = (if s < 2 ^ 63 - 1 then Some (s + 1) else None)"

definition sequence_limit_exceeded :: "env \<Rightarrow> error" where
  "sequence_limit_exceeded E = PgError ''2200H'' (env_pgtext E ''2200H'')"

definition unique_violation :: "env \<Rightarrow> error" where
  "unique_violation E = PgError ''23505'' (env_pgtext E ''23505'')"

definition foreign_key_violation :: "env \<Rightarrow> error" where
  "foreign_key_violation E = PgError ''23503'' (env_pgtext E ''23503'')"

subsection \<open>What may be assumed of the environment\<close>

text \<open>
  None of these is assumed globally; a theorem that needs one names it.
  \<^item> \<open>rows_affected_ok\<close>: \<open>RowsAffected\<close> returns no error (the driver supports it).
  \<^item> \<open>no_faults\<close>: in addition, every statement is answered.
  \<^item> \<open>rand_ok\<close>: \<open>rand.Read\<close> fills the buffer and returns no error (documented since Go 1.24).
  \<^item> \<open>bcrypt_ok\<close>: a hash that was generated from a password compares equal with it.
\<close>

definition rows_affected_ok :: "env \<Rightarrow> bool" where
  "rows_affected_ok E \<longleftrightarrow> (\<forall>n. env_affected E n = None)"

definition no_faults :: "env \<Rightarrow> bool" where
  "no_faults E \<longleftrightarrow> (\<forall>n. env_db E n = Answered) \<and> rows_affected_ok E"

definition rand_ok :: "env \<Rightarrow> bool" where
  "rand_ok E \<longleftrightarrow> (\<forall>n k. \<exists>buf. env_rand E n k = Inr buf \<and> length buf = k)"

definition bcrypt_ok :: "env \<Rightarrow> bool" where
  "bcrypt_ok E \<longleftrightarrow>
     (\<forall>n pw h. env_GenerateFromPassword E n pw = Inr h \<longrightarrow> env_CompareHashAndPassword E h pw = None)"

subsection \<open>The invariant of the tables\<close>

text \<open>
  What the migrations declare (primary keys, unique columns, foreign keys), what the sequences
  keep (every id was handed out by its sequence and is an \<open>int64\<close>) and what the services keep of
  a task's status, which the schema leaves free.
\<close>

definition ids_ok :: "int list \<Rightarrow> int \<Rightarrow> bool" where
  "ids_ok ids s \<longleftrightarrow> distinct ids \<and> (\<forall>i \<in> set ids. 0 < i \<and> i \<le> s) \<and> 0 \<le> s \<and> s < 2 ^ 63"

definition db_inv :: "world \<Rightarrow> bool" where
  "db_inv w \<longleftrightarrow>
     ids_ok (map u_ID (users w)) (users_id_seq w) \<and>
     ids_ok (map t_ID (tasks w)) (tasks_id_seq w) \<and>
     ids_ok (map rt_ID (refresh_tokens w)) (refresh_tokens_id_seq w) \<and>
     distinct (map u_Email (users w)) \<and>
     distinct (map rt_TokenHash (refresh_tokens w)) \<and>
     (\<forall>t \<in> set (tasks w). t_UserID t \<in> u_ID ` set (users w)) \<and>
     (\<forall>t \<in> set (refresh_tokens w). rt_UserID t \<in> u_ID ` set (users w)) \<and>
     (\<forall>t \<in> set (tasks w). TaskStatus_Valid (t_Status t))"

text \<open>Two states with the same rows; the sequences and the index may have moved on.\<close>

definition same_rows :: "world \<Rightarrow> world \<Rightarrow> bool" where
  "same_rows w w' \<longleftrightarrow>
     users w' = users w \<and> tasks w' = tasks w \<and> refresh_tokens w' = refresh_tokens w"

lemma same_rowsD [dest]:
  assumes "same_rows w w'"
  shows "users w' = users w" and "tasks w' = tasks w" and "refresh_tokens w' = refresh_tokens w"
  using assms by (simp_all add: same_rows_def)

lemma same_rows_refl [simp]: "same_rows w w"
  by (simp add: same_rows_def)

lemma same_rows_tick [simp]: "same_rows w (w\<lparr>tick := n\<rparr>)"
  by (simp add: same_rows_def)

lemma db_inv_empty_world: "db_inv empty_world"
  by (simp add: db_inv_def empty_world_def ids_ok_def)

lemma db_inv_tick [simp]: "db_inv (w\<lparr>tick := n\<rparr>) = db_inv w"
  by (simp add: db_inv_def)

lemma ids_ok_nextval:
  "ids_ok ids s \<Longrightarrow> nextval s = Some i \<Longrightarrow> ids_ok (ids @ [i]) i \<and> ids_ok ids i \<and> i \<notin> set ids"
  by (force simp: ids_ok_def nextval_def split: if_splits)

lemma db_inv_ids:
  assumes "db_inv w"
  shows "ids_ok (map u_ID (users w)) (users_id_seq w)"
    and "ids_ok (map t_ID (tasks w)) (tasks_id_seq w)"
    and "ids_ok (map rt_ID (refresh_tokens w)) (refresh_tokens_id_seq w)"
  using assms by (simp_all add: db_inv_def)

lemmas db_inv_next = db_inv_ids [THEN ids_ok_nextval]

lemma ids_ok_int64: "ids_ok ids s \<Longrightarrow> i \<in> set ids \<Longrightarrow> int64_ok i"
  by (force simp: ids_ok_def int64_ok_def)

lemma ids_ok_filter: "ids_ok (map f rows) s \<Longrightarrow> ids_ok (map f (filter p rows)) s"
  by (auto simp: ids_ok_def distinct_map inj_on_def)

text \<open>A statement that keeps a property keeps it whatever the environment answers.\<close>

lemma db_call_cases:
  assumes "db_call E stmt w = (r, w')"
  obtains (Skipped) "w' = w\<lparr>tick := Suc (tick w)\<rparr>"
    | (Applied) r1 where "stmt (tick w) (w\<lparr>tick := Suc (tick w)\<rparr>) = (r1, w')"
  using assms by (cases "stmt (tick w) (w\<lparr>tick := Suc (tick w)\<rparr>)")
    (auto simp: db_call_def Let_def split: answer.splits)

lemma db_call_InrD:
  "db_call E stmt w = (Inr x, w') \<Longrightarrow> stmt (tick w) (w\<lparr>tick := Suc (tick w)\<rparr>) = (Inr x, w')"
  by (simp add: db_call_def Let_def split: answer.splits)

lemma db_call_InlD:
  "db_call E stmt w = (Inl e, w') \<Longrightarrow>
     (\<exists>msg. e = ErrDriver msg) \<or> stmt (tick w) (w\<lparr>tick := Suc (tick w)\<rparr>) = (Inl e, w')"
  by (auto simp: db_call_def Let_def split: answer.splits)

lemma db_call_answered:
  "no_faults E \<Longrightarrow> db_call E stmt w = stmt (tick w) (w\<lparr>tick := Suc (tick w)\<rparr>)"
  by (simp add: db_call_def Let_def no_faults_def)

end
