(* ===== verification/Example.thy ===== *)
theory Example
  imports Database
begin

text \<open>
  A concrete environment and a concrete store, on which the hypotheses of the properties are
  shown to hold together.  Its clock advances one second per interaction, its database answers
  every statement, its random bytes depend on the index of the read.  Passwords are hashed by a
  tag (with the length limit of bcrypt), and tokens are signed by a readable encoding of the
  method, the key and the claims, which satisfies the laws assumed of the JWT library.
\<close>

text \<open>A string as a prefix code: every character after a dot, closed by a bar.\<close>

fun enc :: "string \<Rightarrow> string" where
  "enc [] = ''|''"
| "enc (c # cs) = CHR ''.'' # c # enc cs"

fun dec :: "string \<Rightarrow> (string \<times> string) option" where
  "dec [] = None"
| "dec [b] = (if b = CHR ''|'' then Some ([], []) else None)"
| "dec (b # c # rest) =
     (if b = CHR ''|'' then Some ([], c # rest)
      else if b = CHR ''.'' then
        (case dec rest of None \<Rightarrow> None | Some (s, r) \<Rightarrow> Some (c # s, r))
      else None)"

lemma dec_enc [simp]: "dec (enc s @ r) = Some (s, r)"
proof (induction s)
  case Nil
  show ?case
    by (cases r) auto
qed simp

fun enc_time :: "time option \<Rightarrow> string" where
  "enc_time None = enc ''-''"
| "enc_time (Some t) = enc (FormatInt t)"

definition dec_time :: "string \<Rightarrow> time option" where
  "dec_time s = (case ParseInt s of (t, None) \<Rightarrow> Some t | (t, Some _) \<Rightarrow> None)"

definition example_SignedString :: "SigningMethod \<Rightarrow> RegisteredClaims \<Rightarrow> string \<Rightarrow> error + string" where
  "example_SignedString method claims key =
     (case method of
        SigningMethodOther alg \<Rightarrow> Inl (ErrText ''no such method'')
      | SigningMethodHMAC alg \<Rightarrow>
          if pred_option int64_ok (cl_IssuedAt claims) \<and> pred_option int64_ok (cl_ExpiresAt claims)
          then Inr (enc alg @ enc key @ enc (cl_Subject claims) @
                    enc_time (cl_IssuedAt claims) @ enc_time (cl_ExpiresAt claims))
          else Inl (ErrText ''time out of range''))"

definition example_fields :: "string \<Rightarrow> (string \<times> string \<times> RegisteredClaims) option" where
  "example_fields s =
     Option.bind (dec s) (\<lambda>(alg, s1).
     Option.bind (dec s1) (\<lambda>(key, s2).
     Option.bind (dec s2) (\<lambda>(sub, s3).
     Option.bind (dec s3) (\<lambda>(iat, s4).
     Option.bind (dec s4) (\<lambda>(ex, s5).
       Some (alg, key, \<lparr>cl_Subject = sub, cl_IssuedAt = dec_time iat, cl_ExpiresAt = dec_time ex\<rparr>))))))"

definition example_ParseWithClaims ::
  "time \<Rightarrow> string \<Rightarrow> (SigningMethod \<Rightarrow> error + string) \<Rightarrow> error + (RegisteredClaims \<times> bool)" where
  "example_ParseWithClaims now s kf =
     (case example_fields s of
        None \<Rightarrow> Inl (ErrText ''token is malformed'')
      | Some (alg, key, claims) \<Rightarrow>
          (case kf (SigningMethodHMAC alg) of
             Inl err \<Rightarrow> Inl err
           | Inr k \<Rightarrow>
               if k \<noteq> key then Inl (ErrText ''signature is invalid'')
               else if (\<exists>x \<in> set_option (cl_ExpiresAt claims). x \<le> now) then Inl (ErrText ''token is expired'')
               else Inr (claims, True)))"

definition example_hash :: "nat \<Rightarrow> string \<Rightarrow> error + string" where
  "example_hash n pw =
     (if 72 < length pw then Inl (ErrText ''bcrypt: password length exceeds 72 bytes'')
      else Inr (''hash:'' @ pw))"

definition example_env :: env where
  "example_env =
     \<lparr>env_now = (\<lambda>n. 1000000000 * int n),
      env_dbnow = (\<lambda>n. 1000000000 * int n),
      env_db = (\<lambda>n. Answered),
      env_affected = (\<lambda>n. None),
      env_rank = (\<lambda>n t. t_ID t),
      env_rand = (\<lambda>n k. Inr (replicate k (char_of n))),
      env_GenerateFromPassword = example_hash,
      env_timestamptz = (\<lambda>t. t div 1000 * 1000),
      env_pgtext = (\<lambda>code. ''ERROR''),
      env_Quote = (\<lambda>s. CHR 0x22 # s @ [CHR 0x22]),
      env_CompareHashAndPassword =
        (\<lambda>h pw. if h = ''hash:'' @ pw then None else Some (ErrText ''hash mismatch'')),
      env_NewNumericDate = (\<lambda>t. t div 1000000000 * 1000000000),
      env_SignedString = example_SignedString,
      env_ParseWithClaims = example_ParseWithClaims\<rparr>"

text \<open>
  Two users; the first has a task, a live session and a session that was already used, the second
  a task and a live session.
\<close>

definition example_users :: "User list" where
  "example_users =
     [\<lparr>u_ID = 1, u_Email = ''ann@example.com'', u_PasswordHash = ''hash:correct horse'', u_CreatedAt = 0\<rparr>,
      \<lparr>u_ID = 2, u_Email = ''bob@example.com'', u_PasswordHash = ''hash:battery'', u_CreatedAt = 0\<rparr>]"

definition example_task :: "int64 \<Rightarrow> int64 \<Rightarrow> Task" where
  "example_task i owner =
     \<lparr>t_ID = i, t_UserID = owner, t_Title = ''title'', t_Description = '''', t_Status = TaskStatusPending,
      t_DueDate = None, t_CreatedAt = 0, t_UpdatedAt = 0\<rparr>"

definition example_token :: "int64 \<Rightarrow> int64 \<Rightarrow> string \<Rightarrow> time option \<Rightarrow> RefreshToken" where
  "example_token i owner hash revoked =
     \<lparr>rt_ID = i, rt_UserID = owner, rt_TokenHash = hash, rt_ExpiresAt = 3600000000000,
      rt_RevokedAt = revoked, rt_CreatedAt = 0\<rparr>"

definition example_world :: "RefreshToken list \<Rightarrow> world" where
  "example_world toks =
     \<lparr>users = example_users, tasks = [example_task 1 1, example_task 2 2], refresh_tokens = toks,
      users_id_seq = 2, tasks_id_seq = 2, refresh_tokens_id_seq = int (length toks), tick = 0\<rparr>"

lemma example_env_sel [simp]:
  "env_now example_env n = 1000000000 * int n"
  "env_dbnow example_env n = 1000000000 * int n"
  "env_db example_env n = Answered"
  "env_affected example_env n = None"
  "env_rank example_env n t = t_ID t"
  "env_rand example_env n k = Inr (replicate k (char_of n))"
  "env_GenerateFromPassword example_env = example_hash"
  "env_timestamptz example_env x = x div 1000 * 1000"
  "env_CompareHashAndPassword example_env h pw =
     (if h = ''hash:'' @ pw then None else Some (ErrText ''hash mismatch''))"
  "env_NewNumericDate example_env x = x div 1000000000 * 1000000000"
  "env_SignedString example_env = example_SignedString"
  "env_ParseWithClaims example_env = example_ParseWithClaims"
  "env_Quote example_env s = CHR 0x22 # s @ [CHR 0x22]"
  by (simp_all add: example_env_def)

lemma example_no_faults [simp]: "no_faults example_env" "rows_affected_ok example_env"
  by (simp_all add: no_faults_def rows_affected_ok_def)

lemma example_rand_ok [simp]: "rand_ok example_env"
  by (simp add: rand_ok_def)

lemma example_bcrypt_ok [simp]: "bcrypt_ok example_env"
  by (simp add: bcrypt_ok_def example_hash_def)

lemma example_world_sel [simp]:
  "users (example_world toks) = example_users"
  "tasks (example_world toks) = [example_task 1 1, example_task 2 2]"
  "refresh_tokens (example_world toks) = toks"
  "users_id_seq (example_world toks) = 2"
  "tasks_id_seq (example_world toks) = 2"
  "refresh_tokens_id_seq (example_world toks) = int (length toks)"
  "tick (example_world toks) = 0"
  by (simp_all add: example_world_def)

lemma example_task_sel [simp]:
  "t_ID (example_task i u) = i" "t_UserID (example_task i u) = u"
  "t_Status (example_task i u) = TaskStatusPending" "t_CreatedAt (example_task i u) = 0"
  by (simp_all add: example_task_def)

lemma example_token_sel [simp]:
  "rt_ID (example_token i u h c) = i" "rt_UserID (example_token i u h c) = u"
  "rt_TokenHash (example_token i u h c) = h" "rt_RevokedAt (example_token i u h c) = c"
  "rt_ExpiresAt (example_token i u h c) = 3600000000000"
  by (simp_all add: example_token_def)

lemma example_world_inv:
  "db_inv (example_world [])"
  "db_inv (example_world [example_token 1 1 h c])"
  "h \<noteq> k \<Longrightarrow> db_inv (example_world [example_token 1 1 h c, example_token 2 2 k d])"
  by (simp_all add: db_inv_def ids_ok_def example_users_def)

end
