(* ===== verification/UserRepository.thy ===== *)
theory UserRepository
  imports Example
begin

text \<open>
  \<open>internal/repository/user_repository.go\<close> and \<open>postgres_errors.go\<close>: the interface
  \<open>UserRepository\<close> as a record of its methods, the SQL statements on the table \<open>users\<close>, the
  methods of the Postgres implementation, and the contract the services rely on as the locale
  \<open>user_repository\<close>.
\<close>

record UserRepository =
  ur_Create :: "User \<Rightarrow> User op"
  ur_FindByEmail :: "string \<Rightarrow> User op"
  ur_FindByID :: "int64 \<Rightarrow> User op"

definition isUniqueViolation :: "error \<Rightarrow> bool" where
  "isUniqueViolation err = (errors_As_PgError err = Some ''23505'')"

text \<open>
  \<open>INSERT INTO users (email, password_hash) VALUES ($1, $2) RETURNING id, created_at\<close>.
  The sequence moves on even when a constraint rejects the row.
\<close>

definition sql_insert_user :: "env \<Rightarrow> string \<Rightarrow> string \<Rightarrow> (int64 \<times> time) stmt" where
  [sql_defs]: "sql_insert_user E email hash n w =
     (case nextval (users_id_seq w) of
        None \<Rightarrow> (Inl (sequence_limit_exceeded E), w)
      | Some i \<Rightarrow>
          (let w1 = w\<lparr>users_id_seq := i\<rparr>; c = env_dbnow E n
           in if i \<in> u_ID ` set (users w) \<or> email \<in> u_Email ` set (users w)
              then (Inl (unique_violation E), w1)
              else (Inr (i, c),
                    w1\<lparr>users := users w @
                       [\<lparr>u_ID = i, u_Email = email, u_PasswordHash = hash, u_CreatedAt = c\<rparr>]\<rparr>)))"

text \<open>\<open>SELECT ... FROM users WHERE p\<close>, read with \<open>QueryRow\<close>: the first row, or \<open>ErrNoRows\<close>.\<close>

definition sql_select_user :: "(User \<Rightarrow> bool) \<Rightarrow> User stmt" where
  [sql_defs]: "sql_select_user p n w =
     (case find p (users w) of None \<Rightarrow> (Inl ErrNoRows, w) | Some u \<Rightarrow> (Inr u, w))"

definition userRepository_Create :: "env \<Rightarrow> User \<Rightarrow> User op" where
  [repo_defs]: "userRepository_Create E u w =
     (case db_call E (sql_insert_user E (u_Email u) (u_PasswordHash u)) w of
        (Inl err, w') \<Rightarrow>
          if isUniqueViolation err then (Inl ErrAlreadyExists, w')
          else (Inl (Wrap ''insert user: '' err ''''), w')
      | (Inr (i, c), w') \<Rightarrow> (Inr (u\<lparr>u_ID := i, u_CreatedAt := c\<rparr>), w'))"

definition userRepository_FindByEmail :: "env \<Rightarrow> string \<Rightarrow> User op" where
  [repo_defs]: "userRepository_FindByEmail E email w =
     (case db_call E (sql_select_user (\<lambda>u. u_Email u = email)) w of
        (Inl err, w') \<Rightarrow>
          if errors_Is err ErrNoRows then (Inl ErrNotFound, w')
          else (Inl (Wrap ''find user by email: '' err ''''), w')
      | (Inr u, w') \<Rightarrow> (Inr u, w'))"

definition userRepository_FindByID :: "env \<Rightarrow> int64 \<Rightarrow> User op" where
  [repo_defs]: "userRepository_FindByID E i w =
     (case db_call E (sql_select_user (\<lambda>u. u_ID u = i)) w of
        (Inl err, w') \<Rightarrow>
          if errors_Is err ErrNoRows then (Inl ErrNotFound, w')
          else (Inl (Wrap ''find user by id: '' err ''''), w')
      | (Inr u, w') \<Rightarrow> (Inr u, w'))"

definition NewUserRepository :: "env \<Rightarrow> UserRepository" where
  "NewUserRepository E =
     \<lparr>ur_Create = userRepository_Create E,
      ur_FindByEmail = userRepository_FindByEmail E,
      ur_FindByID = userRepository_FindByID E\<rparr>"

lemma NewUserRepository_sel [simp]:
  "ur_Create (NewUserRepository E) = userRepository_Create E"
  "ur_FindByEmail (NewUserRepository E) = userRepository_FindByEmail E"
  "ur_FindByID (NewUserRepository E) = userRepository_FindByID E"
  by (simp_all add: NewUserRepository_def)

subsection \<open>The contract of the interface\<close>

text \<open>
  What the services may rely on.  A successful \<open>Create\<close> appends the user it returns under a new
  id; a failed one leaves the rows alone or, when only the reply was lost, has appended the row.
  The lookups change nothing; \<open>ErrNotFound\<close> (the bare value) means that no row matches.
\<close>

locale user_repository =
  fixes R :: UserRepository
  assumes create_ok:
    "ur_Create R u w = (Inr u', w') \<Longrightarrow>
       (\<exists>i c. u' = u\<lparr>u_ID := i, u_CreatedAt := c\<rparr> \<and> i \<notin> u_ID ` set (users w)) \<and>
       u_Email u \<notin> u_Email ` set (users w) \<and>
       (\<exists>row. users w' = users w @ [row] \<and> u_ID row = u_ID u' \<and> u_Email row = u_Email u \<and>
              u_PasswordHash row = u_PasswordHash u \<and> u_CreatedAt row = u_CreatedAt u')"
    and create_exists:
    "ur_Create R u w = (Inl ErrAlreadyExists, w') \<Longrightarrow> db_inv w \<Longrightarrow>
       u_Email u \<in> u_Email ` set (users w) \<and> same_rows w w'"
    and create_grows:
    "ur_Create R u w = (r, w') \<Longrightarrow>
       users w' = users w \<or>
       (\<exists>row. users w' = users w @ [row] \<and> u_Email row = u_Email u \<and>
              u_PasswordHash row = u_PasswordHash u \<and> u_Email u \<notin> u_Email ` set (users w))"
    and create_frame:
    "ur_Create R u w = (r, w') \<Longrightarrow> tasks w' = tasks w \<and> refresh_tokens w' = refresh_tokens w"
    and create_inv: "ur_Create R u w = (r, w') \<Longrightarrow> db_inv w \<Longrightarrow> db_inv w'"
    and find_email_rows: "ur_FindByEmail R email w = (r, w') \<Longrightarrow> same_rows w w'"
    and find_email_inv: "ur_FindByEmail R email w = (r, w') \<Longrightarrow> db_inv w \<Longrightarrow> db_inv w'"
    and find_email_ok:
    "ur_FindByEmail R email w = (Inr u, w') \<Longrightarrow> u \<in> set (users w) \<and> u_Email u = email"
    and find_email_none:
    "ur_FindByEmail R email w = (Inl ErrNotFound, w') \<Longrightarrow> email \<notin> u_Email ` set (users w)"
    and find_id_rows: "ur_FindByID R i w = (r, w') \<Longrightarrow> same_rows w w'"
    and find_id_ok: "ur_FindByID R i w = (Inr u, w') \<Longrightarrow> u \<in> set (users w) \<and> u_ID u = i"
    and find_id_none: "ur_FindByID R i w = (Inl ErrNotFound, w') \<Longrightarrow> i \<notin> u_ID ` set (users w)"
begin

text \<open>In a sound store a lookup that succeeds after an insert finds the inserted user.\<close>

lemma find_email_unique:
  assumes "db_inv w" and "u \<in> set (users w)" and "ur_FindByEmail R (u_Email u) w = (Inr v, w')"
  shows "v = u"
proof -
  have "v \<in> set (users w)" and "u_Email v = u_Email u"
    using find_email_ok [OF assms(3)] by simp_all
  then show ?thesis
    using assms(1,2) distinct_key_eq [of u_Email "users w" v u] by (simp add: db_inv_def)
qed

end

subsection \<open>The Postgres implementation keeps the contract\<close>

lemma isUniqueViolation_simps [simp]:
  "isUniqueViolation (unique_violation E)"
  "\<not> isUniqueViolation (sequence_limit_exceeded E)"
  "\<not> isUniqueViolation (ErrDriver msg)"
  by (simp_all add: isUniqueViolation_def unique_violation_def sequence_limit_exceeded_def)

lemma sql_insert_user_rows:
  "sql_insert_user E email hash n w = (r, w') \<Longrightarrow>
     tasks w' = tasks w \<and> refresh_tokens w' = refresh_tokens w \<and>
     (users w' = users w \<or>
      (\<exists>row. users w' = users w @ [row] \<and> u_Email row = email \<and> u_PasswordHash row = hash \<and>
             email \<notin> u_Email ` set (users w)))"
  by (auto simp: sql_defs Let_def split: option.splits if_splits)

lemma sql_insert_user_inv:
  assumes "sql_insert_user E email hash n w = (r, w')" and "db_inv w"
  shows "db_inv w'"
proof (cases "nextval (users_id_seq w)")
  case None
  then show ?thesis
    using assms by (simp add: sql_defs)
next
  case (Some i)
  show ?thesis
    using assms Some db_inv_next(1) [OF assms(2) Some]
    by (auto simp: sql_defs db_inv_def Let_def split: if_splits)
qed

lemma sql_insert_user_Inr:
  "sql_insert_user E email hash n w = (Inr (i, c), w') \<Longrightarrow>
     i \<notin> u_ID ` set (users w) \<and> email \<notin> u_Email ` set (users w) \<and>
     users w' = users w @ [\<lparr>u_ID = i, u_Email = email, u_PasswordHash = hash, u_CreatedAt = c\<rparr>]"
  by (auto simp: sql_defs Let_def split: option.splits if_splits)

lemma sql_insert_user_unique:
  assumes "sql_insert_user E email hash n w = (Inl e, w')" and "isUniqueViolation e" and "db_inv w"
  shows "email \<in> u_Email ` set (users w) \<and> same_rows w w'"
proof (cases "nextval (users_id_seq w)")
  case None
  then show ?thesis
    using assms by (auto simp: sql_defs)
next
  case (Some i)
  then have "i \<notin> u_ID ` set (users w)"
    using db_inv_next(1) [OF assms(3) Some] by simp
  then show ?thesis
    using assms(1) Some by (auto simp: sql_defs same_rows_def Let_def split: if_splits)
qed

lemma sql_select_userD:
  "sql_select_user p n w = (r, w') \<Longrightarrow> w' = w"
  "sql_select_user p n w = (Inr u, w') \<Longrightarrow> u \<in> set (users w) \<and> p u"
  "sql_select_user p n w = (Inl e, w') \<Longrightarrow> e = ErrNoRows \<and> (\<forall>u \<in> set (users w). \<not> p u)"
  by (auto simp: sql_defs find_None_iff dest: find_SomeD split: option.splits)

text \<open>The statements under the environment's answers.\<close>

lemma select_user_call:
  assumes "db_call E (sql_select_user p) w = (r, w')"
  shows "same_rows w w' \<and> (db_inv w \<longrightarrow> db_inv w') \<and>
         (\<forall>u. r = Inr u \<longrightarrow> u \<in> set (users w) \<and> p u) \<and>
         (\<forall>e. r = Inl e \<longrightarrow> (\<exists>msg. e = ErrDriver msg) \<or> e = ErrNoRows \<and> (\<forall>u \<in> set (users w). \<not> p u))"
proof -
  have "w' = w\<lparr>tick := Suc (tick w)\<rparr>"
    using assms by (rule db_call_cases) (auto dest: sql_select_userD(1))
  then show ?thesis
    using assms by (auto dest!: db_call_InrD db_call_InlD sql_select_userD(2,3))
qed

lemma insert_user_call:
  assumes "db_call E (sql_insert_user E email hash) w = (r, w')"
  shows "tasks w' = tasks w \<and> refresh_tokens w' = refresh_tokens w \<and> (db_inv w \<longrightarrow> db_inv w') \<and>
         (users w' = users w \<or>
          (\<exists>row. users w' = users w @ [row] \<and> u_Email row = email \<and> u_PasswordHash row = hash \<and>
                 email \<notin> u_Email ` set (users w)))"
  using assms
proof (rule db_call_cases)
  fix r1
  assume stmt: "sql_insert_user E email hash (tick w) (w\<lparr>tick := Suc (tick w)\<rparr>) = (r1, w')"
  show ?thesis
    using sql_insert_user_rows [OF stmt] sql_insert_user_inv [OF stmt] by simp
qed simp

lemma insert_user_call_exists:
  assumes "db_call E (sql_insert_user E email hash) w = (Inl e, w')"
    and "isUniqueViolation e" and "db_inv w"
  shows "email \<in> u_Email ` set (users w) \<and> same_rows w w'"
proof -
  have "sql_insert_user E email hash (tick w) (w\<lparr>tick := Suc (tick w)\<rparr>) = (Inl e, w')"
    using db_call_InlD [OF assms(1)] assms(2) by auto
  from sql_insert_user_unique [OF this assms(2)] show ?thesis
    using assms(3) by (auto simp: same_rows_def)
qed

lemma userRepository_Create_call:
  assumes "userRepository_Create E u w = (r, w')"
  obtains r1 where "db_call E (sql_insert_user E (u_Email u) (u_PasswordHash u)) w = (r1, w')"
    and "r = (case r1 of
                Inl e \<Rightarrow> Inl (if isUniqueViolation e then ErrAlreadyExists
                               else Wrap ''insert user: '' e '''')
              | Inr (i, c) \<Rightarrow> Inr (u\<lparr>u_ID := i, u_CreatedAt := c\<rparr>))"
  using assms by (auto simp: repo_defs split: prod.splits sum.splits if_splits)

interpretation pg_users: user_repository "NewUserRepository E" for E
proof (unfold_locales, goal_cases)
  case (1 u w u' w')
  then obtain i c where
    ic: "db_call E (sql_insert_user E (u_Email u) (u_PasswordHash u)) w = (Inr (i, c), w')"
    and u': "u' = u\<lparr>u_ID := i, u_CreatedAt := c\<rparr>"
    by (auto elim!: userRepository_Create_call split: sum.splits)
  show ?case
    using sql_insert_user_Inr [OF db_call_InrD [OF ic]] u' by auto
next
  case (2 u w w')
  then show ?case
    by (auto elim!: userRepository_Create_call split: sum.splits if_splits
        dest: insert_user_call_exists)
qed (auto simp: repo_defs split: prod.splits sum.splits if_splits
  dest!: insert_user_call select_user_call)

end
