(* ===== verification/RefreshTokenRepository.thy ===== *)
theory RefreshTokenRepository
  imports Example
begin

text \<open>
  \<open>internal/repository/refresh_token_repository.go\<close>: the interface, the SQL statements on the
  table \<open>refresh_tokens\<close>, the Postgres implementation, and the contract
  \<open>refresh_token_repository\<close> the authentication service relies on.
\<close>

record RefreshTokenRepository =
  rr_Create :: "RefreshToken \<Rightarrow> RefreshToken op"
  rr_FindByHash :: "string \<Rightarrow> RefreshToken op"
  rr_Revoke :: "int64 \<Rightarrow> unit op"
  rr_RevokeAllForUser :: "int64 \<Rightarrow> unit op"

text \<open>
  \<open>INSERT INTO refresh_tokens (user_id, token_hash, expires_at) VALUES ($1, $2, $3) RETURNING id,
  created_at\<close> under the primary key, the unique hash and the reference to \<open>users\<close>.
\<close>

definition sql_insert_refresh_token :: "env \<Rightarrow> int64 \<Rightarrow> string \<Rightarrow> time \<Rightarrow> (int64 \<times> time) stmt" where
  [sql_defs]: "sql_insert_refresh_token E user_id token_hash expires_at n w =
     (case nextval (refresh_tokens_id_seq w) of
        None \<Rightarrow> (Inl (sequence_limit_exceeded E), w)
      | Some i \<Rightarrow>
          (let w1 = w\<lparr>refresh_tokens_id_seq := i\<rparr>; c = env_dbnow E n
           in if i \<in> rt_ID ` set (refresh_tokens w) \<or> token_hash \<in> rt_TokenHash ` set (refresh_tokens w)
              then (Inl (unique_violation E), w1)
              else if user_id \<notin> u_ID ` set (users w) then (Inl (foreign_key_violation E), w1)
              else (Inr (i, c),
                    w1\<lparr>refresh_tokens := refresh_tokens w @
                       [\<lparr>rt_ID = i, rt_UserID = user_id, rt_TokenHash = token_hash,
                         rt_ExpiresAt = env_timestamptz E expires_at, rt_RevokedAt = None,
                         rt_CreatedAt = c\<rparr>]\<rparr>)))"

definition sql_select_refresh_token :: "string \<Rightarrow> RefreshToken stmt" where
  [sql_defs]: "sql_select_refresh_token hash n w =
     (case find (\<lambda>t. rt_TokenHash t = hash) (refresh_tokens w) of
        None \<Rightarrow> (Inl ErrNoRows, w)
      | Some t \<Rightarrow> (Inr t, w))"

text \<open>
  \<open>UPDATE refresh_tokens SET revoked_at = now() WHERE p AND revoked_at IS NULL\<close>; the result is
  the number of rows the statement touched.
\<close>

definition sql_revoke_where :: "env \<Rightarrow> (RefreshToken \<Rightarrow> bool) \<Rightarrow> nat stmt" where
  [sql_defs]: "sql_revoke_where E p n w =
     (let q = (\<lambda>t. p t \<and> rt_RevokedAt t = None)
      in (Inr (affected q (refresh_tokens w)),
          w\<lparr>refresh_tokens :=
              update_where q (\<lambda>t. t\<lparr>rt_RevokedAt := Some (env_dbnow E n)\<rparr>) (refresh_tokens w)\<rparr>))"

definition refreshTokenRepository_Create :: "env \<Rightarrow> RefreshToken \<Rightarrow> RefreshToken op" where
  [repo_defs]: "refreshTokenRepository_Create E t w =
     (case db_call E (sql_insert_refresh_token E (rt_UserID t) (rt_TokenHash t) (rt_ExpiresAt t)) w of
        (Inl err, w') \<Rightarrow> (Inl (Wrap ''insert refresh token: '' err ''''), w')
      | (Inr (i, c), w') \<Rightarrow> (Inr (t\<lparr>rt_ID := i, rt_CreatedAt := c\<rparr>), w'))"

definition refreshTokenRepository_FindByHash :: "env \<Rightarrow> string \<Rightarrow> RefreshToken op" where
  [repo_defs]: "refreshTokenRepository_FindByHash E hash w =
     (case db_call E (sql_select_refresh_token hash) w of
        (Inl err, w') \<Rightarrow>
          if errors_Is err ErrNoRows then (Inl ErrNotFound, w')
          else (Inl (Wrap ''find refresh token by hash: '' err ''''), w')
      | (Inr t, w') \<Rightarrow> (Inr t, w'))"

text \<open>An error of \<open>RowsAffected\<close> counts as success here, as in the code.\<close>

definition refreshTokenRepository_Revoke :: "env \<Rightarrow> int64 \<Rightarrow> unit op" where
  [repo_defs]: "refreshTokenRepository_Revoke E i w =
     (case db_call E (sql_revoke_where E (\<lambda>t. rt_ID t = i)) w of
        (Inl err, w') \<Rightarrow> (Inl (Wrap ''revoke refresh token: '' err ''''), w')
      | (Inr rows, w') \<Rightarrow>
          if env_affected E (tick w) = None \<and> rows = 0 then (Inl ErrNotFound, w') else (Inr (), w'))"

definition refreshTokenRepository_RevokeAllForUser :: "env \<Rightarrow> int64 \<Rightarrow> unit op" where
  [repo_defs]: "refreshTokenRepository_RevokeAllForUser E userID w =
     (case db_call E (sql_revoke_where E (\<lambda>t. rt_UserID t = userID)) w of
        (Inl err, w') \<Rightarrow> (Inl (Wrap ''revoke all refresh tokens for user: '' err ''''), w')
      | (Inr rows, w') \<Rightarrow> (Inr (), w'))"

definition NewRefreshTokenRepository :: "env \<Rightarrow> RefreshTokenRepository" where
  "NewRefreshTokenRepository E =
     \<lparr>rr_Create = refreshTokenRepository_Create E,
      rr_FindByHash = refreshTokenRepository_FindByHash E,
      rr_Revoke = refreshTokenRepository_Revoke E,
      rr_RevokeAllForUser = refreshTokenRepository_RevokeAllForUser E\<rparr>"

lemma NewRefreshTokenRepository_sel [simp]:
  "rr_Create (NewRefreshTokenRepository E) = refreshTokenRepository_Create E"
  "rr_FindByHash (NewRefreshTokenRepository E) = refreshTokenRepository_FindByHash E"
  "rr_Revoke (NewRefreshTokenRepository E) = refreshTokenRepository_Revoke E"
  "rr_RevokeAllForUser (NewRefreshTokenRepository E) = refreshTokenRepository_RevokeAllForUser E"
  by (simp_all add: NewRefreshTokenRepository_def)

subsection \<open>How the token table evolves\<close>

text \<open>
  The rows of \<open>toks'\<close> are the rows of \<open>toks\<close>, in the same order, where some that satisfy \<open>p\<close> may
  have been given a revocation time.  Everything else of a row is fixed; a row that was revoked
  stays exactly as it is.
\<close>

definition revoked_from :: "(RefreshToken \<Rightarrow> bool) \<Rightarrow> RefreshToken list \<Rightarrow> RefreshToken list \<Rightarrow> bool" where
  "revoked_from p toks toks' \<longleftrightarrow>
     list_all2 (\<lambda>t t'. t' = t \<or> (p t \<and> rt_RevokedAt t = None \<and> (\<exists>c. t' = t\<lparr>rt_RevokedAt := Some c\<rparr>)))
       toks toks'"

lemma revoked_from_refl [simp]: "revoked_from p toks toks"
  by (simp add: revoked_from_def list_all2_same)

lemma revoked_from_update_where:
  "revoked_from p toks
     (update_where (\<lambda>t. p t \<and> rt_RevokedAt t = None) (\<lambda>t. t\<lparr>rt_RevokedAt := Some c\<rparr>) toks)"
  by (induction toks) (auto simp: revoked_from_def)

lemma revoked_from_keys:
  assumes "revoked_from p toks toks'"
  shows "map rt_ID toks' = map rt_ID toks" and "map rt_TokenHash toks' = map rt_TokenHash toks"
    and "map rt_UserID toks' = map rt_UserID toks" and "map rt_ExpiresAt toks' = map rt_ExpiresAt toks"
  using assms unfolding revoked_from_def
  by (induction rule: list_all2_induct; auto)+

lemma revoked_from_back:
  assumes "revoked_from p toks toks'" and "t' \<in> set toks'"
  shows "\<exists>t \<in> set toks. t' = t \<or> (p t \<and> rt_RevokedAt t = None \<and> (\<exists>c. t' = t\<lparr>rt_RevokedAt := Some c\<rparr>))"
  using assms unfolding revoked_from_def by (induction rule: list_all2_induct) auto

lemma revoked_from_fwd:
  assumes "revoked_from p toks toks'" and "t \<in> set toks"
  shows "\<exists>t' \<in> set toks'. t' = t \<or> (p t \<and> rt_RevokedAt t = None \<and> (\<exists>c. t' = t\<lparr>rt_RevokedAt := Some c\<rparr>))"
  using assms unfolding revoked_from_def by (induction rule: list_all2_induct) auto

lemma revoked_from_mono:
  "revoked_from p toks toks' \<Longrightarrow> (\<And>t. p t \<Longrightarrow> q t) \<Longrightarrow> revoked_from q toks toks'"
  unfolding revoked_from_def by (erule list_all2_mono) auto

lemma db_inv_revoked_from:
  assumes "db_inv w" and "revoked_from p (refresh_tokens w) toks"
  shows "db_inv (w\<lparr>refresh_tokens := toks\<rparr>)"
proof -
  have "rt_UserID ` set toks = rt_UserID ` set (refresh_tokens w)"
    using revoked_from_keys(3) [OF assms(2)] by (metis list.set_map)
  then show ?thesis
    using assms(1) revoked_from_keys(1,2) [OF assms(2)]
    by (simp add: db_inv_def) (metis image_iff)
qed

subsection \<open>The contract of the interface\<close>

locale refresh_token_repository =
  fixes R :: RefreshTokenRepository
  assumes create_ok:
    "rr_Create R t w = (Inr t', w') \<Longrightarrow>
       rt_TokenHash t \<notin> rt_TokenHash ` set (refresh_tokens w) \<and>
       (\<exists>row. refresh_tokens w' = refresh_tokens w @ [row] \<and> rt_UserID row = rt_UserID t \<and>
              rt_TokenHash row = rt_TokenHash t \<and> rt_RevokedAt row = None)"
    and create_grows:
    "rr_Create R t w = (r, w') \<Longrightarrow>
       refresh_tokens w' = refresh_tokens w \<or>
       (\<exists>row. refresh_tokens w' = refresh_tokens w @ [row] \<and> rt_UserID row = rt_UserID t \<and>
              rt_TokenHash row = rt_TokenHash t \<and> rt_RevokedAt row = None)"
    and create_frame: "rr_Create R t w = (r, w') \<Longrightarrow> users w' = users w \<and> tasks w' = tasks w"
    and create_inv: "rr_Create R t w = (r, w') \<Longrightarrow> db_inv w \<Longrightarrow> db_inv w'"
    and find_rows: "rr_FindByHash R h w = (r, w') \<Longrightarrow> same_rows w w'"
    and find_inv: "rr_FindByHash R h w = (r, w') \<Longrightarrow> db_inv w \<Longrightarrow> db_inv w'"
    and find_ok:
    "rr_FindByHash R h w = (Inr t, w') \<Longrightarrow> t \<in> set (refresh_tokens w) \<and> rt_TokenHash t = h"
    and find_none:
    "rr_FindByHash R h w = (Inl ErrNotFound, w') \<Longrightarrow> h \<notin> rt_TokenHash ` set (refresh_tokens w)"
    and revoke_from:
    "rr_Revoke R i w = (ru, w') \<Longrightarrow>
       revoked_from (\<lambda>t. rt_ID t = i) (refresh_tokens w) (refresh_tokens w') \<and>
       users w' = users w \<and> tasks w' = tasks w"
    and revoke_ok:
    "rr_Revoke R i w = (Inr (), w') \<Longrightarrow> \<forall>t \<in> set (refresh_tokens w'). rt_ID t = i \<longrightarrow> RefreshToken_Revoked t"
    and revoke_inv: "rr_Revoke R i w = (ru, w') \<Longrightarrow> db_inv w \<Longrightarrow> db_inv w'"
    and revoke_all_from:
    "rr_RevokeAllForUser R uid w = (ru, w') \<Longrightarrow>
       revoked_from (\<lambda>t. rt_UserID t = uid) (refresh_tokens w) (refresh_tokens w') \<and>
       users w' = users w \<and> tasks w' = tasks w"
    and revoke_all_ok:
    "rr_RevokeAllForUser R uid w = (Inr (), w') \<Longrightarrow>
       \<forall>t \<in> set (refresh_tokens w'). rt_UserID t = uid \<longrightarrow> RefreshToken_Revoked t"
    and revoke_all_inv: "rr_RevokeAllForUser R uid w = (ru, w') \<Longrightarrow> db_inv w \<Longrightarrow> db_inv w'"

subsection \<open>The Postgres implementation keeps the contract\<close>

lemma sql_insert_refresh_token_rows:
  "sql_insert_refresh_token E uid h x n w = (r, w') \<Longrightarrow>
     users w' = users w \<and> tasks w' = tasks w \<and>
     (refresh_tokens w' = refresh_tokens w \<or>
      (\<exists>row. refresh_tokens w' = refresh_tokens w @ [row] \<and> rt_UserID row = uid \<and>
             rt_TokenHash row = h \<and> rt_RevokedAt row = None))"
  by (auto simp: sql_defs Let_def split: option.splits if_splits)

lemma sql_insert_refresh_token_inv:
  assumes "sql_insert_refresh_token E uid h x n w = (r, w')" and "db_inv w"
  shows "db_inv w'"
proof (cases "nextval (refresh_tokens_id_seq w)")
  case None
  then show ?thesis
    using assms by (auto simp: sql_defs)
next
  case (Some i)
  show ?thesis
    using assms Some db_inv_next(3) [OF assms(2) Some]
    by (auto simp: sql_defs db_inv_def Let_def split: if_splits)
qed

lemma sql_insert_refresh_token_Inr:
  "sql_insert_refresh_token E uid h x n w = (Inr (i, c), w') \<Longrightarrow>
     uid \<in> u_ID ` set (users w) \<and> h \<notin> rt_TokenHash ` set (refresh_tokens w) \<and>
     i \<notin> rt_ID ` set (refresh_tokens w) \<and>
     refresh_tokens w' = refresh_tokens w @
       [\<lparr>rt_ID = i, rt_UserID = uid, rt_TokenHash = h, rt_ExpiresAt = env_timestamptz E x,
         rt_RevokedAt = None, rt_CreatedAt = c\<rparr>]"
  by (auto simp: sql_defs Let_def split: option.splits if_splits)

lemma insert_refresh_token_call:
  assumes "db_call E (sql_insert_refresh_token E uid h x) w = (r, w')"
  shows "users w' = users w \<and> tasks w' = tasks w \<and> (db_inv w \<longrightarrow> db_inv w') \<and>
     (refresh_tokens w' = refresh_tokens w \<or>
      (\<exists>row. refresh_tokens w' = refresh_tokens w @ [row] \<and> rt_UserID row = uid \<and>
             rt_TokenHash row = h \<and> rt_RevokedAt row = None))"
  using assms
proof (rule db_call_cases)
  fix r1
  assume stmt: "sql_insert_refresh_token E uid h x (tick w) (w\<lparr>tick := Suc (tick w)\<rparr>) = (r1, w')"
  show ?thesis
    using sql_insert_refresh_token_rows [OF stmt] sql_insert_refresh_token_inv [OF stmt] by simp
qed simp

lemma select_refresh_token_call:
  assumes "db_call E (sql_select_refresh_token h) w = (r, w')"
  shows "same_rows w w' \<and> (db_inv w \<longrightarrow> db_inv w') \<and>
         (\<forall>t. r = Inr t \<longrightarrow> t \<in> set (refresh_tokens w) \<and> rt_TokenHash t = h) \<and>
         (\<forall>e. r = Inl e \<longrightarrow> (\<exists>msg. e = ErrDriver msg) \<or>
                 e = ErrNoRows \<and> (\<forall>t \<in> set (refresh_tokens w). rt_TokenHash t \<noteq> h))"
proof -
  have "w' = w\<lparr>tick := Suc (tick w)\<rparr>"
    using assms by (rule db_call_cases) (auto simp: sql_defs split: option.splits)
  then show ?thesis
    using assms
    by (auto simp: sql_defs find_None_iff split: option.splits
        dest!: db_call_InrD db_call_InlD dest: find_SomeD)
qed

lemma revoke_where_call:
  assumes "db_call E (sql_revoke_where E p) w = (r, w')"
  shows "revoked_from p (refresh_tokens w) (refresh_tokens w') \<and>
         users w' = users w \<and> tasks w' = tasks w \<and> (db_inv w \<longrightarrow> db_inv w')"
  using assms
proof (rule db_call_cases)
  fix r1
  assume "sql_revoke_where E p (tick w) (w\<lparr>tick := Suc (tick w)\<rparr>) = (r1, w')"
  then have w': "w' = w\<lparr>tick := Suc (tick w), refresh_tokens :=
      update_where (\<lambda>t. p t \<and> rt_RevokedAt t = None)
        (\<lambda>t. t\<lparr>rt_RevokedAt := Some (env_dbnow E (tick w))\<rparr>) (refresh_tokens w)\<rparr>"
    by (simp add: sql_defs Let_def)
  show ?thesis
    using revoked_from_update_where [of p "refresh_tokens w"]
      db_inv_revoked_from [of "w\<lparr>tick := Suc (tick w)\<rparr>" p]
    by (simp add: w')
qed simp

lemma revoke_where_call_Inr:
  assumes "db_call E (sql_revoke_where E p) w = (Inr k, w')"
  shows "k = affected (\<lambda>t. p t \<and> rt_RevokedAt t = None) (refresh_tokens w) \<and>
         refresh_tokens w' = update_where (\<lambda>t. p t \<and> rt_RevokedAt t = None)
           (\<lambda>t. t\<lparr>rt_RevokedAt := Some (env_dbnow E (tick w))\<rparr>) (refresh_tokens w)"
  using db_call_InrD [OF assms] by (auto simp: sql_defs Let_def)

lemma revoke_where_call_revoked:
  assumes "db_call E (sql_revoke_where E p) w = (Inr k, w')"
    and "\<And>t c. p (t\<lparr>rt_RevokedAt := c\<rparr>) = p t"
  shows "\<forall>t \<in> set (refresh_tokens w'). p t \<longrightarrow> RefreshToken_Revoked t"
  using revoke_where_call_Inr [OF assms(1)] assms(2)
  by (auto simp: set_update_where RefreshToken_Revoked_def)

interpretation pg_tokens: refresh_token_repository "NewRefreshTokenRepository E" for E
proof (unfold_locales, goal_cases)
  case (1 t w t' w')
  then obtain i c where
    ic: "db_call E (sql_insert_refresh_token E (rt_UserID t) (rt_TokenHash t) (rt_ExpiresAt t)) w
         = (Inr (i, c), w')"
    by (auto simp: repo_defs split: prod.splits sum.splits)
  show ?case
    using sql_insert_refresh_token_Inr [OF db_call_InrD [OF ic]] by auto
next
  case (10 i w w')
  then obtain k where "db_call E (sql_revoke_where E (\<lambda>t. rt_ID t = i)) w = (Inr k, w')"
    by (auto simp: repo_defs split: prod.splits sum.splits if_splits)
  from revoke_where_call_revoked [OF this] show ?case
    by simp
next
  case (13 uid w w')
  then obtain k where "db_call E (sql_revoke_where E (\<lambda>t. rt_UserID t = uid)) w = (Inr k, w')"
    by (auto simp: repo_defs split: prod.splits sum.splits if_splits)
  from revoke_where_call_revoked [OF this] show ?case
    by simp
qed (auto simp: repo_defs split: prod.splits sum.splits if_splits
  dest!: insert_refresh_token_call select_refresh_token_call revoke_where_call)

end
