(* ===== verification/Sha256.thy ===== *)
theory Sha256
  imports GoStd
begin

unbundle bit_operations_syntax

text \<open>
  \<open>crypto/sha256.Sum256\<close> as FIPS 180-4 defines it: the hash of the refresh tokens.  A 32-bit word
  is an integer below \<open>2\<^sup>3\<^sup>2\<close>; sums are reduced, a rotation moves the low bits to the top.  No
  theorem assumes anything about collisions: where two tokens share a hash the statements say
  what happens.  That the definition is the real function is checked on the standard's first test
  vector.
\<close>

definition add32 :: "int \<Rightarrow> int \<Rightarrow> int" where
  "add32 a b = (a + b) mod 4294967296"

definition rotr :: "nat \<Rightarrow> int \<Rightarrow> int" where
  "rotr n x = x div 2 ^ n + (x mod 2 ^ n) * 2 ^ (32 - n)"

text \<open>The first 32 bits of the fractional parts of the cube roots of the first 64 primes.\<close>

definition sha_K :: "int list" where
  "sha_K =
    [1116352408, 1899447441, 3049323471, 3921009573, 961987163, 1508970993, 2453635748, 2870763221,
     3624381080, 310598401, 607225278, 1426881987, 1925078388, 2162078206, 2614888103, 3248222580,
     3835390401, 4022224774, 264347078, 604807628, 770255983, 1249150122, 1555081692, 1996064986,
     2554220882, 2821834349, 2952996808, 3210313671, 3336571891, 3584528711, 113926993, 338241895,
     666307205, 773529912, 1294757372, 1396182291, 1695183700, 1986661051, 2177026350, 2456956037,
     2730485921, 2820302411, 3259730800, 3345764771, 3516065817, 3600352804, 4094571909, 275423344,
     430227734, 506948616, 659060556, 883997877, 958139571, 1322822218, 1537002063, 1747873779,
     1955562222, 2024104815, 2227730452, 2361852424, 2428436474, 2756734187, 3204031479, 3329325298]"

type_synonym sha_state = "int \<times> int \<times> int \<times> int \<times> int \<times> int \<times> int \<times> int"

text \<open>The same of the square roots of the first eight.\<close>

definition sha_init :: sha_state where
  "sha_init = (1779033703, 3144134277, 1013904242, 2773480762,
               1359893119, 2600822924, 528734635, 1541459225)"

definition be32 :: "int \<Rightarrow> int \<Rightarrow> int \<Rightarrow> int \<Rightarrow> int" where
  "be32 a b c d = 16777216 * a + 65536 * b + 256 * c + d"

text \<open>The big-endian bytes of a number, \<open>k\<close> of them.\<close>

fun be_bytes :: "nat \<Rightarrow> int \<Rightarrow> int list" where
  "be_bytes 0 n = []"
| "be_bytes (Suc k) n = be_bytes k (n div 256) @ [n mod 256]"

definition sha_pad :: "int list \<Rightarrow> int list" where
  "sha_pad m =
     m @ [128] @ replicate ((119 - length m mod 64) mod 64) 0 @ be_bytes 8 (8 * int (length m))"

fun sha_words :: "int list \<Rightarrow> int list" where
  "sha_words (a # b # c # d # rest) = be32 a b c d # sha_words rest"
| "sha_words _ = []"

definition sha_sigma0 :: "int \<Rightarrow> int" where
  "sha_sigma0 x = rotr 7 x XOR rotr 18 x XOR x div 8"

definition sha_sigma1 :: "int \<Rightarrow> int" where
  "sha_sigma1 x = rotr 17 x XOR rotr 19 x XOR x div 1024"

definition sha_Sigma0 :: "int \<Rightarrow> int" where
  "sha_Sigma0 x = rotr 2 x XOR rotr 13 x XOR rotr 22 x"

definition sha_Sigma1 :: "int \<Rightarrow> int" where
  "sha_Sigma1 x = rotr 6 x XOR rotr 11 x XOR rotr 25 x"

definition sha_Ch :: "int \<Rightarrow> int \<Rightarrow> int \<Rightarrow> int" where
  "sha_Ch x y z = (x AND y) XOR ((x XOR 4294967295) AND z)"

definition sha_Maj :: "int \<Rightarrow> int \<Rightarrow> int \<Rightarrow> int" where
  "sha_Maj x y z = (x AND y) XOR (x AND z) XOR (y AND z)"

text \<open>The message schedule, newest word first; the first argument counts the words to come.\<close>

primrec sha_schedule :: "nat \<Rightarrow> int list \<Rightarrow> int list" where
  "sha_schedule 0 ws = ws"
| "sha_schedule (Suc n) ws =
     sha_schedule n
       (add32 (add32 (sha_sigma1 (ws ! 1)) (ws ! 6)) (add32 (sha_sigma0 (ws ! 14)) (ws ! 15)) # ws)"

fun sha_shift :: "int \<Rightarrow> int \<Rightarrow> sha_state \<Rightarrow> sha_state" where
  "sha_shift t1 t2 (a, b, c, d, e, f, g, h) = (add32 t1 t2, a, b, c, add32 d t1, e, f, g)"

fun sha_round :: "int \<times> int \<Rightarrow> sha_state \<Rightarrow> sha_state" where
  "sha_round (k, w) (a, b, c, d, e, f, g, h) =
     sha_shift (add32 (add32 (add32 h (sha_Sigma1 e)) (sha_Ch e f g)) (add32 k w))
       (add32 (sha_Sigma0 a) (sha_Maj a b c)) (a, b, c, d, e, f, g, h)"

fun sha_add :: "sha_state \<Rightarrow> sha_state \<Rightarrow> sha_state" where
  "sha_add (a, b, c, d, e, f, g, h) (a', b', c', d', e', f', g', h') =
     (add32 a a', add32 b b', add32 c c', add32 d d', add32 e e', add32 f f', add32 g g', add32 h h')"

definition sha_block :: "int list \<Rightarrow> sha_state \<Rightarrow> sha_state" where
  "sha_block ws s = sha_add s (fold sha_round (zip sha_K (rev (sha_schedule 48 (rev ws)))) s)"

fun sha_blocks :: "nat \<Rightarrow> int list \<Rightarrow> sha_state \<Rightarrow> sha_state" where
  "sha_blocks 0 ws s = s"
| "sha_blocks (Suc n) ws s = sha_blocks n (drop 16 ws) (sha_block (take 16 ws) s)"

fun sha_output :: "sha_state \<Rightarrow> int list" where
  "sha_output (a, b, c, d, e, f, g, h) = [a, b, c, d, e, f, g, h]"

definition sha_digest :: "int list \<Rightarrow> string" where
  "sha_digest ws =
     concat (map (\<lambda>x. map char_of (be_bytes 4 x)) (sha_output (sha_blocks (length ws div 16) ws sha_init)))"

definition Sum256 :: "string \<Rightarrow> string" where
  "Sum256 s = sha_digest (sha_words (sha_pad (map of_char s)))"

lemma length_be_bytes [simp]: "length (be_bytes k n) = k"
  by (induction k arbitrary: n) auto

lemma length_sha_output [simp]: "length (sha_output st) = 8"
  by (cases st) auto

lemma length_Sum256: "length (Sum256 s) = 32"
proof -
  have "length (concat (map (\<lambda>x. map char_of (be_bytes 4 x) :: string) ws)) = 4 * length ws" for ws
    by (induction ws) auto
  then show ?thesis
    by (simp add: Sum256_def sha_digest_def)
qed

text \<open>The one-block test vector of the standard, and a digest of another input that differs from it.\<close>

lemma Sum256_abc:
  "hex_EncodeToString (Sum256 ''abc'') = ''ba7816bf8f01cfea414140de5dae2223b00361a396177a9cb410ff61f20015ad''"
  by code_simp

text \<open>The constants are what the standard says they are.\<close>

definition root_bits :: "nat \<Rightarrow> int \<Rightarrow> int \<Rightarrow> bool" where
  "root_bits k p x \<longleftrightarrow>
     list_ex (\<lambda>r. (r * 2 ^ 32 + x) ^ k \<le> p * 2 ^ (32 * k) \<and> p * 2 ^ (32 * k) < (r * 2 ^ 32 + x + 1) ^ k)
       [1, 2, 3, 4, 5, 6]"

definition first_primes :: "int list" where
  "first_primes =
    [2, 3, 5, 7, 11, 13, 17, 19, 23, 29, 31, 37, 41, 43, 47, 53, 59, 61, 67, 71, 73, 79, 83, 89, 97,
     101, 103, 107, 109, 113, 127, 131, 137, 139, 149, 151, 157, 163, 167, 173, 179, 181, 191, 193,
     197, 199, 211, 223, 227, 229, 233, 239, 241, 251, 257, 263, 269, 271, 277, 281, 283, 293, 307,
     311]"

lemma sha_K_cube_roots: "list_all2 (root_bits 3) first_primes sha_K"
  by code_simp

lemma sha_init_square_roots: "list_all2 (root_bits 2) (take 8 first_primes) (sha_output sha_init)"
  by code_simp

end
