(* ===== verification/TokenManager.thy ===== *)
theory TokenManager
  imports Example Sha256
begin

text \<open>
  \<open>internal/service/token.go\<close> and \<open>internal/service/refresh_token.go\<close>: the access tokens (JWTs
  signed with HMAC-SHA256, whose subject is the user's id) and the opaque refresh tokens with
  their hashes.  The JWT library is a parameter (\<open>env_SignedString\<close>, \<open>env_ParseWithClaims\<close>); the
  key function passed to it and the reading of the subject are the program's own.
\<close>

record TokenManager =
  tm_secret :: string
  tm_expiresIn :: duration

definition NewTokenManager :: "string \<Rightarrow> duration \<Rightarrow> TokenManager" where
  "NewTokenManager secret expiresIn = \<lparr>tm_secret = secret, tm_expiresIn = expiresIn\<rparr>"

text \<open>The two calls of \<open>time.Now()\<close> in \<open>Generate\<close> are two readings of the clock.\<close>

definition TokenManager_Generate :: "env \<Rightarrow> TokenManager \<Rightarrow> int64 \<Rightarrow> string op" where
  [svc_defs]: "TokenManager_Generate E m userID w =
     (case time_Now E w of
        (now1, w1) \<Rightarrow>
          (case time_Now E w1 of
             (now2, w2) \<Rightarrow>
               (env_SignedString E SigningMethodHS256
                  \<lparr>cl_Subject = FormatInt userID,
                   cl_IssuedAt = Some (env_NewNumericDate E now1),
                   cl_ExpiresAt = Some (env_NewNumericDate E (now2 + tm_expiresIn m))\<rparr>
                  (tm_secret m), w2)))"

text \<open>The key function of \<open>Validate\<close>: the secret for an HMAC method, an error for any other.\<close>

definition Validate_keyfunc :: "TokenManager \<Rightarrow> SigningMethod \<Rightarrow> error + string" where
  "Validate_keyfunc m method =
     (case method of
        SigningMethodHMAC alg \<Rightarrow> Inr (tm_secret m)
      | SigningMethodOther alg \<Rightarrow> Inl (ErrText (''unexpected signing method: '' @ alg)))"

definition TokenManager_Validate :: "env \<Rightarrow> TokenManager \<Rightarrow> string \<Rightarrow> int64 op" where
  [svc_defs]: "TokenManager_Validate E m tokenString w =
     (case time_Now E w of
        (now, w1) \<Rightarrow>
          (case env_ParseWithClaims E now tokenString (Validate_keyfunc m) of
             Inl err \<Rightarrow> (Inl (Wrap ''parse token: '' err ''''), w1)
           | Inr (claims, valid) \<Rightarrow>
               if \<not> valid then (Inl (ErrText ''invalid token''), w1)
               else (case ParseInt (cl_Subject claims) of
                       (userID, Some reason) \<Rightarrow>
                         (Inl (Wrap ''invalid token subject: ''
                                 (NumError ''ParseInt'' (cl_Subject claims) reason) ''''), w1)
                     | (userID, None) \<Rightarrow> (Inr userID, w1))))"

definition hashRefreshToken :: "string \<Rightarrow> string" where
  "hashRefreshToken plaintext = hex_EncodeToString (Sum256 plaintext)"

definition generateRefreshToken :: "env \<Rightarrow> (string \<times> string) op" where
  [svc_defs]: "generateRefreshToken E w =
     (let w1 = w\<lparr>tick := Suc (tick w)\<rparr>
      in case env_rand E (tick w) 32 of
           Inl err \<Rightarrow> (Inl (Wrap ''generate refresh token: '' err ''''), w1)
         | Inr buf \<Rightarrow> (let plaintext = RawURLEncoding buf
                       in (Inr (plaintext, hashRefreshToken plaintext), w1)))"

subsection \<open>What the JWT library promises\<close>

text \<open>
  \<open>jwt_roundtrip\<close>: a token signed with an HMAC method, whose times are values of
  \<open>NewNumericDate\<close> (a token carries whole seconds), parses under the same key until it expires,
  and gives its claims back.  \<open>jwt_sound\<close>: a token parses only when the key function
  accepts the method of its header (\<open>alg_of\<close>) and its signature verifies under the key returned
  (\<open>verifies\<close>), it is then marked valid, and it has not expired.
\<close>

definition jwt_roundtrip :: "env \<Rightarrow> bool" where
  "jwt_roundtrip E \<longleftrightarrow>
     (\<forall>alg claims key s kf now x.
        env_SignedString E (SigningMethodHMAC alg) claims key = Inr s \<longrightarrow>
        kf (SigningMethodHMAC alg) = Inr key \<longrightarrow>
        set_option (cl_IssuedAt claims) \<union> set_option (cl_ExpiresAt claims) \<subseteq> range (env_NewNumericDate E) \<longrightarrow>
        cl_ExpiresAt claims = Some x \<longrightarrow> now < x \<longrightarrow>
        env_ParseWithClaims E now s kf = Inr (claims, True))"

definition jwt_sound ::
  "env \<Rightarrow> (string \<Rightarrow> SigningMethod) \<Rightarrow> (SigningMethod \<Rightarrow> string \<Rightarrow> string \<Rightarrow> bool) \<Rightarrow> bool" where
  "jwt_sound E alg_of verifies \<longleftrightarrow>
     (\<forall>now s kf claims v.
        env_ParseWithClaims E now s kf = Inr (claims, v) \<longrightarrow>
        v \<and> (\<exists>key. kf (alg_of s) = Inr key \<and> verifies (alg_of s) key s) \<and>
        (\<forall>x. cl_ExpiresAt claims = Some x \<longrightarrow> now < x))"

subsection \<open>Lemmas\<close>

lemma Generate_rows:
  "TokenManager_Generate E m uid w = (r, w') \<Longrightarrow> w' = w\<lparr>tick := tick w + 2\<rparr>"
  by (auto simp: svc_defs time_Now_def)

lemma Validate_rows:
  "TokenManager_Validate E m s w = (r, w') \<Longrightarrow> w' = w\<lparr>tick := Suc (tick w)\<rparr>"
  by (auto simp: svc_defs time_Now_def split: sum.splits prod.splits if_splits option.splits)

lemma generateRefreshToken_rows:
  "generateRefreshToken E w = (r, w') \<Longrightarrow> w' = w\<lparr>tick := Suc (tick w)\<rparr>"
  by (auto simp: svc_defs Let_def split: sum.splits)

lemma generateRefreshToken_ok:
  "generateRefreshToken E w = (Inr (p, h), w') \<Longrightarrow> h = hashRefreshToken p"
  by (auto simp: generateRefreshToken_def Let_def split: sum.splits)

lemma Validate_keyfunc_Inr:
  "Validate_keyfunc m method = Inr key \<longleftrightarrow> (\<exists>alg. method = SigningMethodHMAC alg) \<and> key = tm_secret m"
  by (auto simp: Validate_keyfunc_def split: SigningMethod.splits)

text \<open>The digest is stored as 64 characters, whatever the token.\<close>

lemma length_hashRefreshToken: "length (hashRefreshToken p) = 64"
  by (simp add: hashRefreshToken_def length_hex_EncodeToString length_Sum256)

lemma hashRefreshToken_eq: "hashRefreshToken p = hashRefreshToken q \<longleftrightarrow> Sum256 p = Sum256 q"
  unfolding hashRefreshToken_def by (metis hex_EncodeToString_inj)

subsection \<open>The laws hold in the example environment\<close>

lemma dec_time_enc:
  "pred_option int64_ok t \<Longrightarrow> dec (enc_time t @ r) = Some (case t of None \<Rightarrow> ''-'' | Some x \<Rightarrow> FormatInt x, r)"
  using dec_enc [of "''-''" r] by (cases t) (auto simp del: enc.simps)

lemma dec_time_FormatInt:
  "pred_option int64_ok t \<Longrightarrow> dec_time (case t of None \<Rightarrow> ''-'' | Some x \<Rightarrow> FormatInt x) = t"
proof (cases t)
  case None
  have "dec_time ''-'' = None"
    by (simp add: dec_time_def ParseInt_def ParseUint_def)
  then show ?thesis
    using None by simp
qed (simp add: dec_time_def ParseInt_FormatInt)

lemma example_fields_signed:
  assumes "example_SignedString (SigningMethodHMAC alg) claims key = Inr s"
  shows "example_fields s = Some (alg, key, claims)"
  using assms dec_time_enc [of "cl_ExpiresAt claims" "[]"]
  by (auto simp: example_SignedString_def example_fields_def dec_time_enc dec_time_FormatInt
      split: if_splits)

lemma example_jwt_roundtrip [simp]: "jwt_roundtrip example_env"
  by (auto simp: jwt_roundtrip_def example_ParseWithClaims_def example_fields_signed)

definition example_alg :: "string \<Rightarrow> SigningMethod" where
  "example_alg s = SigningMethodHMAC (case example_fields s of None \<Rightarrow> '''' | Some (alg, _) \<Rightarrow> alg)"

definition example_verifies :: "SigningMethod \<Rightarrow> string \<Rightarrow> string \<Rightarrow> bool" where
  "example_verifies method key s = (\<exists>f. example_fields s = Some (sm_alg method, key, f))"

lemma example_jwt_sound [simp]: "jwt_sound example_env example_alg example_verifies"
  by (auto simp: jwt_sound_def example_ParseWithClaims_def example_alg_def example_verifies_def
      split: option.splits sum.splits if_splits)

lemma Validate_parsed:
  assumes "env_ParseWithClaims E (env_now E (tick w)) tok (Validate_keyfunc m) = Inr (claims, True)"
    and "cl_Subject claims = FormatInt uid" and "int64_ok uid"
  shows "TokenManager_Validate E m tok w = (Inr uid, w\<lparr>tick := Suc (tick w)\<rparr>)"
  using assms ParseInt_FormatInt [OF assms(3)] by (simp add: svc_defs time_Now_def)

text \<open>A token of the example environment that is good for an hour.\<close>

definition example_claims :: "int64 \<Rightarrow> RegisteredClaims" where
  "example_claims uid = \<lparr>cl_Subject = FormatInt uid, cl_IssuedAt = Some 0, cl_ExpiresAt = Some 3600000000000\<rparr>"

definition example_access_token :: "string \<Rightarrow> int64 \<Rightarrow> string" where
  "example_access_token secret uid = projr (example_SignedString SigningMethodHS256 (example_claims uid) secret)"

lemma example_access_token_fields:
  "example_fields (example_access_token secret uid) = Some (''HS256'', secret, example_claims uid)"
  by (rule example_fields_signed)
    (simp add: example_access_token_def example_SignedString_def example_claims_def int64_ok_def)

lemma example_Validate:
  assumes "int64_ok uid" and "tick w < 3600"
  shows "TokenManager_Validate example_env m (example_access_token (tm_secret m) uid) w
    = (Inr uid, w\<lparr>tick := Suc (tick w)\<rparr>)"
  by (rule Validate_parsed [where claims = "example_claims uid"])
    (use assms in \<open>simp_all add: example_ParseWithClaims_def example_access_token_fields
       Validate_keyfunc_def, simp_all add: example_claims_def\<close>)

subsection \<open>Properties\<close>

text \<open>C26: an access token that \<open>Generate\<close> issued for a user is accepted by \<open>Validate\<close> until the
  moment it expires, and yields that user's id.\<close>

theorem access_token_roundtrip:
  assumes "jwt_roundtrip E" and "int64_ok uid"
    and "TokenManager_Generate E m uid w = (Inr tok, w1)"
    and "env_now E (tick w2) < env_NewNumericDate E (env_now E (Suc (tick w)) + tm_expiresIn m)"
  shows "TokenManager_Validate E m tok w2 = (Inr uid, w2\<lparr>tick := Suc (tick w2)\<rparr>)"
proof -
  let ?claims = "\<lparr>cl_Subject = FormatInt uid, cl_IssuedAt = Some (env_NewNumericDate E (env_now E (tick w))),
    cl_ExpiresAt = Some (env_NewNumericDate E (env_now E (Suc (tick w)) + tm_expiresIn m))\<rparr>"
  have "env_SignedString E SigningMethodHS256 ?claims (tm_secret m) = Inr tok"
    using assms(3) by (simp add: svc_defs time_Now_def)
  moreover have "set_option (cl_IssuedAt ?claims) \<union> set_option (cl_ExpiresAt ?claims) \<subseteq> range (env_NewNumericDate E)"
    by simp
  moreover have "Validate_keyfunc m (SigningMethodHMAC ''HS256'') = Inr (tm_secret m)"
    by (simp add: Validate_keyfunc_Inr)
  ultimately have "env_ParseWithClaims E (env_now E (tick w2)) tok (Validate_keyfunc m) = Inr (?claims, True)"
    using assms(1,4) unfolding jwt_roundtrip_def by (metis RegisteredClaims.select_convs(3))
  then show ?thesis
    by (rule Validate_parsed) (simp_all add: assms(2))
qed

theorem access_token_roundtrip_witness:
  "let m = NewTokenManager ''0123456789abcdef'' 3600000000000;
       tok = projr (fst (TokenManager_Generate example_env m 7 empty_world))
   in TokenManager_Validate example_env m tok (empty_world\<lparr>tick := 9\<rparr>) = (Inr 7, empty_world\<lparr>tick := 10\<rparr>)"
  using access_token_roundtrip [OF example_jwt_roundtrip, of 7
      "NewTokenManager ''0123456789abcdef'' 3600000000000" empty_world
      "projr (fst (TokenManager_Generate example_env (NewTokenManager ''0123456789abcdef'' 3600000000000) 7 empty_world))"
      "empty_world\<lparr>tick := 2\<rparr>" "empty_world\<lparr>tick := 9\<rparr>"]
  by (simp add: svc_defs time_Now_def int64_ok_def NewTokenManager_def empty_world_def
      example_SignedString_def)

text \<open>C27: a token that \<open>Validate\<close> accepts was signed with an HMAC method under the manager's own
  secret, had not expired at the moment of the call, and its subject is the decimal numeral of the
  \<open>int64\<close> that is returned; a token under \<open>none\<close> or a public-key method is never accepted.\<close>

theorem Validate_sound:
  assumes "jwt_sound E alg_of verifies" and "TokenManager_Validate E m tok w = (Inr uid, w')"
  shows "\<exists>alg claims. alg_of tok = SigningMethodHMAC alg \<and> verifies (SigningMethodHMAC alg) (tm_secret m) tok \<and>
    env_ParseWithClaims E (env_now E (tick w)) tok (Validate_keyfunc m) = Inr (claims, True) \<and>
    ParseInt (cl_Subject claims) = (uid, None) \<and> int64_ok uid \<and>
    (\<forall>x \<in> set_option (cl_ExpiresAt claims). env_now E (tick w) < x)"
proof -
  obtain claims where parse:
      "env_ParseWithClaims E (env_now E (tick w)) tok (Validate_keyfunc m) = Inr (claims, True)"
    and sub: "ParseInt (cl_Subject claims) = (uid, None)"
    using assms(2)
    by (auto simp: svc_defs time_Now_def split: sum.splits prod.splits if_splits option.splits)
  obtain key where "Validate_keyfunc m (alg_of tok) = Inr key" and "verifies (alg_of tok) key tok"
    and "\<forall>x. cl_ExpiresAt claims = Some x \<longrightarrow> env_now E (tick w) < x"
    using assms(1) parse unfolding jwt_sound_def by blast
  then show ?thesis
    using parse sub ParseInt_range [OF sub] by (auto simp: Validate_keyfunc_Inr)
qed

theorem Validate_sound_witness:
  "example_verifies SigningMethodHS256 ''0123456789abcdef'' (example_access_token ''0123456789abcdef'' 7) \<and>
   int64_ok 7"
proof -
  let ?m = "NewTokenManager ''0123456789abcdef'' 60"
  have m: "tm_secret ?m = ''0123456789abcdef''"
    by (simp add: NewTokenManager_def)
  have "TokenManager_Validate example_env ?m (example_access_token (tm_secret ?m) 7)
      empty_world = (Inr 7, empty_world\<lparr>tick := Suc (tick empty_world)\<rparr>)"
    by (rule example_Validate) (simp_all add: int64_ok_def empty_world_def)
  from Validate_sound [OF example_jwt_sound this] show ?thesis
    unfolding m by (auto simp: example_access_token_fields example_verifies_def example_alg_def)
qed

text \<open>A refresh token is 43 characters of URL-safe base64 made from 32 random bytes; what is
  stored of it is 64 lower-case hexadecimal digits, and two reads of the random source give the same
  token only if they gave the same bytes.\<close>

theorem generateRefreshToken_shape:
  assumes "rand_ok E"
  shows "\<exists>p. generateRefreshToken E w = (Inr (p, hashRefreshToken p), w\<lparr>tick := Suc (tick w)\<rparr>) \<and>
    length p = 43 \<and> set p \<subseteq> set base64url \<and>
    length (hashRefreshToken p) = 64 \<and> set (hashRefreshToken p) \<subseteq> set hex_digits \<and>
    (\<forall>w2. fst (generateRefreshToken E w2) = Inr (p, hashRefreshToken p) \<longrightarrow>
       env_rand E (tick w2) 32 = env_rand E (tick w) 32)"
proof -
  obtain buf where buf: "env_rand E (tick w) 32 = Inr buf" "length buf = 32"
    using assms unfolding rand_ok_def by blast
  have same: "env_rand E (tick w2) 32 = Inr buf"
    if eq: "fst (generateRefreshToken E w2) = Inr (RawURLEncoding buf, h)" for w2 h
  proof -
    obtain buf2 where buf2: "env_rand E (tick w2) 32 = Inr buf2" "length buf2 = 32"
      using assms unfolding rand_ok_def by blast
    then have "RawURLEncoding buf2 = RawURLEncoding buf"
      using eq by (simp add: generateRefreshToken_def Let_def)
    then show ?thesis
      using RawURLEncoding_inj [of buf2 buf] buf buf2 by simp
  qed
  let ?p = "RawURLEncoding buf"
  have "generateRefreshToken E w = (Inr (?p, hashRefreshToken ?p), w\<lparr>tick := Suc (tick w)\<rparr>)"
    using buf(1) by (simp add: generateRefreshToken_def Let_def)
  moreover have "length ?p = 43"
    using length_RawURLEncoding [of buf] buf(2) by simp
  moreover have "set (hashRefreshToken ?p) \<subseteq> set hex_digits"
    unfolding hashRefreshToken_def by (rule set_hex_EncodeToString)
  ultimately show ?thesis
    using set_RawURLEncoding [of buf] length_hashRefreshToken [of ?p] same buf(1) by metis
qed

theorem generateRefreshToken_shape_witness:
  "\<exists>p. generateRefreshToken example_env empty_world = (Inr (p, hashRefreshToken p), empty_world\<lparr>tick := 1\<rparr>) \<and>
    length p = 43"
proof -
  have "empty_world\<lparr>tick := Suc (tick empty_world)\<rparr> = empty_world\<lparr>tick := 1\<rparr>"
    by (simp add: empty_world_def)
  then show ?thesis
    using generateRefreshToken_shape [OF example_rand_ok, of empty_world] by metis
qed

end
