(* ===== verification/AuthService.thy ===== *)
theory AuthService
  imports UserRepository RefreshTokenRepository TokenManager
begin

text \<open>
  \<open>internal/service/auth_service.go\<close>: sign-up, login, refresh with rotation and reuse detection,
  logout.  The service holds the repositories as interfaces, so its operations are defined over
  any \<open>UserRepository\<close> and \<open>RefreshTokenRepository\<close>; the locale \<open>auth_service\<close> proves them correct
  for every pair that keeps its contract, and its interpretation on the Postgres repositories
  gives the facts the properties use.
\<close>

record AuthService =
  as_users :: UserRepository
  as_refreshTokens :: RefreshTokenRepository
  as_tokens :: TokenManager
  as_refreshTTL :: duration

definition NewAuthService ::
  "UserRepository \<Rightarrow> RefreshTokenRepository \<Rightarrow> TokenManager \<Rightarrow> duration \<Rightarrow> AuthService" where
  "NewAuthService us rts tokens refreshTTL =
     \<lparr>as_users = us, as_refreshTokens = rts, as_tokens = tokens, as_refreshTTL = refreshTTL\<rparr>"

text \<open>The row \<open>issueTokenPair\<close> hands to the repository: id and creation time are still zero.\<close>

definition new_refresh_token :: "int64 \<Rightarrow> string \<Rightarrow> time \<Rightarrow> RefreshToken" where
  "new_refresh_token userID hash expiresAt =
     \<lparr>rt_ID = 0, rt_UserID = userID, rt_TokenHash = hash, rt_ExpiresAt = expiresAt,
      rt_RevokedAt = None, rt_CreatedAt = zero_time\<rparr>"

definition issueTokenPair :: "env \<Rightarrow> AuthService \<Rightarrow> int64 \<Rightarrow> (string \<times> string) op" where
  [svc_defs]: "issueTokenPair E s userID w =
     (case TokenManager_Generate E (as_tokens s) userID w of
        (Inl err, w1) \<Rightarrow> (Inl (Wrap ''generate access token: '' err ''''), w1)
      | (Inr accessToken, w1) \<Rightarrow>
          (case generateRefreshToken E w1 of
             (Inl err, w2) \<Rightarrow> (Inl err, w2)
           | (Inr (plaintext, hash), w2) \<Rightarrow>
               (case time_Now E w2 of
                  (now, w3) \<Rightarrow>
                    (case rr_Create (as_refreshTokens s)
                            (new_refresh_token userID hash (now + as_refreshTTL s)) w3 of
                       (Inl err, w4) \<Rightarrow> (Inl (Wrap ''persist refresh token: '' err ''''), w4)
                     | (Inr _, w4) \<Rightarrow> (Inr (accessToken, plaintext), w4)))))"

text \<open>A result is the user with the access token and the refresh token.\<close>

definition AuthService_Signup ::
  "env \<Rightarrow> AuthService \<Rightarrow> string \<Rightarrow> string \<Rightarrow> (User \<times> string \<times> string) op" where
  [svc_defs]: "AuthService_Signup E s email password w =
     (let w1 = w\<lparr>tick := Suc (tick w)\<rparr>
      in case env_GenerateFromPassword E (tick w) password of
           Inl err \<Rightarrow> (Inl (Wrap ''hash password: '' err ''''), w1)
         | Inr hash \<Rightarrow>
             (case ur_Create (as_users s)
                     \<lparr>u_ID = 0, u_Email = email, u_PasswordHash = hash, u_CreatedAt = zero_time\<rparr> w1 of
                (Inl err, w2) \<Rightarrow> (Inl err, w2)
              | (Inr user, w2) \<Rightarrow>
                  (case issueTokenPair E s (u_ID user) w2 of
                     (Inl err, w3) \<Rightarrow> (Inl err, w3)
                   | (Inr (accessToken, refreshToken), w3) \<Rightarrow>
                       (Inr (user, accessToken, refreshToken), w3))))"

definition AuthService_Login ::
  "env \<Rightarrow> AuthService \<Rightarrow> string \<Rightarrow> string \<Rightarrow> (User \<times> string \<times> string) op" where
  [svc_defs]: "AuthService_Login E s email password w =
     (case ur_FindByEmail (as_users s) email w of
        (Inl err, w1) \<Rightarrow>
          if err = ErrNotFound then (Inl ErrInvalidCredentials, w1) else (Inl err, w1)
      | (Inr user, w1) \<Rightarrow>
          (case env_CompareHashAndPassword E (u_PasswordHash user) password of
             Some err \<Rightarrow> (Inl ErrInvalidCredentials, w1)
           | None \<Rightarrow>
               (case issueTokenPair E s (u_ID user) w1 of
                  (Inl err, w2) \<Rightarrow> (Inl err, w2)
                | (Inr (accessToken, refreshToken), w2) \<Rightarrow>
                    (Inr (user, accessToken, refreshToken), w2))))"

definition AuthService_Refresh :: "env \<Rightarrow> AuthService \<Rightarrow> string \<Rightarrow> (string \<times> string) op" where
  [svc_defs]: "AuthService_Refresh E s plaintext w =
     (case rr_FindByHash (as_refreshTokens s) (hashRefreshToken plaintext) w of
        (Inl err, w1) \<Rightarrow> if err = ErrNotFound then (Inl ErrTokenInvalid, w1) else (Inl err, w1)
      | (Inr existing, w1) \<Rightarrow>
          if RefreshToken_Revoked existing then
            (case rr_RevokeAllForUser (as_refreshTokens s) (rt_UserID existing) w1 of
               (Inl revokeErr, w2) \<Rightarrow>
                 (Inl (Wrap ''revoke all refresh tokens after reuse detected: '' revokeErr ''''), w2)
             | (Inr _, w2) \<Rightarrow> (Inl ErrTokenInvalid, w2))
          else
            (case time_Now E w1 of
               (now, w2) \<Rightarrow>
                 if RefreshToken_Expired now existing then (Inl ErrTokenInvalid, w2)
                 else (case rr_Revoke (as_refreshTokens s) (rt_ID existing) w2 of
                         (Inl err, w3) \<Rightarrow> (Inl (Wrap ''revoke used refresh token: '' err ''''), w3)
                       | (Inr _, w3) \<Rightarrow> issueTokenPair E s (rt_UserID existing) w3)))"

definition AuthService_Logout :: "env \<Rightarrow> AuthService \<Rightarrow> string \<Rightarrow> unit op" where
  [svc_defs]: "AuthService_Logout E s plaintext w =
     (case rr_FindByHash (as_refreshTokens s) (hashRefreshToken plaintext) w of
        (Inl err, w1) \<Rightarrow> if err = ErrNotFound then (Inl ErrTokenInvalid, w1) else (Inl err, w1)
      | (Inr existing, w1) \<Rightarrow>
          if RefreshToken_Revoked existing then (Inr (), w1)
          else rr_Revoke (as_refreshTokens s) (rt_ID existing) w1)"

lemma NewAuthService_sel [simp]:
  "as_users (NewAuthService us rts tm ttl) = us"
  "as_refreshTokens (NewAuthService us rts tm ttl) = rts"
  "as_tokens (NewAuthService us rts tm ttl) = tm"
  "as_refreshTTL (NewAuthService us rts tm ttl) = ttl"
  by (simp_all add: NewAuthService_def)

lemma new_refresh_token_sel [simp]:
  "rt_UserID (new_refresh_token u h x) = u"
  "rt_TokenHash (new_refresh_token u h x) = h"
  "rt_ExpiresAt (new_refresh_token u h x) = x"
  by (simp_all add: new_refresh_token_def)

subsection \<open>How a session table may change\<close>

text \<open>
  \<open>tokens_evolve toks toks'\<close>: the old rows are all there, in their places, changed at most by a
  revocation time where there was none; new rows follow.  Every operation of the program moves
  the table along this relation, so a revoked token stays revoked for good.
\<close>

definition tokens_evolve :: "RefreshToken list \<Rightarrow> RefreshToken list \<Rightarrow> bool" where
  "tokens_evolve toks toks' \<longleftrightarrow> (\<exists>old new. toks' = old @ new \<and> revoked_from (\<lambda>_. True) toks old)"

lemma tokens_evolve_refl [simp]: "tokens_evolve toks toks"
  by (force simp: tokens_evolve_def)

lemma tokens_evolve_revoked_from: "revoked_from p toks toks' \<Longrightarrow> tokens_evolve toks toks'"
  unfolding tokens_evolve_def by (metis append.right_neutral revoked_from_mono)

lemma tokens_evolve_append [simp]: "tokens_evolve toks (toks @ new)"
  by (force simp: tokens_evolve_def)

lemma revoked_from_trans:
  assumes "revoked_from p xs ys" and "revoked_from p ys zs"
    and "\<And>t c. p (t\<lparr>rt_RevokedAt := c\<rparr>) = p t"
  shows "revoked_from p xs zs"
  unfolding revoked_from_def
  by (rule list_all2_trans [OF _ assms(1,2) [unfolded revoked_from_def]]) (auto simp: assms(3))

lemma tokens_evolve_trans [trans]:
  assumes "tokens_evolve xs ys" and "tokens_evolve ys zs"
  shows "tokens_evolve xs zs"
proof -
  obtain old new where ys: "ys = old @ new" and xs: "revoked_from (\<lambda>_. True) xs old"
    using assms(1) by (auto simp: tokens_evolve_def)
  obtain old' new' where zs: "zs = old' @ new'" and "revoked_from (\<lambda>_. True) ys old'"
    using assms(2) by (auto simp: tokens_evolve_def)
  then obtain a b where "old' = a @ b" and "revoked_from (\<lambda>_. True) old a"
    using ys unfolding revoked_from_def by (auto simp: list_all2_append1)
  moreover have "revoked_from (\<lambda>_. True) xs a"
    using revoked_from_trans [OF xs \<open>revoked_from (\<lambda>_. True) old a\<close>] by simp
  ultimately show ?thesis
    using zs unfolding tokens_evolve_def by auto
qed

lemma tokens_evolve_fwd:
  assumes "tokens_evolve toks toks'" and "t \<in> set toks"
  obtains t' where "t' \<in> set toks'"
    and "t' = t \<or> (\<not> RefreshToken_Revoked t \<and> (\<exists>c. t' = t\<lparr>rt_RevokedAt := Some c\<rparr>))"
proof -
  obtain old new where toks': "toks' = old @ new" and "revoked_from (\<lambda>_. True) toks old"
    using assms(1) by (auto simp: tokens_evolve_def)
  from revoked_from_fwd [OF this(2) assms(2)] obtain t' where "t' \<in> set old"
    and "t' = t \<or> (rt_RevokedAt t = None \<and> (\<exists>c. t' = t\<lparr>rt_RevokedAt := Some c\<rparr>))"
    by blast
  then show thesis
    using that toks' by (auto simp: RefreshToken_Revoked_def)
qed

lemma tokens_evolve_revoked:
  assumes "tokens_evolve toks toks'" and "t \<in> set toks" and "RefreshToken_Revoked t"
  shows "t \<in> set toks'"
  using tokens_evolve_fwd [OF assms(1,2)] assms(3) by metis

subsection \<open>The operations step by step\<close>

text \<open>
  \<open>issueTokenPair\<close> either fails before the store is touched, or calls \<open>Create\<close> with the hash of
  the plaintext it is about to return.
\<close>

lemma issueTokenPair_cases:
  assumes "issueTokenPair E s uid w = (r, w')"
  obtains (Early) e n where "r = Inl e" and "w' = w\<lparr>tick := n\<rparr>" and "tick w \<le> n"
    | (Persist) a p x rc where
        "rr_Create (as_refreshTokens s) (new_refresh_token uid (hashRefreshToken p) x)
           (w\<lparr>tick := tick w + 4\<rparr>) = (rc, w')"
        and "r = (case rc of Inl err \<Rightarrow> Inl (Wrap ''persist refresh token: '' err '''') | Inr _ \<Rightarrow> Inr (a, p))"
        and "x = env_now E (tick w + 3) + as_refreshTTL s"
proof (cases "TokenManager_Generate E (as_tokens s) uid w")
  case (Pair r1 w1)
  have w1: "w1 = w\<lparr>tick := tick w + 2\<rparr>"
    using Pair by (rule Generate_rows)
  show thesis
  proof (cases r1)
    case (Inl e)
    then show thesis
      using assms Pair w1 Early by (auto simp: issueTokenPair_def)
  next
    case (Inr a)
    obtain r2 where gen: "generateRefreshToken E w1 = (r2, w\<lparr>tick := tick w + 3\<rparr>)"
      using generateRefreshToken_rows [of E w1] w1 by (cases "generateRefreshToken E w1") auto
    show thesis
    proof (cases r2)
      case (Inl e)
      then show thesis
        using assms Pair Inr gen Early by (auto simp: issueTokenPair_def)
    next
      case r2: (Inr ph)
      obtain p where ph: "ph = (p, hashRefreshToken p)"
        using generateRefreshToken_ok gen r2 by (cases ph) auto
      obtain rc where "rr_Create (as_refreshTokens s) (new_refresh_token uid (hashRefreshToken p)
          (env_now E (tick w + 3) + as_refreshTTL s)) (w\<lparr>tick := tick w + 4\<rparr>) = (rc, w')"
        and "r = (case rc of Inl err \<Rightarrow> Inl (Wrap ''persist refresh token: '' err '''') | Inr _ \<Rightarrow> Inr (a, p))"
        using assms Pair Inr gen r2 ph
        by (auto simp: issueTokenPair_def time_Now_def numeral_Bit0 split: prod.splits sum.splits)
      then show thesis
        using Persist by blast
    qed
  qed
qed

lemma Refresh_cases:
  assumes "AuthService_Refresh E s plaintext w = (r, w')"
  obtains
    (Unknown) e where "rr_FindByHash (as_refreshTokens s) (hashRefreshToken plaintext) w = (Inl e, w')"
      and "r = Inl (if e = ErrNotFound then ErrTokenInvalid else e)"
  | (Reused) t w1 ra where
      "rr_FindByHash (as_refreshTokens s) (hashRefreshToken plaintext) w = (Inr t, w1)"
      and "RefreshToken_Revoked t"
      and "rr_RevokeAllForUser (as_refreshTokens s) (rt_UserID t) w1 = (ra, w')"
      and "r = Inl (case ra of
             Inl e \<Rightarrow> Wrap ''revoke all refresh tokens after reuse detected: '' e ''''
           | Inr _ \<Rightarrow> ErrTokenInvalid)"
  | (Expired) t w1 where
      "rr_FindByHash (as_refreshTokens s) (hashRefreshToken plaintext) w = (Inr t, w1)"
      and "\<not> RefreshToken_Revoked t" and "RefreshToken_Expired (env_now E (tick w1)) t"
      and "r = Inl ErrTokenInvalid" and "w' = w1\<lparr>tick := Suc (tick w1)\<rparr>"
  | (Raced) t w1 e where
      "rr_FindByHash (as_refreshTokens s) (hashRefreshToken plaintext) w = (Inr t, w1)"
      and "\<not> RefreshToken_Revoked t" and "\<not> RefreshToken_Expired (env_now E (tick w1)) t"
      and "rr_Revoke (as_refreshTokens s) (rt_ID t) (w1\<lparr>tick := Suc (tick w1)\<rparr>) = (Inl e, w')"
      and "r = Inl (Wrap ''revoke used refresh token: '' e '''')"
  | (Rotated) t w1 w2 where
      "rr_FindByHash (as_refreshTokens s) (hashRefreshToken plaintext) w = (Inr t, w1)"
      and "\<not> RefreshToken_Revoked t" and "\<not> RefreshToken_Expired (env_now E (tick w1)) t"
      and "rr_Revoke (as_refreshTokens s) (rt_ID t) (w1\<lparr>tick := Suc (tick w1)\<rparr>) = (Inr (), w2)"
      and "issueTokenPair E s (rt_UserID t) w2 = (r, w')"
  using assms
  by (auto simp: AuthService_Refresh_def time_Now_def split: prod.splits sum.splits if_splits)

lemma Logout_cases:
  assumes "AuthService_Logout E s plaintext w = (r, w')"
  obtains
    (Unknown) e where "rr_FindByHash (as_refreshTokens s) (hashRefreshToken plaintext) w = (Inl e, w')"
      and "r = Inl (if e = ErrNotFound then ErrTokenInvalid else e)"
  | (Already) t where
      "rr_FindByHash (as_refreshTokens s) (hashRefreshToken plaintext) w = (Inr t, w')"
      and "RefreshToken_Revoked t" and "r = Inr ()"
  | (Revoking) t w1 where
      "rr_FindByHash (as_refreshTokens s) (hashRefreshToken plaintext) w = (Inr t, w1)"
      and "\<not> RefreshToken_Revoked t"
      and "rr_Revoke (as_refreshTokens s) (rt_ID t) w1 = (r, w')"
  using assms by (auto simp: AuthService_Logout_def split: prod.splits sum.splits if_splits)

lemma Login_cases:
  assumes "AuthService_Login E s email password w = (r, w')"
  obtains
    (NoUser) e where "ur_FindByEmail (as_users s) email w = (Inl e, w')"
      and "r = Inl (if e = ErrNotFound then ErrInvalidCredentials else e)"
  | (BadPassword) u where "ur_FindByEmail (as_users s) email w = (Inr u, w')"
      and "env_CompareHashAndPassword E (u_PasswordHash u) password \<noteq> None"
      and "r = Inl ErrInvalidCredentials"
  | (Issue) u w1 ri where "ur_FindByEmail (as_users s) email w = (Inr u, w1)"
      and "env_CompareHashAndPassword E (u_PasswordHash u) password = None"
      and "issueTokenPair E s (u_ID u) w1 = (ri, w')"
      and "r = map_sum id (\<lambda>(a, p). (u, a, p)) ri"
  using assms
  by (auto simp: AuthService_Login_def split: prod.splits sum.splits if_splits option.splits)

lemma Signup_cases:
  assumes "AuthService_Signup E s email password w = (r, w')"
  obtains
    (HashFails) e where "env_GenerateFromPassword E (tick w) password = Inl e"
      and "w' = w\<lparr>tick := Suc (tick w)\<rparr>" and "r = Inl (Wrap ''hash password: '' e '''')"
  | (CreateFails) h e where "env_GenerateFromPassword E (tick w) password = Inr h"
      and "ur_Create (as_users s)
             \<lparr>u_ID = 0, u_Email = email, u_PasswordHash = h, u_CreatedAt = zero_time\<rparr>
             (w\<lparr>tick := Suc (tick w)\<rparr>) = (Inl e, w')"
      and "r = Inl e"
  | (Issue) h u w1 ri where "env_GenerateFromPassword E (tick w) password = Inr h"
      and "ur_Create (as_users s)
             \<lparr>u_ID = 0, u_Email = email, u_PasswordHash = h, u_CreatedAt = zero_time\<rparr>
             (w\<lparr>tick := Suc (tick w)\<rparr>) = (Inr u, w1)"
      and "issueTokenPair E s (u_ID u) w1 = (ri, w')"
      and "r = map_sum id (\<lambda>(a, p). (u, a, p)) ri"
  using assms
  by (auto simp: AuthService_Signup_def Let_def split: prod.splits sum.splits)

subsection \<open>The service over any repositories that keep their contracts\<close>

locale auth_service =
  ur: user_repository "as_users s" + rr: refresh_token_repository "as_refreshTokens s"
  for s :: AuthService
begin

lemma issue_step:
  assumes "issueTokenPair E s uid w = (r, w')"
  shows "users w' = users w \<and> tasks w' = tasks w \<and> (db_inv w \<longrightarrow> db_inv w') \<and>
    (refresh_tokens w' = refresh_tokens w \<or>
     (\<exists>row. refresh_tokens w' = refresh_tokens w @ [row] \<and> rt_UserID row = uid \<and> rt_RevokedAt row = None))"
  using assms
proof (cases rule: issueTokenPair_cases)
  case (Persist a p x rc)
  then show ?thesis
    using rr.create_grows [OF Persist(1)] rr.create_frame [OF Persist(1)] rr.create_inv [OF Persist(1)]
    by auto
qed auto

lemma issue_ok:
  assumes "issueTokenPair E s uid w = (Inr (a, p), w')"
  shows "hashRefreshToken p \<notin> rt_TokenHash ` set (refresh_tokens w) \<and>
    (\<exists>row. refresh_tokens w' = refresh_tokens w @ [row] \<and> rt_UserID row = uid \<and>
           rt_TokenHash row = hashRefreshToken p \<and> rt_RevokedAt row = None)"
  using assms
proof (cases rule: issueTokenPair_cases)
  case (Persist a' p' x rc)
  then obtain t where "rc = Inr t" and "p' = p"
    by (cases rc) auto
  then show ?thesis
    using rr.create_ok Persist(1) by fastforce
qed auto

lemma issue_evolve:
  "issueTokenPair E s uid w = (r, w') \<Longrightarrow> tokens_evolve (refresh_tokens w) (refresh_tokens w')"
  using issue_step by fastforce

text \<open>Refresh: what it does to the store, whatever happens on the way.\<close>

lemma refresh_step:
  assumes "AuthService_Refresh E s plaintext w = (r, w')"
  shows "users w' = users w \<and> tasks w' = tasks w \<and> (db_inv w \<longrightarrow> db_inv w') \<and>
    tokens_evolve (refresh_tokens w) (refresh_tokens w')"
  using assms
proof (cases rule: Refresh_cases)
  case (Unknown e)
  then show ?thesis
    using rr.find_rows rr.find_inv by fastforce
next
  case (Reused t w1 ra)
  then show ?thesis
    using rr.find_rows [OF Reused(1)] rr.find_inv [OF Reused(1)] rr.revoke_all_from [OF Reused(3)]
      rr.revoke_all_inv [OF Reused(3)]
    by (auto intro: tokens_evolve_revoked_from simp: same_rows_def)
next
  case (Expired t w1)
  then show ?thesis
    using rr.find_rows [OF Expired(1)] rr.find_inv [OF Expired(1)] by (auto simp: same_rows_def)
next
  case (Raced t w1 e)
  then show ?thesis
    using rr.find_rows [OF Raced(1)] rr.find_inv [OF Raced(1)] rr.revoke_from [OF Raced(4)]
      rr.revoke_inv [OF Raced(4)]
    by (auto intro: tokens_evolve_revoked_from simp: same_rows_def)
next
  case (Rotated t w1 w2)
  have "tokens_evolve (refresh_tokens w) (refresh_tokens w2)"
    using rr.find_rows [OF Rotated(1)] rr.revoke_from [OF Rotated(4)]
    by (auto intro: tokens_evolve_revoked_from simp: same_rows_def)
  also have "tokens_evolve (refresh_tokens w2) (refresh_tokens w')"
    using Rotated(5) by (rule issue_evolve)
  finally show ?thesis
    using rr.find_rows [OF Rotated(1)] rr.find_inv [OF Rotated(1)] rr.revoke_from [OF Rotated(4)]
      rr.revoke_inv [OF Rotated(4)] issue_step [OF Rotated(5)]
    by (auto simp: same_rows_def)
qed

lemma logout_step:
  assumes "AuthService_Logout E s plaintext w = (r, w')"
  shows "users w' = users w \<and> tasks w' = tasks w \<and> (db_inv w \<longrightarrow> db_inv w') \<and>
    tokens_evolve (refresh_tokens w) (refresh_tokens w')"
  using assms
proof (cases rule: Logout_cases)
  case (Revoking t w1)
  then show ?thesis
    using rr.find_rows [OF Revoking(1)] rr.find_inv [OF Revoking(1)] rr.revoke_from [OF Revoking(3)]
      rr.revoke_inv [OF Revoking(3)]
    by (auto intro: tokens_evolve_revoked_from simp: same_rows_def)
qed (use rr.find_rows rr.find_inv in \<open>fastforce+\<close>)

lemma login_step:
  assumes "AuthService_Login E s email password w = (r, w')"
  shows "users w' = users w \<and> tasks w' = tasks w \<and> (db_inv w \<longrightarrow> db_inv w') \<and>
    tokens_evolve (refresh_tokens w) (refresh_tokens w')"
  using assms
proof (cases rule: Login_cases)
  case (Issue u w1 ri)
  then show ?thesis
    using ur.find_email_rows [OF Issue(1)] ur.find_email_inv [OF Issue(1)] issue_step [OF Issue(3)]
      issue_evolve [OF Issue(3)]
    by (auto simp: same_rows_def)
qed (use ur.find_email_rows ur.find_email_inv in \<open>fastforce+\<close>)

lemma signup_step:
  assumes "AuthService_Signup E s email password w = (r, w')"
  shows "tasks w' = tasks w \<and> (db_inv w \<longrightarrow> db_inv w') \<and>
    tokens_evolve (refresh_tokens w) (refresh_tokens w') \<and>
    (users w' = users w \<or>
     (\<exists>row. users w' = users w @ [row] \<and> u_Email row = email \<and> email \<notin> u_Email ` set (users w) \<and>
            env_GenerateFromPassword E (tick w) password = Inr (u_PasswordHash row)))"
  using assms
proof (cases rule: Signup_cases)
  case (CreateFails h e)
  then show ?thesis
    using ur.create_grows [OF CreateFails(2)] ur.create_frame [OF CreateFails(2)]
      ur.create_inv [OF CreateFails(2)]
    by auto
next
  case (Issue h u w1 ri)
  then show ?thesis
    using ur.create_grows [OF Issue(2)] ur.create_frame [OF Issue(2)] ur.create_inv [OF Issue(2)]
      issue_step [OF Issue(3)] issue_evolve [OF Issue(3)]
    by auto
qed auto

end

interpretation pg_auth: auth_service
  "NewAuthService (NewUserRepository E) (NewRefreshTokenRepository E) tm ttl" for E tm ttl
  by (simp add: auth_service_def pg_users.user_repository_axioms pg_tokens.refresh_token_repository_axioms)

end
