(* ===== verification/TaskRepository.thy ===== *)
theory TaskRepository
  imports Example
begin

text \<open>
  \<open>internal/repository/task_repository.go\<close>: the interface, the SQL statements on the table
  \<open>tasks\<close>, the Postgres implementation with its row loop, and the contract \<open>task_repository\<close>.

  \<open>ORDER BY created_at DESC\<close> leaves the order of rows with equal \<open>created_at\<close> open; the model
  sorts the rows stably after the place at which the statement met them (\<open>env_rank\<close>), so every
  order the database may answer with is one of the model's.
\<close>

record ListParams =
  lp_Status :: TaskStatus
  lp_Limit :: int
  lp_Offset :: int

record TaskRepository =
  tr_Create :: "Task \<Rightarrow> Task op"
  tr_FindByID :: "int64 \<Rightarrow> Task op"
  tr_ListByUser :: "int64 \<Rightarrow> ListParams \<Rightarrow> (Task list \<times> int) op"
  tr_Update :: "Task \<Rightarrow> Task op"
  tr_Delete :: "int64 \<Rightarrow> unit op"

text \<open>
  \<open>INSERT INTO tasks (user_id, title, description, status, due_date) VALUES (...) RETURNING id,
  created_at, updated_at\<close>; both times are the statement's \<open>now()\<close>.
\<close>

definition sql_insert_task :: "env \<Rightarrow> Task \<Rightarrow> (int64 \<times> time \<times> time) stmt" where
  [sql_defs]: "sql_insert_task E t n w =
     (case nextval (tasks_id_seq w) of
        None \<Rightarrow> (Inl (sequence_limit_exceeded E), w)
      | Some i \<Rightarrow>
          (let w1 = w\<lparr>tasks_id_seq := i\<rparr>; c = env_dbnow E n
           in if i \<in> t_ID ` set (tasks w) then (Inl (unique_violation E), w1)
              else if t_UserID t \<notin> u_ID ` set (users w) then (Inl (foreign_key_violation E), w1)
              else (Inr (i, c, c),
                    w1\<lparr>tasks := tasks w @
                       [\<lparr>t_ID = i, t_UserID = t_UserID t, t_Title = t_Title t,
                         t_Description = t_Description t, t_Status = t_Status t,
                         t_DueDate = map_option (env_timestamptz E) (t_DueDate t),
                         t_CreatedAt = c, t_UpdatedAt = c\<rparr>]\<rparr>)))"

definition sql_select_task :: "int64 \<Rightarrow> Task stmt" where
  [sql_defs]: "sql_select_task i n w =
     (case find (\<lambda>t. t_ID t = i) (tasks w) of None \<Rightarrow> (Inl ErrNoRows, w) | Some t \<Rightarrow> (Inr t, w))"

text \<open>\<open>SELECT count(*) FROM tasks WHERE p\<close>.\<close>

definition sql_count_tasks :: "(Task \<Rightarrow> bool) \<Rightarrow> int stmt" where
  [sql_defs]: "sql_count_tasks p n w = (Inr (int (length (filter p (tasks w)))), w)"

text \<open>The rows that satisfy \<open>p\<close> in the order of the \<open>n\<close>-th statement: newest first, ties by place.\<close>

definition newest_first :: "env \<Rightarrow> nat \<Rightarrow> (Task \<Rightarrow> bool) \<Rightarrow> Task list \<Rightarrow> Task list" where
  "newest_first E n p rows = sort_key (\<lambda>t. - t_CreatedAt t) (sort_key (env_rank E n) (filter p rows))"

text \<open>
  \<open>SELECT ... FROM tasks WHERE p ORDER BY created_at DESC LIMIT l OFFSET o\<close>.  The server rejects
  a negative \<open>OFFSET\<close> or \<open>LIMIT\<close>.
\<close>

definition sql_list_tasks :: "env \<Rightarrow> (Task \<Rightarrow> bool) \<Rightarrow> int \<Rightarrow> int \<Rightarrow> Task list stmt" where
  [sql_defs]: "sql_list_tasks E p limit offset n w =
     (if offset < 0 then (Inl (PgError ''2201X'' (env_pgtext E ''2201X'')), w)
      else if limit < 0 then (Inl (PgError ''2201W'' (env_pgtext E ''2201W'')), w)
      else (Inr (take (nat limit) (drop (nat offset) (newest_first E n p (tasks w)))), w))"

text \<open>
  \<open>UPDATE tasks SET title = $1, description = $2, status = $3, due_date = $4, updated_at = now()
  WHERE id = $5 RETURNING updated_at\<close>.
\<close>

definition set_task :: "env \<Rightarrow> nat \<Rightarrow> Task \<Rightarrow> Task \<Rightarrow> Task" where
  "set_task E n t row =
     row\<lparr>t_Title := t_Title t, t_Description := t_Description t, t_Status := t_Status t,
         t_DueDate := map_option (env_timestamptz E) (t_DueDate t), t_UpdatedAt := env_dbnow E n\<rparr>"

definition sql_update_task :: "env \<Rightarrow> Task \<Rightarrow> time stmt" where
  [sql_defs]: "sql_update_task E t n w =
     (if affected (\<lambda>row. t_ID row = t_ID t) (tasks w) = 0 then (Inl ErrNoRows, w)
      else (Inr (env_dbnow E n),
            w\<lparr>tasks := update_where (\<lambda>row. t_ID row = t_ID t) (set_task E n t) (tasks w)\<rparr>))"

definition sql_delete_task :: "int64 \<Rightarrow> nat stmt" where
  [sql_defs]: "sql_delete_task i n w =
     (Inr (affected (\<lambda>t. t_ID t = i) (tasks w)), w\<lparr>tasks := filter (\<lambda>t. t_ID t \<noteq> i) (tasks w)\<rparr>)"

text \<open>One read from an open result set: the driver may fail at every one of them.\<close>

definition read_row :: "env \<Rightarrow> unit op" where
  "read_row E = db_call E (\<lambda>n w. (Inr (), w))"

text \<open>
  The loop \<open>for rows.Next()\<close> with the rows read so far in \<open>acc\<close>, and \<open>rows.Err()\<close> after it.  A
  failure of \<open>Next\<close> ends the loop and is reported by \<open>rows.Err()\<close>, a failure of \<open>Scan\<close> at once.
\<close>

fun scan_tasks :: "env \<Rightarrow> Task list \<Rightarrow> Task list \<Rightarrow> Task list op" where
  "scan_tasks E [] acc w =
     (case read_row E w of
        (Inl err, w') \<Rightarrow> (Inl (Wrap ''iterate task rows: '' err ''''), w')
      | (Inr _, w') \<Rightarrow> (Inr acc, w'))"
| "scan_tasks E (row # rows) acc w =
     (case read_row E w of
        (Inl err, w') \<Rightarrow> (Inl (Wrap ''iterate task rows: '' err ''''), w')
      | (Inr _, w1) \<Rightarrow>
          (case read_row E w1 of
             (Inl err, w') \<Rightarrow> (Inl (Wrap ''scan task row: '' err ''''), w')
           | (Inr _, w') \<Rightarrow> scan_tasks E rows (acc @ [row]) w'))"

text \<open>The \<open>WHERE\<close> clause \<open>ListByUser\<close> builds: the owner, and the status unless it is empty.\<close>

definition list_where :: "int64 \<Rightarrow> TaskStatus \<Rightarrow> Task \<Rightarrow> bool" where
  "list_where userID status t \<longleftrightarrow> t_UserID t = userID \<and> (status \<noteq> '''' \<longrightarrow> t_Status t = status)"

definition taskRepository_Create :: "env \<Rightarrow> Task \<Rightarrow> Task op" where
  [repo_defs]: "taskRepository_Create E t w =
     (case db_call E (sql_insert_task E t) w of
        (Inl err, w') \<Rightarrow> (Inl (Wrap ''insert task: '' err ''''), w')
      | (Inr (i, c, u), w') \<Rightarrow> (Inr (t\<lparr>t_ID := i, t_CreatedAt := c, t_UpdatedAt := u\<rparr>), w'))"

definition taskRepository_FindByID :: "env \<Rightarrow> int64 \<Rightarrow> Task op" where
  [repo_defs]: "taskRepository_FindByID E i w =
     (case db_call E (sql_select_task i) w of
        (Inl err, w') \<Rightarrow>
          if errors_Is err ErrNoRows then (Inl ErrNotFound, w')
          else (Inl (Wrap ''find task by id: '' err ''''), w')
      | (Inr t, w') \<Rightarrow> (Inr t, w'))"

definition taskRepository_ListByUser :: "env \<Rightarrow> int64 \<Rightarrow> ListParams \<Rightarrow> (Task list \<times> int) op" where
  [repo_defs]: "taskRepository_ListByUser E userID params w =
     (let p = list_where userID (lp_Status params)
      in case db_call E (sql_count_tasks p) w of
           (Inl err, w1) \<Rightarrow> (Inl (Wrap ''count tasks: '' err ''''), w1)
         | (Inr total_rows, w1) \<Rightarrow>
             (case db_call E (sql_list_tasks E p (lp_Limit params) (lp_Offset params)) w1 of
                (Inl err, w2) \<Rightarrow> (Inl (Wrap ''list tasks: '' err ''''), w2)
              | (Inr rows, w2) \<Rightarrow>
                  (case scan_tasks E rows [] w2 of
                     (Inl err, w3) \<Rightarrow> (Inl err, w3)
                   | (Inr ts, w3) \<Rightarrow> (Inr (ts, total_rows), w3))))"

definition taskRepository_Update :: "env \<Rightarrow> Task \<Rightarrow> Task op" where
  [repo_defs]: "taskRepository_Update E t w =
     (case db_call E (sql_update_task E t) w of
        (Inl err, w') \<Rightarrow>
          if errors_Is err ErrNoRows then (Inl ErrNotFound, w')
          else (Inl (Wrap ''update task: '' err ''''), w')
      | (Inr u, w') \<Rightarrow> (Inr (t\<lparr>t_UpdatedAt := u\<rparr>), w'))"

definition taskRepository_Delete :: "env \<Rightarrow> int64 \<Rightarrow> unit op" where
  [repo_defs]: "taskRepository_Delete E i w =
     (case db_call E (sql_delete_task i) w of
        (Inl err, w') \<Rightarrow> (Inl (Wrap ''delete task: '' err ''''), w')
      | (Inr rows, w') \<Rightarrow>
          (case env_affected E (tick w) of
             Some msg \<Rightarrow> (Inl (Wrap ''delete task rows affected: '' (ErrDriver msg) ''''), w')
           | None \<Rightarrow> if rows = 0 then (Inl ErrNotFound, w') else (Inr (), w')))"

definition NewTaskRepository :: "env \<Rightarrow> TaskRepository" where
  "NewTaskRepository E =
     \<lparr>tr_Create = taskRepository_Create E, tr_FindByID = taskRepository_FindByID E,
      tr_ListByUser = taskRepository_ListByUser E, tr_Update = taskRepository_Update E,
      tr_Delete = taskRepository_Delete E\<rparr>"

lemma NewTaskRepository_sel [simp]:
  "tr_Create (NewTaskRepository E) = taskRepository_Create E"
  "tr_FindByID (NewTaskRepository E) = taskRepository_FindByID E"
  "tr_ListByUser (NewTaskRepository E) = taskRepository_ListByUser E"
  "tr_Update (NewTaskRepository E) = taskRepository_Update E"
  "tr_Delete (NewTaskRepository E) = taskRepository_Delete E"
  by (simp_all add: NewTaskRepository_def)

subsection \<open>The order of a listing\<close>

lemma mset_newest_first: "mset (newest_first E n p rows) = mset (filter p rows)"
  by (simp add: newest_first_def)

lemma set_newest_first [simp]: "set (newest_first E n p rows) = {t \<in> set rows. p t}"
  by (simp add: newest_first_def)

lemma length_newest_first [simp]: "length (newest_first E n p rows) = length (filter p rows)"
  by (simp add: newest_first_def)

lemma sorted_newest_first: "sorted_wrt (\<lambda>s t. t_CreatedAt t \<le> t_CreatedAt s) (newest_first E n p rows)"
proof -
  have "sorted (map (\<lambda>t. - t_CreatedAt t) (newest_first E n p rows))"
    by (simp add: newest_first_def)
  then show ?thesis
    by (simp add: sorted_map)
qed

subsection \<open>The contract of the interface\<close>

text \<open>
  \<open>ts\<close> is what the column type keeps of a due date.  \<open>Update\<close> and \<open>Delete\<close> touch rows with the
  given id only; a failed call leaves the table alone or has done its whole effect.
\<close>

locale task_repository =
  fixes R :: TaskRepository and ts :: "time \<Rightarrow> time"
  assumes create_ok:
    "tr_Create R t w = (Inr t', w') \<Longrightarrow>
       (\<exists>i c u. t' = t\<lparr>t_ID := i, t_CreatedAt := c, t_UpdatedAt := u\<rparr> \<and> i \<notin> t_ID ` set (tasks w)) \<and>
       tasks w' = tasks w @ [t'\<lparr>t_DueDate := map_option ts (t_DueDate t)\<rparr>]"
    and create_grows:
    "tr_Create R t w = (r, w') \<Longrightarrow>
       tasks w' = tasks w \<or>
       (\<exists>row. tasks w' = tasks w @ [row] \<and> t_UserID row = t_UserID t \<and> t_Status row = t_Status t)"
    and create_frame:
    "tr_Create R t w = (r, w') \<Longrightarrow> users w' = users w \<and> refresh_tokens w' = refresh_tokens w"
    and create_inv:
    "tr_Create R t w = (r, w') \<Longrightarrow> db_inv w \<Longrightarrow> TaskStatus_Valid (t_Status t) \<Longrightarrow> db_inv w'"
    and find_rows: "tr_FindByID R i w = (r, w') \<Longrightarrow> same_rows w w'"
    and find_inv: "tr_FindByID R i w = (r, w') \<Longrightarrow> db_inv w \<Longrightarrow> db_inv w'"
    and find_ok: "tr_FindByID R i w = (Inr t, w') \<Longrightarrow> t \<in> set (tasks w) \<and> t_ID t = i"
    and find_none: "tr_FindByID R i w = (Inl ErrNotFound, w') \<Longrightarrow> i \<notin> t_ID ` set (tasks w)"
    and list_rows: "tr_ListByUser R uid p w = (rl, w') \<Longrightarrow> same_rows w w'"
    and list_inv: "tr_ListByUser R uid p w = (rl, w') \<Longrightarrow> db_inv w \<Longrightarrow> db_inv w'"
    and list_ok:
    "tr_ListByUser R uid p w = (Inr (page, total_rows), w') \<Longrightarrow>
       total_rows = int (length (filter (list_where uid (lp_Status p)) (tasks w))) \<and>
       (\<exists>rows. mset rows = mset (filter (list_where uid (lp_Status p)) (tasks w)) \<and>
               sorted_wrt (\<lambda>s t. t_CreatedAt t \<le> t_CreatedAt s) rows \<and>
               page = take (nat (lp_Limit p)) (drop (nat (lp_Offset p)) rows))"
    and update_rows:
    "tr_Update R t w = (r, w') \<Longrightarrow>
       tasks w' = tasks w \<or>
       (\<exists>u. tasks w' = update_where (\<lambda>row. t_ID row = t_ID t)
               (\<lambda>row. row\<lparr>t_Title := t_Title t, t_Description := t_Description t, t_Status := t_Status t,
                          t_DueDate := map_option ts (t_DueDate t), t_UpdatedAt := u\<rparr>) (tasks w))"
    and update_ok:
    "tr_Update R t w = (Inr t', w') \<Longrightarrow>
       t_ID t \<in> t_ID ` set (tasks w) \<and>
       (\<exists>u. t' = t\<lparr>t_UpdatedAt := u\<rparr> \<and>
            tasks w' = update_where (\<lambda>row. t_ID row = t_ID t)
               (\<lambda>row. row\<lparr>t_Title := t_Title t, t_Description := t_Description t, t_Status := t_Status t,
                          t_DueDate := map_option ts (t_DueDate t), t_UpdatedAt := u\<rparr>) (tasks w))"
    and update_frame:
    "tr_Update R t w = (r, w') \<Longrightarrow> users w' = users w \<and> refresh_tokens w' = refresh_tokens w"
    and update_inv:
    "tr_Update R t w = (r, w') \<Longrightarrow> db_inv w \<Longrightarrow> TaskStatus_Valid (t_Status t) \<Longrightarrow> db_inv w'"
    and delete_rows:
    "tr_Delete R i w = (ru, w') \<Longrightarrow>
       tasks w' = tasks w \<or> tasks w' = filter (\<lambda>t. t_ID t \<noteq> i) (tasks w)"
    and delete_ok:
    "tr_Delete R i w = (Inr (), w') \<Longrightarrow>
       i \<in> t_ID ` set (tasks w) \<and> tasks w' = filter (\<lambda>t. t_ID t \<noteq> i) (tasks w)"
    and delete_frame:
    "tr_Delete R i w = (ru, w') \<Longrightarrow> users w' = users w \<and> refresh_tokens w' = refresh_tokens w"
    and delete_inv: "tr_Delete R i w = (ru, w') \<Longrightarrow> db_inv w \<Longrightarrow> db_inv w'"

subsection \<open>The Postgres implementation keeps the contract\<close>

lemma sql_insert_task_rows:
  "sql_insert_task E t n w = (r, w') \<Longrightarrow>
     users w' = users w \<and> refresh_tokens w' = refresh_tokens w \<and>
     (tasks w' = tasks w \<or>
      (\<exists>row. tasks w' = tasks w @ [row] \<and> t_UserID row = t_UserID t \<and> t_Status row = t_Status t))"
  by (auto simp: sql_defs Let_def split: option.splits if_splits)

lemma sql_insert_task_inv:
  assumes "sql_insert_task E t n w = (r, w')" and "db_inv w" and "TaskStatus_Valid (t_Status t)"
  shows "db_inv w'"
proof (cases "nextval (tasks_id_seq w)")
  case None
  then show ?thesis
    using assms by (auto simp: sql_defs)
next
  case (Some i)
  show ?thesis
    using assms Some db_inv_next(2) [OF assms(2) Some]
    by (auto simp: sql_defs db_inv_def Let_def split: if_splits)
qed

lemma sql_insert_task_Inr:
  "sql_insert_task E t n w = (Inr (i, c, u), w') \<Longrightarrow>
     i \<notin> t_ID ` set (tasks w) \<and> t_UserID t \<in> u_ID ` set (users w) \<and>
     tasks w' = tasks w @ [t\<lparr>t_ID := i, t_CreatedAt := c, t_UpdatedAt := u,
                             t_DueDate := map_option (env_timestamptz E) (t_DueDate t)\<rparr>]"
  by (auto simp: sql_defs Let_def split: option.splits if_splits)

lemma insert_task_call:
  assumes "db_call E (sql_insert_task E t) w = (r, w')"
  shows "users w' = users w \<and> refresh_tokens w' = refresh_tokens w \<and>
     (tasks w' = tasks w \<or>
      (\<exists>row. tasks w' = tasks w @ [row] \<and> t_UserID row = t_UserID t \<and> t_Status row = t_Status t)) \<and>
     (db_inv w \<longrightarrow> TaskStatus_Valid (t_Status t) \<longrightarrow> db_inv w')"
  using assms
proof (rule db_call_cases)
  fix r1
  assume stmt: "sql_insert_task E t (tick w) (w\<lparr>tick := Suc (tick w)\<rparr>) = (r1, w')"
  show ?thesis
    using sql_insert_task_rows [OF stmt] sql_insert_task_inv [OF stmt] by simp
qed simp

text \<open>A statement that only reads.\<close>

lemma reading_call:
  assumes "db_call E stmt w = (r, w')" and "\<And>n w1. snd (stmt n w1) = w1"
  shows "w' = w\<lparr>tick := Suc (tick w)\<rparr>"
  using assms(1) by (rule db_call_cases) (metis assms(2) snd_conv)+

lemma select_task_call:
  assumes "db_call E (sql_select_task i) w = (r, w')"
  shows "same_rows w w' \<and> (db_inv w \<longrightarrow> db_inv w') \<and>
         (\<forall>t. r = Inr t \<longrightarrow> t \<in> set (tasks w) \<and> t_ID t = i) \<and>
         (\<forall>e. r = Inl e \<longrightarrow> (\<exists>msg. e = ErrDriver msg) \<or>
                 e = ErrNoRows \<and> (\<forall>t \<in> set (tasks w). t_ID t \<noteq> i))"
proof -
  have "w' = w\<lparr>tick := Suc (tick w)\<rparr>"
    using assms by (rule reading_call) (simp add: sql_defs split: option.splits)
  then show ?thesis
    using assms
    by (auto simp: sql_defs find_None_iff split: option.splits
        dest!: db_call_InrD db_call_InlD dest: find_SomeD)
qed

lemma read_row_call: "read_row E w = (r, w') \<Longrightarrow> w' = w\<lparr>tick := Suc (tick w)\<rparr>"
  unfolding read_row_def by (rule reading_call) auto

lemma scan_tasks_rows:
  "scan_tasks E rows acc w = (r, w') \<Longrightarrow>
     same_rows w w' \<and> (db_inv w \<longrightarrow> db_inv w') \<and> (\<forall>ts. r = Inr ts \<longrightarrow> ts = acc @ rows)"
proof (induction rows arbitrary: acc w)
  case Nil
  then show ?case
    by (auto split: prod.splits sum.splits dest!: read_row_call)
next
  case (Cons row rows)
  obtain r1 r2 where read: "read_row E w = (r1, w\<lparr>tick := Suc (tick w)\<rparr>)"
    "read_row E (w\<lparr>tick := Suc (tick w)\<rparr>) = (r2, w\<lparr>tick := Suc (Suc (tick w))\<rparr>)"
    using read_row_call [of E w] read_row_call [of E "w\<lparr>tick := Suc (tick w)\<rparr>"]
    by (cases "read_row E w", cases "read_row E (w\<lparr>tick := Suc (tick w)\<rparr>)") auto
  show ?case
  proof (cases "\<exists>x y. r1 = Inr x \<and> r2 = Inr y")
    case False
    then show ?thesis
      using Cons.prems read by (cases r1; cases r2) auto
  next
    case True
    then have "scan_tasks E rows (acc @ [row]) (w\<lparr>tick := Suc (Suc (tick w))\<rparr>) = (r, w')"
      using Cons.prems read by auto
    from Cons.IH [OF this] show ?thesis
      by (auto simp: same_rows_def)
  qed
qed

lemma scan_tasks_answered: "no_faults E \<Longrightarrow> fst (scan_tasks E rows acc w) = Inr (acc @ rows)"
  by (induction E rows acc w rule: scan_tasks.induct) (simp_all add: read_row_def db_call_answered)

lemma count_tasks_call:
  "\<exists>r. db_call E (sql_count_tasks q) w = (r, w\<lparr>tick := Suc (tick w)\<rparr>) \<and>
       (\<forall>k. r = Inr k \<longrightarrow> k = int (length (filter q (tasks w))))"
  by (cases "env_db E (tick w)") (simp_all add: db_call_def sql_defs Let_def)

lemma list_tasks_call:
  "\<exists>r. db_call E (sql_list_tasks E q l k) w = (r, w\<lparr>tick := Suc (tick w)\<rparr>) \<and>
       (\<forall>rows. r = Inr rows \<longrightarrow>
          rows = take (nat l) (drop (nat k) (newest_first E (tick w) q (tasks w))))"
  by (cases "env_db E (tick w)") (simp_all add: db_call_def sql_defs Let_def)

lemma ListByUser_calls:
  assumes "taskRepository_ListByUser E uid p w = (r, w')"
  shows "same_rows w w' \<and> (db_inv w \<longrightarrow> db_inv w') \<and>
    (\<forall>page k. r = Inr (page, k) \<longrightarrow>
       k = int (length (filter (list_where uid (lp_Status p)) (tasks w))) \<and>
       page = take (nat (lp_Limit p)) (drop (nat (lp_Offset p))
                (newest_first E (Suc (tick w)) (list_where uid (lp_Status p)) (tasks w))))"
proof -
  let ?q = "list_where uid (lp_Status p)"
  obtain r1 where c1: "db_call E (sql_count_tasks ?q) w = (r1, w\<lparr>tick := Suc (tick w)\<rparr>)"
    and v1: "\<And>k. r1 = Inr k \<Longrightarrow> k = int (length (filter ?q (tasks w)))"
    using count_tasks_call by blast
  obtain r2 where
    c2: "db_call E (sql_list_tasks E ?q (lp_Limit p) (lp_Offset p)) (w\<lparr>tick := Suc (tick w)\<rparr>)
         = (r2, w\<lparr>tick := Suc (Suc (tick w))\<rparr>)"
    and v2: "\<And>rows. r2 = Inr rows \<Longrightarrow> rows = take (nat (lp_Limit p)) (drop (nat (lp_Offset p))
               (newest_first E (Suc (tick w)) ?q (tasks w)))"
    using list_tasks_call [of E ?q "lp_Limit p" "lp_Offset p" "w\<lparr>tick := Suc (tick w)\<rparr>"] by auto
  have "(\<exists>e. r = Inl e) \<and> w' \<in> {w\<lparr>tick := Suc (tick w)\<rparr>, w\<lparr>tick := Suc (Suc (tick w))\<rparr>} \<or>
        (\<exists>k rows r3. r1 = Inr k \<and> r2 = Inr rows \<and>
           scan_tasks E rows [] (w\<lparr>tick := Suc (Suc (tick w))\<rparr>) = (r3, w') \<and>
           r = map_sum id (\<lambda>ts. (ts, k)) r3)"
    using assms c1 c2 by (auto simp: repo_defs Let_def split: sum.splits prod.splits)
  then show ?thesis
  proof (elim disjE conjE exE)
    fix k rows r3
    assume "r1 = Inr k" and "r2 = Inr rows" and r: "r = map_sum id (\<lambda>ts. (ts, k)) r3"
      and scan: "scan_tasks E rows [] (w\<lparr>tick := Suc (Suc (tick w))\<rparr>) = (r3, w')"
    then show ?thesis
      using scan_tasks_rows [OF scan] v1 v2 by (cases r3) (auto simp: same_rows_def)
  qed auto
qed

lemma db_inv_update_task:
  assumes "db_inv w" and "\<And>row. p row \<Longrightarrow> t_ID (f row) = t_ID row \<and> t_UserID (f row) = t_UserID row \<and>
    TaskStatus_Valid (t_Status (f row))"
  shows "db_inv (w\<lparr>tasks := update_where p f (tasks w)\<rparr>)"
proof -
  have "map t_ID (update_where p f (tasks w)) = map t_ID (tasks w)"
    by (rule update_where_key) (simp add: assms(2))
  then show ?thesis
    using assms by (auto simp: db_inv_def set_update_where)
qed

lemma set_task_fun:
  "set_task E n t = (\<lambda>row. row\<lparr>t_Title := t_Title t, t_Description := t_Description t,
     t_Status := t_Status t, t_DueDate := map_option (env_timestamptz E) (t_DueDate t),
     t_UpdatedAt := env_dbnow E n\<rparr>)"
  by (simp add: set_task_def fun_eq_iff)

lemma update_task_call:
  assumes "db_call E (sql_update_task E t) w = (r, w')"
  shows "users w' = users w \<and> refresh_tokens w' = refresh_tokens w \<and>
     (tasks w' = tasks w \<or>
      tasks w' = update_where (\<lambda>row. t_ID row = t_ID t) (set_task E (tick w) t) (tasks w)) \<and>
     (db_inv w \<longrightarrow> TaskStatus_Valid (t_Status t) \<longrightarrow> db_inv w')"
  using assms
proof (rule db_call_cases)
  fix r1
  assume stmt: "sql_update_task E t (tick w) (w\<lparr>tick := Suc (tick w)\<rparr>) = (r1, w')"
  show ?thesis
    using stmt db_inv_update_task [of "w\<lparr>tick := Suc (tick w)\<rparr>"]
    by (auto simp: sql_defs set_task_def split: if_splits)
qed simp

lemma update_task_call_Inr:
  assumes "db_call E (sql_update_task E t) w = (Inr u, w')"
  shows "t_ID t \<in> t_ID ` set (tasks w) \<and> u = env_dbnow E (tick w) \<and>
     tasks w' = update_where (\<lambda>row. t_ID row = t_ID t) (set_task E (tick w) t) (tasks w)"
  using db_call_InrD [OF assms]
  by (auto simp: sql_defs image_iff split: if_splits) metis

lemma delete_task_call:
  assumes "db_call E (sql_delete_task i) w = (r, w')"
  shows "users w' = users w \<and> refresh_tokens w' = refresh_tokens w \<and>
     (tasks w' = tasks w \<or> tasks w' = filter (\<lambda>t. t_ID t \<noteq> i) (tasks w)) \<and> (db_inv w \<longrightarrow> db_inv w')"
  using assms
proof (rule db_call_cases)
  fix r1
  assume "sql_delete_task i (tick w) (w\<lparr>tick := Suc (tick w)\<rparr>) = (r1, w')"
  then have "w' = w\<lparr>tick := Suc (tick w), tasks := filter (\<lambda>t. t_ID t \<noteq> i) (tasks w)\<rparr>"
    by (simp add: sql_defs)
  then show ?thesis
    by (auto simp: db_inv_def intro: ids_ok_filter)
qed simp

lemma delete_task_call_Inr:
  assumes "db_call E (sql_delete_task i) w = (Inr k, w')"
  shows "k = affected (\<lambda>t. t_ID t = i) (tasks w) \<and> tasks w' = filter (\<lambda>t. t_ID t \<noteq> i) (tasks w)"
  using db_call_InrD [OF assms] by (auto simp: sql_defs)

interpretation pg_tasks: task_repository "NewTaskRepository E" "env_timestamptz E" for E
proof (unfold_locales, goal_cases)
  case (1 t w t' w')
  then obtain i c u where icu: "db_call E (sql_insert_task E t) w = (Inr (i, c, u), w')"
    and t': "t' = t\<lparr>t_ID := i, t_CreatedAt := c, t_UpdatedAt := u\<rparr>"
    by (auto simp: repo_defs split: prod.splits sum.splits)
  show ?case
    using sql_insert_task_Inr [OF db_call_InrD [OF icu]] t' by auto
next
  case (11 uid p w page total_rows w')
  then show ?case
    using ListByUser_calls [of E uid p w "Inr (page, total_rows)" w']
    by (auto intro!: exI [of _ "newest_first E (Suc (tick w)) (list_where uid (lp_Status p)) (tasks w)"]
        simp: mset_newest_first sorted_newest_first)
next
  case (12 t w r w')
  then show ?case
    by (auto simp: repo_defs set_task_fun split: prod.splits sum.splits if_splits
        dest!: update_task_call)
next
  case (13 t w t' w')
  then show ?case
    by (auto simp: repo_defs set_task_fun split: prod.splits sum.splits if_splits
        dest!: update_task_call_Inr)
next
  case (17 i w w')
  then show ?case
    by (auto simp: repo_defs affected_pos_iff image_iff split: prod.splits sum.splits if_splits
        option.splits dest!: delete_task_call_Inr)
qed (auto simp: repo_defs split: prod.splits sum.splits if_splits option.splits
  dest!: insert_task_call select_task_call update_task_call delete_task_call
  dest: ListByUser_calls [unfolded repo_defs])

end
