(* ===== verification/TaskService.thy ===== *)
theory TaskService
  imports TaskRepository
begin

text \<open>
  \<open>internal/service/task_service.go\<close>: creation, paged listing, and the operations guarded by
  ownership.  As in the code the service is defined over any \<open>TaskRepository\<close>; the locale
  \<open>task_service\<close> proves it correct over the contract, and is interpreted on the Postgres
  repository.
\<close>

record TaskService =
  ts_tasks :: TaskRepository

definition NewTaskService :: "TaskRepository \<Rightarrow> TaskService" where
  "NewTaskService tr = \<lparr>ts_tasks = tr\<rparr>"

definition TaskService_Create ::
  "TaskService \<Rightarrow> int64 \<Rightarrow> string \<Rightarrow> string \<Rightarrow> time option \<Rightarrow> Task op" where
  [svc_defs]: "TaskService_Create s userID title description dueDate w =
     tr_Create (ts_tasks s)
       \<lparr>t_ID = 0, t_UserID = userID, t_Title = title, t_Description = description,
        t_Status = TaskStatusPending, t_DueDate = dueDate,
        t_CreatedAt = zero_time, t_UpdatedAt = zero_time\<rparr> w"

definition defaultPageLimit :: int where
  "defaultPageLimit = 20"

definition maxPageLimit :: int where
  "maxPageLimit = 100"

definition effectiveLimit :: "int \<Rightarrow> int" where
  "effectiveLimit limit =
     (let l = (if limit \<le> 0 then defaultPageLimit else limit)
      in if l > maxPageLimit then maxPageLimit else l)"

definition effectiveOffset :: "int \<Rightarrow> int" where
  "effectiveOffset offset = (if offset < 0 then 0 else offset)"

definition TaskService_List ::
  "TaskService \<Rightarrow> int64 \<Rightarrow> TaskStatus \<Rightarrow> int \<Rightarrow> int \<Rightarrow> (Task list \<times> int \<times> int \<times> int) op" where
  [svc_defs]: "TaskService_List s userID status limit offset w =
     (case tr_ListByUser (ts_tasks s) userID
             \<lparr>lp_Status = status, lp_Limit = effectiveLimit limit, lp_Offset = effectiveOffset offset\<rparr> w of
        (Inl err, w') \<Rightarrow> (Inl err, w')
      | (Inr (page, n), w') \<Rightarrow> (Inr (page, n, effectiveLimit limit, effectiveOffset offset), w'))"

definition TaskService_Get :: "TaskService \<Rightarrow> int64 \<Rightarrow> int64 \<Rightarrow> Task op" where
  [svc_defs]: "TaskService_Get s userID taskID w =
     (case tr_FindByID (ts_tasks s) taskID w of
        (Inl err, w') \<Rightarrow> (Inl err, w')
      | (Inr task, w') \<Rightarrow> if t_UserID task \<noteq> userID then (Inl ErrForbidden, w') else (Inr task, w'))"

definition TaskService_Update ::
  "env \<Rightarrow> TaskService \<Rightarrow> int64 \<Rightarrow> int64 \<Rightarrow> string \<Rightarrow> string \<Rightarrow> TaskStatus \<Rightarrow> time option \<Rightarrow> Task op" where
  [svc_defs]: "TaskService_Update E s userID taskID title description status dueDate w =
     (case TaskService_Get s userID taskID w of
        (Inl err, w1) \<Rightarrow> (Inl err, w1)
      | (Inr task, w1) \<Rightarrow>
          if \<not> TaskStatus_Valid status
          then (Inl (Wrap '''' ErrValidation ('': invalid status '' @ env_Quote E status)), w1)
          else tr_Update (ts_tasks s)
                 (task\<lparr>t_Title := title, t_Description := description, t_Status := status,
                       t_DueDate := dueDate\<rparr>) w1)"

definition TaskService_Delete :: "TaskService \<Rightarrow> int64 \<Rightarrow> int64 \<Rightarrow> unit op" where
  [svc_defs]: "TaskService_Delete s userID taskID w =
     (case TaskService_Get s userID taskID w of
        (Inl err, w1) \<Rightarrow> (Inl err, w1)
      | (Inr _, w1) \<Rightarrow> tr_Delete (ts_tasks s) taskID w1)"

lemma NewTaskService_sel [simp]: "ts_tasks (NewTaskService tr) = tr"
  by (simp add: NewTaskService_def)

lemma effectiveLimit_range: "0 < effectiveLimit l \<and> effectiveLimit l \<le> maxPageLimit"
  by (auto simp: effectiveLimit_def maxPageLimit_def defaultPageLimit_def Let_def)

lemma effectiveOffset_nonneg: "0 \<le> effectiveOffset k"
  by (simp add: effectiveOffset_def)

subsection \<open>Ownership over any repository that keeps its contract\<close>

text \<open>
  \<open>others_kept uid w w'\<close>: the rows of every other user are the same, in the same order, and so
  are the other tables.  Every operation on behalf of \<open>uid\<close> has this effect at most.
\<close>

definition others_kept :: "int64 \<Rightarrow> world \<Rightarrow> world \<Rightarrow> bool" where
  "others_kept uid w w' \<longleftrightarrow>
     filter (\<lambda>t. t_UserID t \<noteq> uid) (tasks w') = filter (\<lambda>t. t_UserID t \<noteq> uid) (tasks w) \<and>
     users w' = users w \<and> refresh_tokens w' = refresh_tokens w"

lemma others_kept_same_rows: "same_rows w w' \<Longrightarrow> others_kept uid w w'"
  by (simp add: others_kept_def same_rows_def)

locale task_service = tr: task_repository "ts_tasks s" ts for s :: TaskService and ts :: "time \<Rightarrow> time"
begin

lemma get_rows: "TaskService_Get s uid i w = (r, w') \<Longrightarrow> same_rows w w' \<and> (db_inv w \<longrightarrow> db_inv w')"
  using tr.find_rows tr.find_inv
  by (fastforce simp: TaskService_Get_def split: prod.splits sum.splits if_splits)

lemma get_ok:
  "TaskService_Get s uid i w = (Inr t, w') \<Longrightarrow> t \<in> set (tasks w) \<and> t_ID t = i \<and> t_UserID t = uid"
  using tr.find_ok
  by (fastforce simp: TaskService_Get_def split: prod.splits sum.splits if_splits)

text \<open>In a sound store a row with this id that belongs to someone else blocks every access.\<close>

lemma get_foreign:
  assumes "db_inv w" and "t \<in> set (tasks w)" and "t_ID t = i" and "t_UserID t \<noteq> uid"
  shows "TaskService_Get s uid i w \<noteq> (Inr x, w')"
proof
  assume "TaskService_Get s uid i w = (Inr x, w')"
  then have "x \<in> set (tasks w)" and "t_ID x = t_ID t" and "t_UserID x = uid"
    using get_ok assms(3) by auto
  moreover have "distinct (map t_ID (tasks w))"
    using assms(1) by (simp add: db_inv_def ids_ok_def)
  ultimately show False
    using assms(2,4) distinct_key_eq [of t_ID "tasks w" x t] by auto
qed

lemma create_step:
  assumes "TaskService_Create s uid title descr due w = (r, w')"
  shows "others_kept uid w w' \<and> (db_inv w \<longrightarrow> db_inv w')"
  using tr.create_grows tr.create_frame tr.create_inv assms
  unfolding TaskService_Create_def others_kept_def by fastforce

lemma list_step:
  assumes "TaskService_List s uid st l k w = (r, w')"
  shows "same_rows w w' \<and> (db_inv w \<longrightarrow> db_inv w')"
  using assms tr.list_rows tr.list_inv
  by (fastforce simp: TaskService_List_def split: prod.splits sum.splits)

lemma owned_row:
  assumes "db_inv w" and "t \<in> set (tasks w)" and "row \<in> set (tasks w)" and "t_ID row = t_ID t"
  shows "t_UserID row = t_UserID t"
  using assms distinct_key_eq [of t_ID "tasks w" row t] by (auto simp: db_inv_def ids_ok_def)

text \<open>Writes that touch rows of \<open>uid\<close> only.\<close>

lemma update_own:
  assumes "tr_Update (ts_tasks s) t w = (r, w')" and "db_inv w" and "TaskStatus_Valid (t_Status t)"
    and "\<And>row. row \<in> set (tasks w) \<Longrightarrow> t_ID row = t_ID t \<Longrightarrow> t_UserID row = uid"
  shows "others_kept uid w w' \<and> db_inv w'"
proof -
  have "filter (\<lambda>t. t_UserID t \<noteq> uid) (tasks w') = filter (\<lambda>t. t_UserID t \<noteq> uid) (tasks w)"
    using tr.update_rows [OF assms(1)]
  proof
    assume "\<exists>u. tasks w' = update_where (\<lambda>row. t_ID row = t_ID t)
      (\<lambda>row. row\<lparr>t_Title := t_Title t, t_Description := t_Description t, t_Status := t_Status t,
                 t_DueDate := map_option ts (t_DueDate t), t_UpdatedAt := u\<rparr>) (tasks w)"
    then show ?thesis
      using assms(4) by (auto intro!: filter_update_where_in)
  qed simp
  then show ?thesis
    using tr.update_frame [OF assms(1)] tr.update_inv [OF assms(1-3)] by (simp add: others_kept_def)
qed

lemma delete_own:
  assumes "tr_Delete (ts_tasks s) i w = (r, w')" and "db_inv w"
    and "\<And>row. row \<in> set (tasks w) \<Longrightarrow> t_ID row = i \<Longrightarrow> t_UserID row = uid"
  shows "others_kept uid w w' \<and> db_inv w'"
proof -
  have "filter (\<lambda>t. t_UserID t \<noteq> uid) (tasks w') = filter (\<lambda>t. t_UserID t \<noteq> uid) (tasks w)"
    using assms(3) tr.delete_rows [OF assms(1)] by (auto intro!: filter_filter_in simp del: filter_filter)
  then show ?thesis
    using tr.delete_frame [OF assms(1)] tr.delete_inv [OF assms(1,2)] by (simp add: others_kept_def)
qed

lemma update_step:
  assumes "TaskService_Update E s uid i title descr st due w = (r, w')" and "db_inv w"
  shows "others_kept uid w w' \<and> db_inv w'"
proof (cases "TaskService_Get s uid i w")
  case (Pair r1 w1)
  have w1: "same_rows w w1" "db_inv w1"
    using get_rows [OF Pair] assms(2) by auto
  show ?thesis
  proof (cases "\<exists>t. r1 = Inr t \<and> TaskStatus_Valid st")
    case False
    then have "w' = w1"
      using assms(1) Pair by (cases r1) (auto simp: TaskService_Update_def)
    then show ?thesis
      using w1 others_kept_same_rows by auto
  next
    case True
    then obtain t where t: "r1 = Inr t" and valid: "TaskStatus_Valid st"
      by blast
    let ?t = "t\<lparr>t_Title := title, t_Description := descr, t_Status := st, t_DueDate := due\<rparr>"
    have upd: "tr_Update (ts_tasks s) ?t w1 = (r, w')"
      using assms(1) Pair t valid by (simp add: TaskService_Update_def)
    have own: "t \<in> set (tasks w)" "t_UserID t = uid"
      using get_ok Pair t by auto
    have row: "t_UserID row = uid" if "row \<in> set (tasks w1)" "t_ID row = t_ID t" for row
      using that owned_row [OF assms(2) own(1)] own(2) same_rowsD(2) [OF w1(1)] by simp
    have "others_kept uid w1 w' \<and> db_inv w'"
      by (rule update_own [OF upd w1(2)]) (use valid row in simp_all)
    then show ?thesis
      using w1(1) by (simp add: others_kept_def same_rows_def)
  qed
qed

lemma delete_step:
  assumes "TaskService_Delete s uid i w = (r, w')" and "db_inv w"
  shows "others_kept uid w w' \<and> db_inv w'"
proof (cases "TaskService_Get s uid i w")
  case (Pair r1 w1)
  have w1: "same_rows w w1" "db_inv w1"
    using get_rows [OF Pair] assms(2) by auto
  show ?thesis
  proof (cases r1)
    case (Inl e)
    then show ?thesis
      using assms(1) Pair w1 others_kept_same_rows by (auto simp: TaskService_Delete_def)
  next
    case (Inr t)
    have del: "tr_Delete (ts_tasks s) i w1 = (r, w')"
      using assms(1) Pair Inr by (simp add: TaskService_Delete_def)
    have own: "t \<in> set (tasks w)" "t_ID t = i" "t_UserID t = uid"
      using get_ok Pair Inr by auto
    have "t_UserID row = uid" if "row \<in> set (tasks w1)" "t_ID row = i" for row
      using that owned_row [OF assms(2) own(1)] own(2,3) same_rowsD(2) [OF w1(1)] by simp
    then have "others_kept uid w1 w' \<and> db_inv w'"
      by (rule delete_own [OF del w1(2)])
    then show ?thesis
      using w1(1) by (simp add: others_kept_def same_rows_def)
  qed
qed

end

interpretation pg_task: task_service "NewTaskService (NewTaskRepository E)" "env_timestamptz E" for E
  by (simp add: task_service_def pg_tasks.task_repository_axioms)

end
