(* ===== verification/System.thy ===== *)
theory System
  imports AuthService TaskService
begin

text \<open>
  The whole back end as one transition system.  A step (\<open>db_step\<close>) is one call of a repository
  method, or a reading of the clock or of random bytes.  Go serves requests concurrently and
  opens no transaction, so what concurrent requests do to the store is an interleaving of such
  steps: a property of every step holds under every interleaving of every set of requests.
  \<open>serve\<close> runs one request of the API from start to end; that it is a sequence of steps is
  proved, so requests that do not overlap are a special case.
\<close>

abbreviation authService :: "env \<Rightarrow> TokenManager \<Rightarrow> duration \<Rightarrow> AuthService" where
  "authService E tm ttl \<equiv> NewAuthService (NewUserRepository E) (NewRefreshTokenRepository E) tm ttl"

abbreviation taskService :: "env \<Rightarrow> TaskService" where
  "taskService E \<equiv> NewTaskService (NewTaskRepository E)"

text \<open>The calls the services make: a task is stored with a valid status only.\<close>

inductive db_step :: "env \<Rightarrow> world \<Rightarrow> world \<Rightarrow> bool" for E where
  outside: "db_step E w (w\<lparr>tick := Suc (tick w)\<rparr>)"
| user_create: "userRepository_Create E u w = (ru, w') \<Longrightarrow> db_step E w w'"
| user_by_email: "userRepository_FindByEmail E email w = (ru, w') \<Longrightarrow> db_step E w w'"
| user_by_id: "userRepository_FindByID E i w = (ru, w') \<Longrightarrow> db_step E w w'"
| token_create: "refreshTokenRepository_Create E t w = (rt, w') \<Longrightarrow> db_step E w w'"
| token_find: "refreshTokenRepository_FindByHash E h w = (rt, w') \<Longrightarrow> db_step E w w'"
| token_revoke: "refreshTokenRepository_Revoke E i w = (r, w') \<Longrightarrow> db_step E w w'"
| token_revoke_all: "refreshTokenRepository_RevokeAllForUser E uid w = (r, w') \<Longrightarrow> db_step E w w'"
| task_create:
    "taskRepository_Create E x w = (rx, w') \<Longrightarrow> TaskStatus_Valid (t_Status x) \<Longrightarrow> db_step E w w'"
| task_find: "taskRepository_FindByID E i w = (rx, w') \<Longrightarrow> db_step E w w'"
| task_list: "taskRepository_ListByUser E uid p w = (rl, w') \<Longrightarrow> db_step E w w'"
| task_update:
    "taskRepository_Update E x w = (rx, w') \<Longrightarrow> TaskStatus_Valid (t_Status x) \<Longrightarrow> db_step E w w'"
| task_delete: "taskRepository_Delete E i w = (r, w') \<Longrightarrow> db_step E w w'"

abbreviation db_steps :: "env \<Rightarrow> world \<Rightarrow> world \<Rightarrow> bool" where
  "db_steps E \<equiv> (db_step E)\<^sup>*\<^sup>*"

datatype request =
    Req_Signup string string
  | Req_Login string string
  | Req_Refresh string
  | Req_Logout string
  | Req_CreateTask int64 string string "time option"
  | Req_ListTasks int64 TaskStatus int int
  | Req_GetTask int64 int64
  | Req_UpdateTask int64 int64 string string TaskStatus "time option"
  | Req_DeleteTask int64 int64

text \<open>The effect of a request on the store; the result goes back to the client.\<close>

fun serve :: "env \<Rightarrow> TokenManager \<Rightarrow> duration \<Rightarrow> request \<Rightarrow> world \<Rightarrow> world" where
  "serve E tm ttl (Req_Signup email pw) w = snd (AuthService_Signup E (authService E tm ttl) email pw w)"
| "serve E tm ttl (Req_Login email pw) w = snd (AuthService_Login E (authService E tm ttl) email pw w)"
| "serve E tm ttl (Req_Refresh p) w = snd (AuthService_Refresh E (authService E tm ttl) p w)"
| "serve E tm ttl (Req_Logout p) w = snd (AuthService_Logout E (authService E tm ttl) p w)"
| "serve E tm ttl (Req_CreateTask uid title descr due) w =
     snd (TaskService_Create (taskService E) uid title descr due w)"
| "serve E tm ttl (Req_ListTasks uid st l k) w = snd (TaskService_List (taskService E) uid st l k w)"
| "serve E tm ttl (Req_GetTask uid i) w = snd (TaskService_Get (taskService E) uid i w)"
| "serve E tm ttl (Req_UpdateTask uid i title descr st due) w =
     snd (TaskService_Update E (taskService E) uid i title descr st due w)"
| "serve E tm ttl (Req_DeleteTask uid i) w = snd (TaskService_Delete (taskService E) uid i w)"

subsection \<open>Every step\<close>

lemmas pg_token_facts =
  pg_tokens.create_grows [unfolded NewRefreshTokenRepository_sel]
  pg_tokens.create_frame [unfolded NewRefreshTokenRepository_sel]
  pg_tokens.create_inv [unfolded NewRefreshTokenRepository_sel]
  pg_tokens.find_rows [unfolded NewRefreshTokenRepository_sel]
  pg_tokens.find_inv [unfolded NewRefreshTokenRepository_sel]
  pg_tokens.revoke_from [unfolded NewRefreshTokenRepository_sel]
  pg_tokens.revoke_inv [unfolded NewRefreshTokenRepository_sel]
  pg_tokens.revoke_all_from [unfolded NewRefreshTokenRepository_sel]
  pg_tokens.revoke_all_inv [unfolded NewRefreshTokenRepository_sel]

lemmas pg_user_facts =
  pg_users.create_grows [unfolded NewUserRepository_sel]
  pg_users.create_frame [unfolded NewUserRepository_sel]
  pg_users.create_inv [unfolded NewUserRepository_sel]
  pg_users.find_email_rows [unfolded NewUserRepository_sel]
  pg_users.find_email_inv [unfolded NewUserRepository_sel]
  pg_users.find_id_rows [unfolded NewUserRepository_sel]

lemmas pg_task_facts =
  pg_tasks.create_frame [unfolded NewTaskRepository_sel]
  pg_tasks.create_inv [unfolded NewTaskRepository_sel]
  pg_tasks.find_rows [unfolded NewTaskRepository_sel]
  pg_tasks.find_inv [unfolded NewTaskRepository_sel]
  pg_tasks.list_rows [unfolded NewTaskRepository_sel]
  pg_tasks.list_inv [unfolded NewTaskRepository_sel]
  pg_tasks.update_frame [unfolded NewTaskRepository_sel]
  pg_tasks.update_inv [unfolded NewTaskRepository_sel]
  pg_tasks.delete_frame [unfolded NewTaskRepository_sel]
  pg_tasks.delete_inv [unfolded NewTaskRepository_sel]

lemma user_by_id_inv: "userRepository_FindByID E i w = (r, w') \<Longrightarrow> db_inv w \<Longrightarrow> db_inv w'"
  by (auto simp: repo_defs split: prod.splits sum.splits if_splits dest!: select_user_call)

lemma db_step_inv: "db_step E w w' \<Longrightarrow> db_inv w \<Longrightarrow> db_inv w'"
  by (induction rule: db_step.induct)
    (simp_all add: pg_token_facts pg_user_facts pg_task_facts user_by_id_inv)

lemma db_step_tokens: "db_step E w w' \<Longrightarrow> tokens_evolve (refresh_tokens w) (refresh_tokens w')"
proof (induction rule: db_step.induct)
  case (token_create t w rt w')
  then show ?case
    using pg_token_facts(1) by fastforce
next
  case (token_revoke i w r w')
  then show ?case
    using pg_token_facts(6) tokens_evolve_revoked_from by blast
next
  case (token_revoke_all uid w r w')
  then show ?case
    using pg_token_facts(8) tokens_evolve_revoked_from by blast
qed (auto dest!: pg_token_facts(4) pg_user_facts(2,4,6) pg_task_facts(1,3,5,7,9))

lemma db_step_users: "db_step E w w' \<Longrightarrow> \<exists>new. users w' = users w @ new"
proof (induction rule: db_step.induct)
  case (user_create u w ru w')
  then show ?case
    using pg_user_facts(1) by fastforce
qed (auto dest!: pg_token_facts(2,4,6,8) pg_user_facts(4,6) pg_task_facts(1,3,5,7,9))

lemma db_steps_inv: "db_steps E w w' \<Longrightarrow> db_inv w \<Longrightarrow> db_inv w'"
  by (induction rule: rtranclp_induct) (auto dest: db_step_inv)

lemma db_steps_tokens: "db_steps E w w' \<Longrightarrow> tokens_evolve (refresh_tokens w) (refresh_tokens w')"
  by (induction rule: rtranclp_induct) (auto dest: db_step_tokens intro: tokens_evolve_trans)

lemma db_steps_users: "db_steps E w w' \<Longrightarrow> \<exists>new. users w' = users w @ new"
  by (induction rule: rtranclp_induct) (auto dest!: db_step_users)

subsection \<open>Requests are sequences of steps\<close>

lemma db_steps_tick: "n \<le> m \<Longrightarrow> db_steps E (w\<lparr>tick := n\<rparr>) (w\<lparr>tick := m\<rparr>)"
proof (induction m)
  case 0
  then show ?case by simp
next
  case (Suc m)
  show ?case
  proof (cases "n = Suc m")
    case True
    then show ?thesis by simp
  next
    case False
    then have "db_steps E (w\<lparr>tick := n\<rparr>) (w\<lparr>tick := m\<rparr>)"
      using Suc by simp
    then show ?thesis
      using outside [of E "w\<lparr>tick := m\<rparr>"] by (auto intro: rtranclp.rtrancl_into_rtrancl)
  qed
qed

text \<open>Composition: a step that follows a sequence of steps.\<close>

lemma db_steps_snoc: "db_steps E w w1 \<Longrightarrow> db_step E w1 w2 \<Longrightarrow> db_steps E w w2"
  by (rule rtranclp.rtrancl_into_rtrancl)

lemma db_steps_tick_self: "tick w \<le> n \<Longrightarrow> db_steps E w (w\<lparr>tick := n\<rparr>)"
  using db_steps_tick [of "tick w" n E w] by simp

lemma issue_steps:
  assumes "issueTokenPair E (authService E tm ttl) uid w = (r, w')"
  shows "db_steps E w w'"
  using assms
proof (cases rule: issueTokenPair_cases)
  case (Early e n)
  then show ?thesis
    using db_steps_tick_self by simp
next
  case (Persist a p x rc)
  then show ?thesis
    using db_steps_snoc [OF db_steps_tick_self [of w "tick w + 4" E]] token_create by simp
qed

lemma refresh_steps:
  assumes "AuthService_Refresh E (authService E tm ttl) p w = (r, w')"
  shows "db_steps E w w'"
  using assms
proof (cases rule: Refresh_cases)
  case (Rotated t w1 w2)
  have "db_steps E w (w1\<lparr>tick := Suc (tick w1)\<rparr>)"
    using Rotated(1) by (auto intro: db_steps_snoc token_find outside)
  then have "db_steps E w w2"
    using Rotated(4) by (auto intro: db_steps_snoc token_revoke)
  then show ?thesis
    using issue_steps [OF Rotated(5)] by simp
next
  case (Raced t w1 e)
  have "db_steps E w (w1\<lparr>tick := Suc (tick w1)\<rparr>)"
    using Raced(1) by (auto intro: db_steps_snoc token_find outside)
  then show ?thesis
    using Raced(4) by (auto intro: db_steps_snoc token_revoke)
qed (auto intro: db_steps_snoc token_find token_revoke_all outside)

lemma logout_steps:
  assumes "AuthService_Logout E (authService E tm ttl) p w = (r, w')"
  shows "db_steps E w w'"
  using assms by (cases rule: Logout_cases) (auto intro: db_steps_snoc token_find token_revoke)

lemma login_steps:
  assumes "AuthService_Login E (authService E tm ttl) email pw w = (r, w')"
  shows "db_steps E w w'"
  using assms
  by (cases rule: Login_cases)
    (auto intro: db_steps_snoc user_by_email rtranclp_trans [OF _ issue_steps])

lemma signup_steps:
  assumes "AuthService_Signup E (authService E tm ttl) email pw w = (r, w')"
  shows "db_steps E w w'"
  using assms
proof (cases rule: Signup_cases)
  case (CreateFails h e)
  then show ?thesis
    using db_steps_snoc [OF db_steps_tick_self [of w "Suc (tick w)" E]] user_create by simp
next
  case (Issue h u w1 ri)
  then have "db_steps E w w1"
    using db_steps_snoc [OF db_steps_tick_self [of w "Suc (tick w)" E]] user_create by simp
  then show ?thesis
    using issue_steps [OF Issue(3)] by simp
qed (simp add: db_steps_tick_self)

lemma get_steps: "TaskService_Get (taskService E) uid i w = (r, w') \<Longrightarrow> db_step E w w'"
  by (auto simp: TaskService_Get_def split: prod.splits sum.splits if_splits intro: task_find)

lemma update_steps:
  "TaskService_Update E (taskService E) uid i title descr st due w = (r, w') \<Longrightarrow> db_steps E w w'"
  using get_steps [of E uid i w] task_update [of E _ _ r w']
  by (fastforce simp: TaskService_Update_def split: prod.splits sum.splits if_splits
      intro: db_steps_snoc)

lemma delete_steps: "TaskService_Delete (taskService E) uid i w = (r, w') \<Longrightarrow> db_steps E w w'"
  by (auto simp: TaskService_Delete_def split: prod.splits sum.splits if_splits
      intro: db_steps_snoc get_steps task_delete)

lemma create_steps: "TaskService_Create (taskService E) uid title descr due w = (r, w') \<Longrightarrow> db_step E w w'"
  by (auto simp: TaskService_Create_def intro: task_create)

lemma list_steps: "TaskService_List (taskService E) uid st l k w = (r, w') \<Longrightarrow> db_step E w w'"
  by (auto simp: TaskService_List_def split: prod.splits sum.splits intro: task_list)

lemma serve_steps: "db_steps E w (serve E tm ttl req w)"
proof (cases req)
  case (Req_UpdateTask uid i title descr st due)
  then show ?thesis
    using update_steps by (metis prod.collapse serve.simps(8))
next
  case (Req_DeleteTask uid i)
  then show ?thesis
    using delete_steps by (metis prod.collapse serve.simps(9))
qed (simp_all, (metis prod.collapse signup_steps login_steps refresh_steps logout_steps
  create_steps list_steps get_steps r_into_rtranclp)+)

end
