(* ===== verification/ErrorClasses.thy ===== *)
theory ErrorClasses
  imports System
begin

text \<open>
  Which errors an operation can return.  A client sees an error by the sentinel of \<open>domain/errors.go\<close> that
  it is or wraps, so an operation is typed by the set of sentinels its errors can carry; an error without any is
  an internal one.
\<close>

definition sentinels :: "error set" where
  "sentinels = {ErrNotFound, ErrAlreadyExists, ErrInvalidCredentials, ErrForbidden, ErrValidation, ErrTokenInvalid}"

text \<open>The sentinels an error carries are among \<open>S\<close>.\<close>

definition carries_only :: "error set \<Rightarrow> error \<Rightarrow> bool" where
  "carries_only S e \<longleftrightarrow> (\<forall>t \<in> sentinels. errors_Is e t \<longrightarrow> t \<in> S)"

definition fails_with :: "error set \<Rightarrow> 'a op \<Rightarrow> bool" where
  "fails_with S f \<longleftrightarrow> (\<forall>w e w'. f w = (Inl e, w') \<longrightarrow> carries_only S e)"

lemma carries_only_mono: "carries_only S e \<Longrightarrow> S \<subseteq> T \<Longrightarrow> carries_only T e"
  by (auto simp: carries_only_def)

lemma fails_withD: "fails_with S f \<Longrightarrow> f w = (Inl e, w') \<Longrightarrow> S \<subseteq> T \<Longrightarrow> carries_only T e"
  unfolding fails_with_def by (blast intro: carries_only_mono)

lemma carries_only_Wrap [simp]: "carries_only S (Wrap p e s) = carries_only S e"
  by (simp add: carries_only_def sentinels_def)

lemma carries_only_plain [simp]:
  "carries_only S (ErrDriver msg)" "carries_only S (PgError code txt)" "carries_only S (NumError f n r)"
  "carries_only S (ErrText txt)" "carries_only S ErrNoRows"
  by (simp_all add: carries_only_def sentinels_def)

lemma carries_only_sentinel [simp]: "t \<in> S \<Longrightarrow> t \<in> sentinels \<Longrightarrow> carries_only S t"
  by (auto simp: carries_only_def sentinels_def)

lemma sentinel [simp]: "ErrNotFound \<in> sentinels" "ErrAlreadyExists \<in> sentinels" "ErrInvalidCredentials \<in> sentinels"
  "ErrForbidden \<in> sentinels" "ErrValidation \<in> sentinels" "ErrTokenInvalid \<in> sentinels"
  by (simp_all add: sentinels_def)

text \<open>
  What is relied on of the libraries and of the random source: their errors are their own, not the sentinels
  of package \<open>domain\<close>.
\<close>

definition foreign_errors :: "env \<Rightarrow> bool" where
  "foreign_errors E \<longleftrightarrow>
     (\<forall>n pw e. env_GenerateFromPassword E n pw = Inl e \<longrightarrow> carries_only {} e) \<and>
     (\<forall>m c k e. env_SignedString E m c k = Inl e \<longrightarrow> carries_only {} e) \<and>
     (\<forall>n k e. env_rand E n k = Inl e \<longrightarrow> carries_only {} e)"

lemma example_foreign_errors: "foreign_errors example_env"
  by (auto simp: foreign_errors_def example_hash_def example_SignedString_def split: SigningMethod.splits if_splits)

subsection \<open>The repositories\<close>

text \<open>A statement fails with an error of the server or the driver.\<close>

lemma stmt_errors:
  "sql_insert_user E a b n v = (Inl e, v') \<Longrightarrow> carries_only {} e"
  "sql_select_user p n v = (Inl e, v') \<Longrightarrow> carries_only {} e"
  "sql_insert_refresh_token E i a c n v = (Inl e, v') \<Longrightarrow> carries_only {} e"
  "sql_select_refresh_token h n v = (Inl e, v') \<Longrightarrow> carries_only {} e"
  "sql_revoke_where E q n v = (Inl e, v') \<Longrightarrow> carries_only {} e"
  "sql_insert_task E x n v = (Inl e, v') \<Longrightarrow> carries_only {} e"
  "sql_update_task E x n v = (Inl e, v') \<Longrightarrow> carries_only {} e"
  "sql_delete_task i n v = (Inl e, v') \<Longrightarrow> carries_only {} e"
  "sql_select_task i n v = (Inl e, v') \<Longrightarrow> carries_only {} e"
  "sql_count_tasks f n v = (Inl e, v') \<Longrightarrow> carries_only {} e"
  "sql_list_tasks E f l k n v = (Inl e, v') \<Longrightarrow> carries_only {} e"
  by (auto simp: sql_defs Let_def sequence_limit_exceeded_def unique_violation_def foreign_key_violation_def
      split: option.splits if_splits)

lemma db_call_errors:
  assumes "db_call E stmt w = (Inl e, w')" and "\<And>n v v'. stmt n v = (Inl e, v') \<Longrightarrow> carries_only {} e"
  shows "carries_only {} e"
  using db_call_InlD [OF assms(1)] assms(2) by auto

lemma call_errors:
  "db_call E (sql_insert_user E a b) w = (Inl e, w') \<Longrightarrow> carries_only {} e"
  "db_call E (sql_select_user p) w = (Inl e, w') \<Longrightarrow> carries_only {} e"
  "db_call E (sql_insert_refresh_token E i a c) w = (Inl e, w') \<Longrightarrow> carries_only {} e"
  "db_call E (sql_select_refresh_token h) w = (Inl e, w') \<Longrightarrow> carries_only {} e"
  "db_call E (sql_revoke_where E q) w = (Inl e, w') \<Longrightarrow> carries_only {} e"
  "db_call E (sql_insert_task E x) w = (Inl e, w') \<Longrightarrow> carries_only {} e"
  "db_call E (sql_update_task E x) w = (Inl e, w') \<Longrightarrow> carries_only {} e"
  "db_call E (sql_delete_task j) w = (Inl e, w') \<Longrightarrow> carries_only {} e"
  "db_call E (sql_select_task j) w = (Inl e, w') \<Longrightarrow> carries_only {} e"
  "db_call E (sql_count_tasks f) w = (Inl e, w') \<Longrightarrow> carries_only {} e"
  "db_call E (sql_list_tasks E f l k) w = (Inl e, w') \<Longrightarrow> carries_only {} e"
  by (erule db_call_errors, erule stmt_errors)+

lemma read_row_errors: "read_row E w = (Inl e, w') \<Longrightarrow> carries_only {} e"
  unfolding read_row_def by (erule db_call_errors) simp

lemma scan_errors: "scan_tasks E rows acc w = (Inl e, w') \<Longrightarrow> carries_only {} e"
  by (induction E rows acc w rule: scan_tasks.induct) (auto split: prod.splits sum.splits dest: read_row_errors)

lemma find_errors:
  "userRepository_FindByEmail E email w = (Inl e, w') \<Longrightarrow> e = ErrNotFound \<or> carries_only {} e"
  "refreshTokenRepository_FindByHash E h w = (Inl e, w') \<Longrightarrow> e = ErrNotFound \<or> carries_only {} e"
  by (auto simp: repo_defs split: prod.splits sum.splits if_splits dest!: call_errors)

lemma repository_errors:
  "fails_with {ErrAlreadyExists} (userRepository_Create E u)"
  "fails_with {} (refreshTokenRepository_Create E t)"
  "fails_with {ErrNotFound} (refreshTokenRepository_Revoke E i)"
  "fails_with {} (refreshTokenRepository_RevokeAllForUser E uid)"
  "fails_with {} (taskRepository_Create E x)"
  "fails_with {ErrNotFound} (taskRepository_FindByID E i)"
  "fails_with {ErrNotFound} (taskRepository_Update E x)"
  "fails_with {ErrNotFound} (taskRepository_Delete E i)"
  by (auto simp: fails_with_def repo_defs split: prod.splits sum.splits if_splits option.splits
      dest!: call_errors intro: carries_only_mono [of "{}"])

lemma list_errors: "fails_with {} (taskRepository_ListByUser E uid p)"
  by (auto simp: fails_with_def repo_defs Let_def split: prod.splits sum.splits dest!: call_errors scan_errors)

subsection \<open>The services\<close>

lemma issue_errors:
  assumes "foreign_errors E"
  shows "fails_with {} (issueTokenPair E (authService E tm ttl) uid)"
  using assms
  by (auto intro: fails_withD [OF repository_errors(2)] simp: fails_with_def [of "{}" "issueTokenPair _ _ _"] issueTokenPair_def TokenManager_Generate_def generateRefreshToken_def time_Now_def Let_def
      foreign_errors_def split: prod.splits sum.splits)

lemma Signup_errors:
  assumes "foreign_errors E"
  shows "fails_with {ErrAlreadyExists} (AuthService_Signup E (authService E tm ttl) email pw)"
  unfolding fails_with_def
proof (intro allI impI)
  fix w e w'
  assume "AuthService_Signup E (authService E tm ttl) email pw w = (Inl e, w')"
  then show "carries_only {ErrAlreadyExists} e"
  proof (cases rule: Signup_cases)
    case (HashFails e1)
    then show ?thesis
      using assms by (auto simp: foreign_errors_def intro: carries_only_mono)
  next
    case (CreateFails h e1)
    then show ?thesis
      by (auto intro: fails_withD [OF repository_errors(1)])
  next
    case (Issue h u w1 ri)
    then show ?thesis
      by (cases ri) (auto intro: fails_withD [OF issue_errors [OF assms]])
  qed
qed

lemma Login_errors:
  assumes "foreign_errors E"
  shows "fails_with {ErrInvalidCredentials} (AuthService_Login E (authService E tm ttl) email pw)"
  unfolding fails_with_def
proof (intro allI impI)
  fix w e w'
  assume "AuthService_Login E (authService E tm ttl) email pw w = (Inl e, w')"
  then show "carries_only {ErrInvalidCredentials} e"
  proof (cases rule: Login_cases)
    case (NoUser e1)
    then show ?thesis
      using find_errors(1) [of E email w e1 w'] by (auto intro: carries_only_mono)
  next
    case (Issue u w1 ri)
    then show ?thesis
      by (cases ri) (auto intro: fails_withD [OF issue_errors [OF assms]])
  qed simp
qed

lemma Refresh_errors:
  assumes "foreign_errors E"
  shows "fails_with {ErrTokenInvalid, ErrNotFound} (AuthService_Refresh E (authService E tm ttl) p)"
  unfolding fails_with_def
proof (intro allI impI)
  fix w e w'
  assume "AuthService_Refresh E (authService E tm ttl) p w = (Inl e, w')"
  then show "carries_only {ErrTokenInvalid, ErrNotFound} e"
  proof (cases rule: Refresh_cases)
    case (Unknown e1)
    then show ?thesis
      using find_errors(2) [of E "hashRefreshToken p" w e1 w'] by (auto intro: carries_only_mono)
  next
    case (Reused t w1 ra)
    then show ?thesis
      by (cases ra) (auto intro: fails_withD [OF repository_errors(4)])
  next
    case (Raced t w1 e1)
    then show ?thesis
      by (auto intro: fails_withD [OF repository_errors(3)])
  next
    case (Rotated t w1 w2)
    then show ?thesis
      by (auto intro: fails_withD [OF issue_errors [OF assms]])
  qed simp
qed

lemma Logout_errors: "fails_with {ErrTokenInvalid, ErrNotFound} (AuthService_Logout E (authService E tm ttl) p)"
  unfolding fails_with_def
proof (intro allI impI)
  fix w e w'
  assume "AuthService_Logout E (authService E tm ttl) p w = (Inl e, w')"
  then show "carries_only {ErrTokenInvalid, ErrNotFound} e"
  proof (cases rule: Logout_cases)
    case (Unknown e1)
    then show ?thesis
      using find_errors(2) [of E "hashRefreshToken p" w e1 w'] by (auto intro: carries_only_mono)
  next
    case (Revoking t w1)
    then show ?thesis
      by (auto intro: fails_withD [OF repository_errors(3)])
  qed simp
qed

lemma task_errors:
  "fails_with {} (TaskService_Create (taskService E) uid title descr due)"
  "fails_with {} (TaskService_List (taskService E) uid st l k)"
  "fails_with {ErrNotFound, ErrForbidden} (TaskService_Get (taskService E) uid i)"
  "TaskStatus_Valid st \<Longrightarrow>
     fails_with {ErrNotFound, ErrForbidden} (TaskService_Update E (taskService E) uid i title descr st due)"
  "fails_with {ErrNotFound, ErrForbidden} (TaskService_Delete (taskService E) uid i)"
proof -
  show get: "fails_with {ErrNotFound, ErrForbidden} (TaskService_Get (taskService E) uid i)"
    unfolding fails_with_def
    by (auto simp: TaskService_Get_def split: prod.splits sum.splits if_splits intro: fails_withD [OF repository_errors(6)])
  show "fails_with {} (TaskService_Create (taskService E) uid title descr due)"
    unfolding fails_with_def by (auto simp: TaskService_Create_def intro: fails_withD [OF repository_errors(5)])
  show "fails_with {} (TaskService_List (taskService E) uid st l k)"
    unfolding fails_with_def
    by (auto simp: TaskService_List_def split: prod.splits sum.splits intro: fails_withD [OF list_errors])
  show "fails_with {ErrNotFound, ErrForbidden} (TaskService_Update E (taskService E) uid i title descr st due)"
    if "TaskStatus_Valid st"
    unfolding fails_with_def using that
    by (auto simp: TaskService_Update_def split: prod.splits sum.splits if_splits
        intro: fails_withD [OF get] fails_withD [OF repository_errors(7)])
  show "fails_with {ErrNotFound, ErrForbidden} (TaskService_Delete (taskService E) uid i)"
    unfolding fails_with_def
    by (auto simp: TaskService_Delete_def split: prod.splits sum.splits
        intro: fails_withD [OF get] fails_withD [OF repository_errors(8)])
qed

end
