(* ===== verification/Simulation.thy ===== *)
theory Simulation
  imports ErrorClasses
begin

text \<open>
  Refinement.  An implementation refines a specification when every sequence of calls gets replies the
  specification allows, between the abstract states its own states stand for; it is enough that single calls
  do (locale \<open>simulation\<close>).  \<open>TaskBook\<close> and \<open>AuthBook\<close> interpret it on the two services.
\<close>

text \<open>Calls one after the other, and the sequences of calls and replies a specification allows.\<close>

fun replies :: "('c \<Rightarrow> 's \<Rightarrow> 'r \<times> 's) \<Rightarrow> 'c list \<Rightarrow> 's \<Rightarrow> 'r list \<times> 's" where
  "replies exec [] s = ([], s)"
| "replies exec (c # cs) s =
     (case exec c s of (r, s1) \<Rightarrow> (case replies exec cs s1 of (rs, s2) \<Rightarrow> (r # rs, s2)))"

inductive allows :: "('a \<Rightarrow> 'c \<Rightarrow> 'r \<Rightarrow> 'a \<Rightarrow> bool) \<Rightarrow> 'a \<Rightarrow> 'c list \<Rightarrow> 'r list \<Rightarrow> 'a \<Rightarrow> bool" for spec where
  none: "allows spec a [] [] a"
| one_more: "spec a c r b \<Longrightarrow> allows spec b cs rs d \<Longrightarrow> allows spec a (c # cs) (r # rs) d"

inductive_cases allows_ConsE: "allows spec a (c # cs) rs d"

locale simulation =
  fixes inv :: "'s \<Rightarrow> bool" and abs :: "'s \<Rightarrow> 'a" and exec :: "'c \<Rightarrow> 's \<Rightarrow> 'r \<times> 's"
    and spec :: "'a \<Rightarrow> 'c \<Rightarrow> 'r \<Rightarrow> 'a \<Rightarrow> bool"
  assumes simulates: "inv s \<Longrightarrow> exec c s = (r, s') \<Longrightarrow> inv s' \<and> spec (abs s) c r (abs s')"
begin

lemma calls_allowed:
  "inv s \<Longrightarrow> replies exec cs s = (rs, s') \<Longrightarrow> inv s' \<and> allows spec (abs s) cs rs (abs s')"
proof (induction cs arbitrary: s rs)
  case Nil
  then show ?case
    by (auto intro: none)
next
  case (Cons c cs)
  obtain r s1 rs1 where "exec c s = (r, s1)" "replies exec cs s1 = (rs1, s')" "rs = r # rs1"
    using Cons.prems(2) by (auto split: prod.splits)
  then show ?case
    using simulates [OF Cons.prems(1)] Cons.IH [of s1 rs1] by (auto intro: one_more)
qed

end

text \<open>An error that carries none of the sentinels: the client sees an internal error.\<close>

abbreviation internal :: "error \<Rightarrow> bool" where
  "internal \<equiv> carries_only {}"

lemma map_prod_idE:
  assumes "map_prod f id p = (r, s)"
  obtains x where "p = (x, s)" and "r = f x"
  using assms by (cases p) auto

end
