(* ===== verification/Sessions.thy ===== *)
theory Sessions
  imports System
begin

text \<open>
  Concurrent refreshes.  \<open>AuthService.Refresh\<close> makes up to three statements (find, revoke,
  insert) with nothing that holds them together, so two clients that present the same token race.
  \<open>refresh_step\<close> runs the operation, \<open>issueTokenPair\<close> included, one call at a time from a program
  counter: a call is a statement, a reading of the clock or of random bytes, or the signing of an
  access token (which reads the clock twice and touches nothing the threads share).  \<open>race_step\<close>
  interleaves any number of such threads with each other and with any other step of the system.
  Run without interference, the threads compute \<open>AuthService_Refresh\<close>.
\<close>

datatype refresh_pc =
    RStart
  | RReused RefreshToken
  | RFound RefreshToken
  | RLive RefreshToken
  | RRevoked int64
  | RSigned int64 string
  | RDrawn int64 string string string
  | RStamped string string RefreshToken
  | RDone "error + string \<times> string"

fun refresh_step :: "env \<Rightarrow> AuthService \<Rightarrow> string \<Rightarrow> refresh_pc \<times> world \<Rightarrow> refresh_pc \<times> world" where
  "refresh_step E s plaintext (RStart, w) =
     (case rr_FindByHash (as_refreshTokens s) (hashRefreshToken plaintext) w of
        (Inl err, w1) \<Rightarrow> (RDone (Inl (if err = ErrNotFound then ErrTokenInvalid else err)), w1)
      | (Inr existing, w1) \<Rightarrow>
          (if RefreshToken_Revoked existing then RReused existing else RFound existing, w1))"
| "refresh_step E s plaintext (RReused existing, w) =
     (case rr_RevokeAllForUser (as_refreshTokens s) (rt_UserID existing) w of
        (Inl revokeErr, w1) \<Rightarrow>
          (RDone (Inl (Wrap ''revoke all refresh tokens after reuse detected: '' revokeErr '''')), w1)
      | (Inr _, w1) \<Rightarrow> (RDone (Inl ErrTokenInvalid), w1))"
| "refresh_step E s plaintext (RFound existing, w) =
     (case time_Now E w of
        (now, w1) \<Rightarrow>
          (if RefreshToken_Expired now existing then RDone (Inl ErrTokenInvalid) else RLive existing, w1))"
| "refresh_step E s plaintext (RLive existing, w) =
     (case rr_Revoke (as_refreshTokens s) (rt_ID existing) w of
        (Inl err, w1) \<Rightarrow> (RDone (Inl (Wrap ''revoke used refresh token: '' err '''')), w1)
      | (Inr _, w1) \<Rightarrow> (RRevoked (rt_UserID existing), w1))"
| "refresh_step E s plaintext (RRevoked userID, w) =
     (case TokenManager_Generate E (as_tokens s) userID w of
        (Inl err, w1) \<Rightarrow> (RDone (Inl (Wrap ''generate access token: '' err '''')), w1)
      | (Inr accessToken, w1) \<Rightarrow> (RSigned userID accessToken, w1))"
| "refresh_step E s plaintext (RSigned userID accessToken, w) =
     (case generateRefreshToken E w of
        (Inl err, w1) \<Rightarrow> (RDone (Inl err), w1)
      | (Inr (newPlaintext, hash), w1) \<Rightarrow> (RDrawn userID accessToken newPlaintext hash, w1))"
| "refresh_step E s plaintext (RDrawn userID accessToken newPlaintext hash, w) =
     (case time_Now E w of
        (now, w1) \<Rightarrow>
          (RStamped accessToken newPlaintext (new_refresh_token userID hash (now + as_refreshTTL s)), w1))"
| "refresh_step E s plaintext (RStamped accessToken newPlaintext token, w) =
     (case rr_Create (as_refreshTokens s) token w of
        (Inl err, w1) \<Rightarrow> (RDone (Inl (Wrap ''persist refresh token: '' err '''')), w1)
      | (Inr _, w1) \<Rightarrow> (RDone (Inr (accessToken, newPlaintext)), w1))"
| "refresh_step E s plaintext (RDone r, w) = (RDone r, w)"

text \<open>A configuration: the store, and for every thread the token it presents and where it is.\<close>

type_synonym race = "world \<times> (nat \<Rightarrow> string \<times> refresh_pc)"

inductive race_step :: "env \<Rightarrow> AuthService \<Rightarrow> race \<Rightarrow> race \<Rightarrow> bool" for E s where
  thread: "th i = (p, pc) \<Longrightarrow> refresh_step E s p (pc, w) = (pc', w') \<Longrightarrow>
     race_step E s (w, th) (w', th(i := (p, pc')))"
| other: "db_step E w w' \<Longrightarrow> race_step E s (w, th) (w', th)"

inductive_cases race_stepE: "race_step E s (w, th) c"

text \<open>A thread has won its token when its \<open>Revoke\<close> went through.\<close>

fun won :: "refresh_pc \<Rightarrow> bool" where
  "won (RRevoked _) = True"
| "won (RSigned _ _) = True"
| "won (RDrawn _ _ _ _) = True"
| "won (RStamped _ _ _) = True"
| "won (RDone (Inr _)) = True"
| "won _ = False"

text \<open>The row a thread has read and not yet revoked.\<close>

fun pending :: "refresh_pc \<Rightarrow> RefreshToken option" where
  "pending (RFound t) = Some t"
| "pending (RLive t) = Some t"
| "pending _ = None"

subsection \<open>Without interference the threads compute Refresh\<close>

text \<open>Seven calls of a thread that runs alone give the result and the store of
  \<open>AuthService_Refresh\<close>, so the interleaving model runs the operation of the service.\<close>

theorem Refresh_as_steps:
  "(refresh_step E s p ^^ 7) (RStart, w) =
     (RDone (fst (AuthService_Refresh E s p w)), snd (AuthService_Refresh E s p w))"
  by (auto simp: AuthService_Refresh_def issueTokenPair_def time_Now_def numeral_eq_Suc
      split: prod.splits sum.splits)

subsection \<open>The invariant of a race\<close>

text \<open>
  The store is sound; a row a thread is about to revoke is in the table under the hash of its
  token; a thread that has won left the row with its hash revoked; no two winners share a hash.
\<close>

definition race_inv :: "race \<Rightarrow> bool" where
  "race_inv c \<longleftrightarrow>
     (case c of (w, th) \<Rightarrow>
        db_inv w \<and>
        (\<forall>i t. pending (snd (th i)) = Some t \<longrightarrow>
           (\<exists>row \<in> set (refresh_tokens w). rt_ID row = rt_ID t \<and> rt_TokenHash row = hashRefreshToken (fst (th i)))) \<and>
        (\<forall>i. won (snd (th i)) \<longrightarrow>
           (\<exists>row \<in> set (refresh_tokens w). rt_TokenHash row = hashRefreshToken (fst (th i)) \<and> RefreshToken_Revoked row)) \<and>
        (\<forall>i j. i \<noteq> j \<longrightarrow> won (snd (th i)) \<longrightarrow> won (snd (th j)) \<longrightarrow>
           hashRefreshToken (fst (th i)) \<noteq> hashRefreshToken (fst (th j))))"

lemma race_invD:
  assumes "race_inv (w, th)"
  shows "db_inv w"
    and "th i = (p, pc) \<Longrightarrow> pending pc = Some t \<Longrightarrow>
      \<exists>row \<in> set (refresh_tokens w). rt_ID row = rt_ID t \<and> rt_TokenHash row = hashRefreshToken p"
    and "th i = (p, pc) \<Longrightarrow> won pc \<Longrightarrow>
      \<exists>row \<in> set (refresh_tokens w). rt_TokenHash row = hashRefreshToken p \<and> RefreshToken_Revoked row"
    and "th i = (p, pc) \<Longrightarrow> th j = (q, pc') \<Longrightarrow> i \<noteq> j \<Longrightarrow> won pc \<Longrightarrow> won pc' \<Longrightarrow>
      hashRefreshToken p \<noteq> hashRefreshToken q"
proof -
  have inv: "db_inv w"
    "\<forall>i t. pending (snd (th i)) = Some t \<longrightarrow> (\<exists>row \<in> set (refresh_tokens w).
       rt_ID row = rt_ID t \<and> rt_TokenHash row = hashRefreshToken (fst (th i)))"
    "\<forall>i. won (snd (th i)) \<longrightarrow> (\<exists>row \<in> set (refresh_tokens w).
       rt_TokenHash row = hashRefreshToken (fst (th i)) \<and> RefreshToken_Revoked row)"
    "\<forall>i j. i \<noteq> j \<longrightarrow> won (snd (th i)) \<longrightarrow> won (snd (th j)) \<longrightarrow>
       hashRefreshToken (fst (th i)) \<noteq> hashRefreshToken (fst (th j))"
    using assms by (simp_all add: race_inv_def)
  show "db_inv w"
    by (fact inv(1))
  show "\<exists>row \<in> set (refresh_tokens w). rt_ID row = rt_ID t \<and> rt_TokenHash row = hashRefreshToken p"
    if "th i = (p, pc)" "pending pc = Some t"
    using inv(2) [rule_format, of i t] that by simp
  show "\<exists>row \<in> set (refresh_tokens w). rt_TokenHash row = hashRefreshToken p \<and> RefreshToken_Revoked row"
    if "th i = (p, pc)" "won pc"
    using inv(3) [rule_format, of i] that by simp
  show "hashRefreshToken p \<noteq> hashRefreshToken q"
    if "th i = (p, pc)" "th j = (q, pc')" "i \<noteq> j" "won pc" "won pc'"
    using inv(4) [rule_format, of i j] that by simp
qed

text \<open>The clauses about rows survive every evolution of the table.\<close>

lemma race_rows_evolve:
  assumes "tokens_evolve toks toks'" and "\<exists>row \<in> set toks. rt_ID row = k \<and> rt_TokenHash row = h"
  shows "\<exists>row \<in> set toks'. rt_ID row = k \<and> rt_TokenHash row = h"
proof -
  obtain row where "row \<in> set toks" and row: "rt_ID row = k" "rt_TokenHash row = h"
    using assms(2) by blast
  from tokens_evolve_fwd [OF assms(1) this(1)] obtain row' where "row' \<in> set toks'"
    and "row' = row \<or> (\<exists>c. row' = row\<lparr>rt_RevokedAt := Some c\<rparr>)"
    by blast
  then show ?thesis
    using row by (intro bexI [of _ row']) auto
qed

lemma revoked_rows_evolve:
  assumes "tokens_evolve toks toks'" and "\<exists>row \<in> set toks. rt_TokenHash row = h \<and> RefreshToken_Revoked row"
  shows "\<exists>row \<in> set toks'. rt_TokenHash row = h \<and> RefreshToken_Revoked row"
  using assms tokens_evolve_revoked by blast

lemma race_inv_store:
  assumes "race_inv (w, th)" and "db_inv w'" and "tokens_evolve (refresh_tokens w) (refresh_tokens w')"
  shows "race_inv (w', th)"
  using assms unfolding race_inv_def by (auto intro: race_rows_evolve revoked_rows_evolve)

lemma race_inv_thread:
  assumes "race_inv (w, th)"
    and "\<And>t. pending pc = Some t \<Longrightarrow>
      \<exists>row \<in> set (refresh_tokens w). rt_ID row = rt_ID t \<and> rt_TokenHash row = hashRefreshToken p"
    and "won pc \<Longrightarrow>
      (\<exists>row \<in> set (refresh_tokens w). rt_TokenHash row = hashRefreshToken p \<and> RefreshToken_Revoked row) \<and>
      (\<forall>j. j \<noteq> i \<longrightarrow> won (snd (th j)) \<longrightarrow> hashRefreshToken (fst (th j)) \<noteq> hashRefreshToken p)"
  shows "race_inv (w, th(i := (p, pc)))"
  using assms unfolding race_inv_def by (auto split: if_splits) metis+

subsection \<open>Every step keeps the invariant\<close>

lemma refresh_step_steps:
  assumes "refresh_step E (authService E tm ttl) p (pc, w) = (pc', w')"
  shows "db_steps E w w'"
proof (cases pc)
  case RStart
  then show ?thesis
    using assms by (auto split: prod.splits sum.splits intro: token_find)
next
  case (RReused t)
  then show ?thesis
    using assms by (auto split: prod.splits sum.splits intro: token_revoke_all)
next
  case (RFound t)
  then show ?thesis
    using assms by (auto simp: time_Now_def intro: outside)
next
  case (RLive t)
  then show ?thesis
    using assms by (auto split: prod.splits sum.splits intro: token_revoke)
next
  case (RRevoked u)
  then show ?thesis
    using assms db_steps_tick_self by (auto split: prod.splits sum.splits dest!: Generate_rows)
next
  case (RSigned u a)
  then show ?thesis
    using assms db_steps_tick_self by (auto split: prod.splits sum.splits dest!: generateRefreshToken_rows)
next
  case (RDrawn u a q h)
  then show ?thesis
    using assms by (auto simp: time_Now_def intro: outside)
next
  case (RStamped a q t)
  then show ?thesis
    using assms by (auto split: prod.splits sum.splits intro: token_create)
next
  case (RDone r)
  then show ?thesis
    using assms by simp
qed

text \<open>A \<open>Revoke\<close> that succeeds met a live row with this id and leaves it revoked.\<close>

lemma Revoke_wins:
  assumes "rows_affected_ok E" and "refreshTokenRepository_Revoke E k w = (Inr (), w')"
  shows "\<exists>row \<in> set (refresh_tokens w). rt_ID row = k \<and> \<not> RefreshToken_Revoked row"
proof -
  obtain n where n: "db_call E (sql_revoke_where E (\<lambda>t. rt_ID t = k)) w = (Inr n, w')" "n \<noteq> 0"
    using assms
    by (auto simp: refreshTokenRepository_Revoke_def rows_affected_ok_def
        split: prod.splits sum.splits if_splits)
  then show ?thesis
    using revoke_where_call_Inr [OF n(1)] n(2) by (auto simp: RefreshToken_Revoked_def affected_0_iff)
qed

lemma unique_row:
  assumes "db_inv w" and "r \<in> set (refresh_tokens w)" and "q \<in> set (refresh_tokens w)"
  shows "rt_ID r = rt_ID q \<Longrightarrow> r = q" and "rt_TokenHash r = rt_TokenHash q \<Longrightarrow> r = q"
  using assms distinct_key_eq [of rt_ID "refresh_tokens w" r q]
    distinct_key_eq [of rt_TokenHash "refresh_tokens w" r q]
  by (auto simp: db_inv_def ids_ok_def)

lemma revoking_thread:
  assumes inv: "race_inv (w, th)" and i: "th i = (p, RLive t)" and ok: "rows_affected_ok E"
    and rev: "refreshTokenRepository_Revoke E (rt_ID t) w = (Inr (), w')"
  shows "(\<exists>row \<in> set (refresh_tokens w'). rt_TokenHash row = hashRefreshToken p \<and> RefreshToken_Revoked row) \<and>
    (\<forall>j. j \<noteq> i \<longrightarrow> won (snd (th j)) \<longrightarrow> hashRefreshToken (fst (th j)) \<noteq> hashRefreshToken p)"
proof (intro conjI allI impI)
  have w: "db_inv w"
    using inv by (rule race_invD(1))
  obtain row where row: "row \<in> set (refresh_tokens w)" "rt_ID row = rt_ID t"
      "rt_TokenHash row = hashRefreshToken p"
    using race_invD(2) [OF inv i] by auto
  obtain live where live: "live \<in> set (refresh_tokens w)" "rt_ID live = rt_ID t" "\<not> RefreshToken_Revoked live"
    using Revoke_wins [OF ok rev] by blast
  have row_live: "\<not> RefreshToken_Revoked row"
    using unique_row(1) [OF w row(1) live(1)] row(2) live(2,3) by simp
  have "\<exists>row' \<in> set (refresh_tokens w'). rt_ID row' = rt_ID t \<and> rt_TokenHash row' = hashRefreshToken p"
    using row by (intro race_rows_evolve [OF db_step_tokens [OF token_revoke [OF rev]]]) blast
  then show "\<exists>row \<in> set (refresh_tokens w'). rt_TokenHash row = hashRefreshToken p \<and> RefreshToken_Revoked row"
    using pg_tokens.revoke_ok [of E "rt_ID t" w w'] rev by auto
  fix j
  assume "j \<noteq> i" and "won (snd (th j))"
  then obtain q where "q \<in> set (refresh_tokens w)" "rt_TokenHash q = hashRefreshToken (fst (th j))"
      "RefreshToken_Revoked q"
    using race_invD(3) [OF inv, of j "fst (th j)" "snd (th j)"] by auto
  then show "hashRefreshToken (fst (th j)) \<noteq> hashRefreshToken p"
    using unique_row(2) [OF w _ row(1)] row(3) row_live by metis
qed

lemma race_inv_step:
  assumes "rows_affected_ok E" and "race_step E (authService E tm ttl) c c'" and "race_inv c"
  shows "race_inv c'"
  using assms(2,3)
proof (induction rule: race_step.induct)
  case (other w w' th)
  then show ?case
    using race_inv_store [OF other(2) db_step_inv [OF other(1)] db_step_tokens [OF other(1)]]
      race_invD(1) [OF other(2)] by simp
next
  case (thread th i p pc w pc' w')
  have steps: "db_steps E w w'"
    using thread(2) by (rule refresh_step_steps)
  have inv': "race_inv (w', th)"
    using race_inv_store [OF thread(3) db_steps_inv [OF steps] db_steps_tokens [OF steps]]
      race_invD(1) [OF thread(3)] by simp
  show ?case
  proof (rule race_inv_thread [OF inv'])
    fix t
    assume pend: "pending pc' = Some t"
    show "\<exists>row \<in> set (refresh_tokens w'). rt_ID row = rt_ID t \<and> rt_TokenHash row = hashRefreshToken p"
    proof (cases pc)
      case RStart
      then have "refreshTokenRepository_FindByHash E (hashRefreshToken p) w = (Inr t, w')"
        using thread(2) pend by (auto split: prod.splits sum.splits if_splits)
      then show ?thesis
        using pg_tokens.find_ok [of E] pg_tokens.find_rows [of E] by fastforce
    next
      case (RFound u)
      then have "u = t"
        using thread(2) pend by (auto simp: time_Now_def split: if_splits)
      then show ?thesis
        using race_invD(2) [OF inv' thread(1)] RFound by simp
    qed (use thread(2) pend in \<open>auto split: prod.splits sum.splits if_splits\<close>)
  next
    assume win: "won pc'"
    show "(\<exists>row \<in> set (refresh_tokens w'). rt_TokenHash row = hashRefreshToken p \<and> RefreshToken_Revoked row) \<and>
      (\<forall>j. j \<noteq> i \<longrightarrow> won (snd (th j)) \<longrightarrow> hashRefreshToken (fst (th j)) \<noteq> hashRefreshToken p)"
    proof (cases "won pc")
      case True
      then show ?thesis
        using race_invD(3) [OF inv' thread(1)] race_invD(4) [OF inv' _ thread(1)]
        by (metis prod.collapse)
    next
      case False
      then obtain t where pc: "pc = RLive t"
        using thread(2) win
        by (cases pc) (auto simp: time_Now_def split: prod.splits sum.splits if_splits)
      then have "refreshTokenRepository_Revoke E (rt_ID t) w = (Inr (), w')"
        using thread(2) win by (auto split: prod.splits sum.splits)
      then show ?thesis
        using revoking_thread thread(1,3) assms(1) pc by blast
    qed
  qed
qed

lemma race_inv_steps:
  assumes "rows_affected_ok E" and "(race_step E (authService E tm ttl))\<^sup>*\<^sup>* c c'" and "race_inv c"
  shows "race_inv c'"
  using assms(2,3) by (induction rule: rtranclp_induct) (auto intro: race_inv_step [OF assms(1)])

lemma race_inv_start: "db_inv w \<Longrightarrow> \<forall>i. snd (th i) = RStart \<Longrightarrow> race_inv (w, th)"
  by (simp add: race_inv_def)

end
