(* ===== verification/AuthProperties.thy ===== *)
theory AuthProperties
  imports Sessions
begin

text \<open>
  The properties of sign-up, login, refresh and logout over the Postgres repositories: what each
  does on every branch when the database answers, and what remains true after any further steps
  of the system, whatever it answers.
\<close>

subsection \<open>The repositories when every statement is answered\<close>

lemma FindByHash_answered:
  assumes "no_faults E"
  shows "refreshTokenRepository_FindByHash E h w =
    (case find (\<lambda>t. rt_TokenHash t = h) (refresh_tokens w) of
       None \<Rightarrow> (Inl ErrNotFound, w\<lparr>tick := Suc (tick w)\<rparr>)
     | Some t \<Rightarrow> (Inr t, w\<lparr>tick := Suc (tick w)\<rparr>))"
  by (simp add: repo_defs db_call_answered [OF assms] sql_defs split: option.splits)

lemma Revoke_answered:
  assumes "no_faults E"
  shows "refreshTokenRepository_Revoke E i w =
    (if \<forall>t \<in> set (refresh_tokens w). rt_ID t = i \<longrightarrow> RefreshToken_Revoked t then Inl ErrNotFound else Inr (),
     w\<lparr>tick := Suc (tick w), refresh_tokens :=
         update_where (\<lambda>t. rt_ID t = i \<and> rt_RevokedAt t = None)
           (\<lambda>t. t\<lparr>rt_RevokedAt := Some (env_dbnow E (tick w))\<rparr>) (refresh_tokens w)\<rparr>)"
  using assms
  by (auto simp: repo_defs db_call_answered [OF assms] sql_defs Let_def no_faults_def
      rows_affected_ok_def affected_0_iff RefreshToken_Revoked_def)

lemma RevokeAllForUser_answered:
  assumes "no_faults E"
  shows "refreshTokenRepository_RevokeAllForUser E uid w =
    (Inr (), w\<lparr>tick := Suc (tick w), refresh_tokens :=
         update_where (\<lambda>t. rt_UserID t = uid \<and> rt_RevokedAt t = None)
           (\<lambda>t. t\<lparr>rt_RevokedAt := Some (env_dbnow E (tick w))\<rparr>) (refresh_tokens w)\<rparr>)"
  by (simp add: repo_defs db_call_answered [OF assms] sql_defs Let_def)

lemma FindByEmail_answered:
  assumes "no_faults E"
  shows "userRepository_FindByEmail E email w =
    (case find (\<lambda>u. u_Email u = email) (users w) of
       None \<Rightarrow> (Inl ErrNotFound, w\<lparr>tick := Suc (tick w)\<rparr>)
     | Some u \<Rightarrow> (Inr u, w\<lparr>tick := Suc (tick w)\<rparr>))"
  by (simp add: repo_defs db_call_answered [OF assms] sql_defs split: option.splits)

text \<open>A row of a sound store is found under its key.\<close>

lemma find_token:
  assumes "db_inv w" and "t \<in> set (refresh_tokens w)"
  shows "find (\<lambda>x. rt_TokenHash x = rt_TokenHash t) (refresh_tokens w) = Some t"
  using assms by (intro find_by_key) (simp_all add: db_inv_def)

lemma find_user:
  assumes "db_inv w" and "u \<in> set (users w)"
  shows "find (\<lambda>x. u_Email x = u_Email u) (users w) = Some u"
  using assms by (intro find_by_key) (simp_all add: db_inv_def)

lemma FindByHash_row:
  assumes "no_faults E" and "db_inv w" and "t \<in> set (refresh_tokens w)" and "rt_TokenHash t = h"
  shows "refreshTokenRepository_FindByHash E h w = (Inr t, w\<lparr>tick := Suc (tick w)\<rparr>)"
  using find_token [OF assms(2,3)] assms(4) by (simp add: FindByHash_answered [OF assms(1)])

text \<open>Under a distinct key, updating the live rows with the id of a live row updates that row.\<close>

lemma revoke_by_id:
  assumes "db_inv w" and "t \<in> set (refresh_tokens w)" and "\<not> RefreshToken_Revoked t"
  shows "update_where (\<lambda>r. rt_ID r = rt_ID t \<and> rt_RevokedAt r = None) f (refresh_tokens w) =
         update_where (\<lambda>r. r = t) f (refresh_tokens w)"
  unfolding update_where_def
  by (rule map_cong)
    (use assms unique_row(1) [OF assms(1) _ assms(2)] in \<open>auto simp: RefreshToken_Revoked_def\<close>)

subsection \<open>Rotation\<close>

text \<open>The insert of \<open>issueTokenPair\<close> when it goes through.\<close>

lemma token_Create_answered:
  assumes "no_faults E" and "refresh_tokens_id_seq w < 2 ^ 63 - 1" and "rt_UserID t \<in> u_ID ` set (users w)"
    and "rt_TokenHash t \<notin> rt_TokenHash ` set (refresh_tokens w)" and "db_inv w"
  shows "refreshTokenRepository_Create E t w =
    (Inr (t\<lparr>rt_ID := refresh_tokens_id_seq w + 1, rt_CreatedAt := env_dbnow E (tick w)\<rparr>),
     w\<lparr>tick := Suc (tick w), refresh_tokens_id_seq := refresh_tokens_id_seq w + 1,
       refresh_tokens := refresh_tokens w @
         [\<lparr>rt_ID = refresh_tokens_id_seq w + 1, rt_UserID = rt_UserID t, rt_TokenHash = rt_TokenHash t,
           rt_ExpiresAt = env_timestamptz E (rt_ExpiresAt t), rt_RevokedAt = None,
           rt_CreatedAt = env_dbnow E (tick w)\<rparr>]\<rparr>)"
proof -
  have "nextval (refresh_tokens_id_seq w) = Some (refresh_tokens_id_seq w + 1)"
    using assms(2) by (simp add: nextval_def)
  then show ?thesis
    using db_inv_next(3) [OF assms(5)] assms(3,4)
    by (simp add: repo_defs db_call_answered [OF assms(1)] sql_defs Let_def)
qed

lemma issueTokenPair_answered:
  assumes "no_faults E" and "refresh_tokens_id_seq w < 2 ^ 63 - 1" and "uid \<in> u_ID ` set (users w)"
    and "db_inv w"
    and "fst (TokenManager_Generate E tm uid w) = Inr a"
    and "env_rand E (tick w + 2) 32 = Inr buf"
    and "hashRefreshToken (RawURLEncoding buf) \<notin> rt_TokenHash ` set (refresh_tokens w)"
  shows "issueTokenPair E (authService E tm ttl) uid w =
    (Inr (a, RawURLEncoding buf),
     w\<lparr>tick := tick w + 5, refresh_tokens_id_seq := refresh_tokens_id_seq w + 1,
       refresh_tokens := refresh_tokens w @
         [\<lparr>rt_ID = refresh_tokens_id_seq w + 1, rt_UserID = uid,
           rt_TokenHash = hashRefreshToken (RawURLEncoding buf),
           rt_ExpiresAt = env_timestamptz E (env_now E (tick w + 3) + ttl), rt_RevokedAt = None,
           rt_CreatedAt = env_dbnow E (tick w + 4)\<rparr>]\<rparr>)"
proof -
  have gen: "TokenManager_Generate E tm uid w = (Inr a, w\<lparr>tick := tick w + 2\<rparr>)"
    using assms(5) Generate_rows [of E tm uid w] by (cases "TokenManager_Generate E tm uid w") auto
  have rand: "generateRefreshToken E (w\<lparr>tick := tick w + 2\<rparr>) =
      (Inr (RawURLEncoding buf, hashRefreshToken (RawURLEncoding buf)), w\<lparr>tick := tick w + 3\<rparr>)"
    using assms(6) by (simp add: generateRefreshToken_def Let_def eval_nat_numeral)
  have now: "time_Now E (w\<lparr>tick := tick w + 3\<rparr>) = (env_now E (tick w + 3), w\<lparr>tick := tick w + 4\<rparr>)"
    by (simp add: time_Now_def eval_nat_numeral)
  show ?thesis
    using token_Create_answered [of E "w\<lparr>tick := tick w + 4\<rparr>"
        "new_refresh_token uid (hashRefreshToken (RawURLEncoding buf)) (env_now E (tick w + 3) + ttl)"] assms
    by (simp add: issueTokenPair_def gen rand now add.commute [of "tick w" 5]
        del: add_2_eq_Suc add_2_eq_Suc')
qed

text \<open>A refresh that meets no obstacle, interaction by interaction.\<close>

lemma Refresh_answered:
  assumes "no_faults E" and "db_inv w" and "t \<in> set (refresh_tokens w)"
    and "rt_TokenHash t = hashRefreshToken p" and "\<not> RefreshToken_Revoked t"
    and "\<not> RefreshToken_Expired (env_now E (tick w + 1)) t"
    and "refresh_tokens_id_seq w < 2 ^ 63 - 1"
    and "fst (TokenManager_Generate E tm (rt_UserID t) (w\<lparr>tick := tick w + 3\<rparr>)) = Inr a"
    and "env_rand E (tick w + 5) 32 = Inr buf"
    and "hashRefreshToken (RawURLEncoding buf) \<notin> rt_TokenHash ` set (refresh_tokens w)"
  shows "AuthService_Refresh E (authService E tm ttl) p w =
    (Inr (a, RawURLEncoding buf),
     w\<lparr>tick := tick w + 8, refresh_tokens_id_seq := refresh_tokens_id_seq w + 1,
       refresh_tokens :=
         update_where (\<lambda>r. r = t) (\<lambda>r. r\<lparr>rt_RevokedAt := Some (env_dbnow E (tick w + 2))\<rparr>) (refresh_tokens w) @
         [\<lparr>rt_ID = refresh_tokens_id_seq w + 1, rt_UserID = rt_UserID t,
           rt_TokenHash = hashRefreshToken (RawURLEncoding buf),
           rt_ExpiresAt = env_timestamptz E (env_now E (tick w + 6) + ttl), rt_RevokedAt = None,
           rt_CreatedAt = env_dbnow E (tick w + 7)\<rparr>]\<rparr>)"
proof -
  let ?toks = "update_where (\<lambda>r. r = t) (\<lambda>r. r\<lparr>rt_RevokedAt := Some (env_dbnow E (tick w + 2))\<rparr>) (refresh_tokens w)"
  let ?w3 = "w\<lparr>tick := tick w + 3, refresh_tokens := ?toks\<rparr>"
  have rev: "refreshTokenRepository_Revoke E (rt_ID t) (w\<lparr>tick := tick w + 2\<rparr>) = (Inr (), ?w3)"
    using assms(3,5) revoke_by_id [OF assms(2,3,5)]
    by (auto simp: Revoke_answered [OF assms(1)] eval_nat_numeral)
  have evolve: "revoked_from (\<lambda>_. True) (refresh_tokens w) ?toks"
    using pg_tokens.revoke_from [of E] rev revoked_from_mono by fastforce
  have inv: "db_inv ?w3"
    using db_step_inv [OF token_revoke [OF rev]] assms(2) by simp
  have hashes: "rt_TokenHash ` set ?toks = rt_TokenHash ` set (refresh_tokens w)"
    using revoked_from_keys(2) [OF evolve] by (metis list.set_map)
  have owner: "rt_UserID t \<in> u_ID ` set (users w)"
    using assms(2,3) by (simp add: db_inv_def)
  have gen: "fst (TokenManager_Generate E tm (rt_UserID t) ?w3) = Inr a"
    using assms(8) by (simp add: svc_defs time_Now_def)
  have "issueTokenPair E (authService E tm ttl) (rt_UserID t) ?w3 =
    (Inr (a, RawURLEncoding buf),
     w\<lparr>tick := tick w + 8, refresh_tokens_id_seq := refresh_tokens_id_seq w + 1, refresh_tokens := ?toks @
         [\<lparr>rt_ID = refresh_tokens_id_seq w + 1, rt_UserID = rt_UserID t,
           rt_TokenHash = hashRefreshToken (RawURLEncoding buf),
           rt_ExpiresAt = env_timestamptz E (env_now E (tick w + 6) + ttl), rt_RevokedAt = None,
           rt_CreatedAt = env_dbnow E (tick w + 7)\<rparr>]\<rparr>)"
    using issueTokenPair_answered [OF assms(1) _ _ inv gen, of buf ttl] assms(7,9,10) owner
    by (simp add: hashes add.commute [of _ "tick w"] del: add_2_eq_Suc add_2_eq_Suc')
  then show ?thesis
    using FindByHash_row [OF assms(1-4)] rev assms(5,6)
    by (simp add: AuthService_Refresh_def time_Now_def)
qed

text \<open>A token of the example store, and the token the environment's sixth read gives.\<close>

definition example_row :: "time option \<Rightarrow> RefreshToken" where
  "example_row revoked = example_token 1 1 (hashRefreshToken ''abc'') revoked"

lemma example_fresh_hash:
  "hashRefreshToken (RawURLEncoding (replicate 32 (char_of (5::nat)))) \<noteq> hashRefreshToken ''abc''"
proof -
  have "Sum256 (RawURLEncoding (replicate 32 (CHR 0x05))) \<noteq> Sum256 ''abc''"
    by code_simp
  moreover have "char_of (5::nat) = CHR 0x05"
    by code_simp
  ultimately show ?thesis
    by (simp only: hashRefreshToken_eq) simp
qed

abbreviation example_manager :: TokenManager where
  "example_manager \<equiv> NewTokenManager ''0123456789abcdef'' 900000000000"

abbreviation example_auth :: AuthService where
  "example_auth \<equiv> authService example_env example_manager 3600000000000"

abbreviation example_next :: string where
  "example_next \<equiv> RawURLEncoding (replicate 32 (char_of (5::nat)))"

lemma example_row_sel [simp]:
  "rt_ID (example_row c) = 1" "rt_UserID (example_row c) = 1" "rt_RevokedAt (example_row c) = c"
  "rt_TokenHash (example_row c) = hashRefreshToken ''abc''" "rt_ExpiresAt (example_row c) = 3600000000000"
  by (simp_all add: example_row_def)

lemma example_row_update [simp]: "(example_row c)\<lparr>rt_RevokedAt := d\<rparr> = example_row d"
  by (simp add: example_row_def example_token_def)

lemma example_row_inv [simp]: "db_inv (example_world [example_row c])"
  unfolding example_row_def by (rule example_world_inv)

lemma example_Generate:
  "tick w < 1000 \<Longrightarrow> \<exists>a. fst (TokenManager_Generate example_env example_manager i w) = Inr a"
  by (simp add: svc_defs time_Now_def example_SignedString_def NewTokenManager_def int64_ok_def)

lemma example_Refresh:
  "\<exists>a w'. AuthService_Refresh example_env example_auth ''abc'' (example_world [example_row None]) =
    (Inr (a, example_next), w')"
proof -
  let ?w = "example_world [example_row None]"
  obtain a where "fst (TokenManager_Generate example_env example_manager (rt_UserID (example_row None))
      (?w\<lparr>tick := tick ?w + 3\<rparr>)) = Inr a"
    using example_Generate by fastforce
  then show ?thesis
    by (subst Refresh_answered [of example_env ?w "example_row None" "''abc''" example_manager a
          "replicate 32 (char_of (5::nat))"])
      (use example_fresh_hash in \<open>simp_all add: RefreshToken_Revoked_def RefreshToken_Expired_def\<close>)
qed

text \<open>C9: presenting a live refresh token when the database answers returns a new pair.  The row of
  the presented token, and no other, is revoked; one row is appended, owned by the same user, live,
  stored under the hash of the returned plaintext, with an expiry one TTL after the clock; nothing
  else changes.\<close>

theorem refresh_rotates:
  assumes "no_faults E" and "db_inv w" and "t \<in> set (refresh_tokens w)"
    and "rt_TokenHash t = hashRefreshToken p" and "\<not> RefreshToken_Revoked t"
    and "\<not> RefreshToken_Expired (env_now E (tick w + 1)) t"
    and "refresh_tokens_id_seq w < 2 ^ 63 - 1"
    and "fst (TokenManager_Generate E tm (rt_UserID t) (w\<lparr>tick := tick w + 3\<rparr>)) = Inr a"
    and "env_rand E (tick w + 5) 32 = Inr buf"
    and "hashRefreshToken (RawURLEncoding buf) \<notin> rt_TokenHash ` set (refresh_tokens w)"
  shows "AuthService_Refresh E (authService E tm ttl) p w =
    (Inr (a, RawURLEncoding buf),
     w\<lparr>tick := tick w + 8, refresh_tokens_id_seq := refresh_tokens_id_seq w + 1,
       refresh_tokens :=
         update_where (\<lambda>r. r = t) (\<lambda>r. r\<lparr>rt_RevokedAt := Some (env_dbnow E (tick w + 2))\<rparr>) (refresh_tokens w) @
         [\<lparr>rt_ID = refresh_tokens_id_seq w + 1, rt_UserID = rt_UserID t,
           rt_TokenHash = hashRefreshToken (RawURLEncoding buf),
           rt_ExpiresAt = env_timestamptz E (env_now E (tick w + 6) + ttl), rt_RevokedAt = None,
           rt_CreatedAt = env_dbnow E (tick w + 7)\<rparr>]\<rparr>)"
  using assms by (rule Refresh_answered)

theorem refresh_rotates_witness:
  "\<exists>a. fst (AuthService_Refresh example_env example_auth ''abc'' (example_world [example_row None])) =
      Inr (a, example_next)"
proof -
  let ?w = "example_world [example_row None]"
  obtain a where "fst (TokenManager_Generate example_env example_manager (rt_UserID (example_row None))
      (?w\<lparr>tick := tick ?w + 3\<rparr>)) = Inr a"
    using example_Generate by fastforce
  then have "fst (AuthService_Refresh example_env example_auth ''abc'' ?w) = Inr (a, example_next)"
    by (subst refresh_rotates [of example_env ?w "example_row None" "''abc''" example_manager a
          "replicate 32 (char_of (5::nat))"])
      (use example_fresh_hash in \<open>simp_all add: RefreshToken_Revoked_def RefreshToken_Expired_def\<close>)
  then show ?thesis
    by blast
qed

subsection \<open>A token is used once\<close>

lemma revoke_hashes:
  assumes "refreshTokenRepository_Revoke E i w = (r, w')"
  shows "rt_TokenHash ` set (refresh_tokens w') = rt_TokenHash ` set (refresh_tokens w)"
proof -
  have "revoked_from (\<lambda>t. rt_ID t = i) (refresh_tokens w) (refresh_tokens w')"
    using pg_token_facts(6) [OF assms] by simp
  from revoked_from_keys(2) [OF this] show ?thesis
    by (metis list.set_map)
qed

text \<open>What a refresh that returned a pair has done, whatever else the environment answered.\<close>

lemma Refresh_InrD:
  assumes "AuthService_Refresh E (authService E tm ttl) p w = (Inr (a, q), w')"
  obtains t t' row where "t \<in> set (refresh_tokens w)" and "rt_TokenHash t = hashRefreshToken p"
    and "\<not> RefreshToken_Revoked t" and "\<not> RefreshToken_Expired (env_now E (tick w + 1)) t"
    and "t' \<in> set (refresh_tokens w')" and "rt_TokenHash t' = hashRefreshToken p" and "RefreshToken_Revoked t'"
    and "row \<in> set (refresh_tokens w')" and "rt_TokenHash row = hashRefreshToken q"
    and "rt_UserID row = rt_UserID t" and "\<not> RefreshToken_Revoked row"
    and "hashRefreshToken q \<notin> rt_TokenHash ` set (refresh_tokens w)"
  using assms
proof (cases rule: Refresh_cases)
  case (Rotated t w1 w2)
  have t: "t \<in> set (refresh_tokens w)" "rt_TokenHash t = hashRefreshToken p" "same_rows w w1"
    using pg_tokens.find_ok [of E] pg_tokens.find_rows [of E] Rotated(1) by fastforce+
  have tick: "tick w1 = tick w + 1"
    using Rotated(1)
    by (auto simp: repo_defs db_call_def sql_defs Let_def split: prod.splits sum.splits option.splits
        answer.splits if_splits)
  have rev: "refreshTokenRepository_Revoke E (rt_ID t) (w1\<lparr>tick := Suc (tick w1)\<rparr>) = (Inr (), w2)"
    using Rotated(4) by simp
  have "tokens_evolve (refresh_tokens w) (refresh_tokens w2)"
    using db_step_tokens [OF token_revoke [OF rev]] same_rowsD(3) [OF t(3)] by simp
  from race_rows_evolve [OF this] obtain t' where "t' \<in> set (refresh_tokens w2)" "rt_ID t' = rt_ID t"
      "rt_TokenHash t' = hashRefreshToken p"
    using t(1,2) by blast
  moreover have "RefreshToken_Revoked t'"
    using calculation(1,2) pg_tokens.revoke_ok [of E "rt_ID t"] rev by auto
  moreover obtain row where row: "refresh_tokens w' = refresh_tokens w2 @ [row]" "rt_UserID row = rt_UserID t"
      "rt_TokenHash row = hashRefreshToken q" "rt_RevokedAt row = None"
    and fresh: "hashRefreshToken q \<notin> rt_TokenHash ` set (refresh_tokens w2)"
    using pg_auth.issue_ok [OF Rotated(5)] by blast
  moreover have "rt_TokenHash ` set (refresh_tokens w2) = rt_TokenHash ` set (refresh_tokens w)"
    using revoke_hashes [OF rev] same_rowsD(3) [OF t(3)] by simp
  ultimately show thesis
    using that [of t t' row] t Rotated(2,3) tick by (auto simp: RefreshToken_Revoked_def)
qed simp_all

text \<open>A token whose row is revoked stays that way, and can no longer be refreshed.\<close>

lemma Refresh_revoked:
  assumes "db_inv w" and "t \<in> set (refresh_tokens w)" and "rt_TokenHash t = hashRefreshToken p"
    and "RefreshToken_Revoked t" and "AuthService_Refresh E (authService E tm ttl) p w = (r, w')"
  shows "\<exists>e. r = Inl e"
proof (cases r)
  case (Inr aq)
  then obtain s where "s \<in> set (refresh_tokens w)" "rt_TokenHash s = hashRefreshToken p" "\<not> RefreshToken_Revoked s"
    using assms(5) Refresh_InrD by (metis surj_pair)
  then show ?thesis
    using unique_row(2) [OF assms(1) _ assms(2)] assms(3,4) by auto
qed simp

text \<open>C7: a refresh token is good for one use.  Once a refresh with it has returned a pair, no
  refresh with it succeeds again, however many steps of whatever requests come in between and
  whatever faults occur.\<close>

theorem refresh_single_use:
  assumes "db_inv w" and "AuthService_Refresh E (authService E tm ttl) p w = (Inr (a, q), w1)"
    and "db_steps E w1 w2" and "AuthService_Refresh E (authService E tm ttl) p w2 = (r, w3)"
  shows "\<exists>e. r = Inl e"
proof -
  obtain t' where "t' \<in> set (refresh_tokens w1)" "rt_TokenHash t' = hashRefreshToken p" "RefreshToken_Revoked t'"
    using assms(2) by (rule Refresh_InrD)
  moreover have "db_inv w2"
    using assms(1) pg_auth.refresh_step [OF assms(2)] db_steps_inv [OF assms(3)] by blast
  ultimately show ?thesis
    using Refresh_revoked assms(4) tokens_evolve_revoked [OF db_steps_tokens [OF assms(3)]] by blast
qed

theorem refresh_single_use_witness:
  "\<exists>e. fst (AuthService_Refresh example_env example_auth ''abc''
      (snd (AuthService_Refresh example_env example_auth ''abc'' (example_world [example_row None])))) = Inl e"
proof -
  obtain a w1 where "AuthService_Refresh example_env example_auth ''abc'' (example_world [example_row None]) =
      (Inr (a, example_next), w1)"
    using example_Refresh by blast
  from refresh_single_use [OF example_row_inv this rtranclp.rtrancl_refl prod.collapse [symmetric]]
  show ?thesis
    using \<open>AuthService_Refresh _ _ _ _ = _\<close> by simp
qed

subsection \<open>Reuse detection\<close>

lemma Refresh_reused:
  assumes "no_faults E" and "db_inv w" and "t \<in> set (refresh_tokens w)"
    and "rt_TokenHash t = hashRefreshToken p" and "RefreshToken_Revoked t"
  shows "AuthService_Refresh E (authService E tm ttl) p w =
    (Inl ErrTokenInvalid,
     w\<lparr>tick := tick w + 2, refresh_tokens :=
         update_where (\<lambda>r. rt_UserID r = rt_UserID t \<and> rt_RevokedAt r = None)
           (\<lambda>r. r\<lparr>rt_RevokedAt := Some (env_dbnow E (tick w + 1))\<rparr>) (refresh_tokens w)\<rparr>)"
  using FindByHash_row [OF assms(1-4)] assms(5)
  by (simp add: AuthService_Refresh_def RevokeAllForUser_answered [OF assms(1)])

text \<open>C8: presenting a token that was already used or revoked is answered with
  \<open>ErrTokenInvalid\<close> and closes every session of the user it belonged to; the sessions of all other
  users stay exactly as they are.\<close>

theorem refresh_reuse_detected:
  assumes "no_faults E" and "db_inv w" and "t \<in> set (refresh_tokens w)"
    and "rt_TokenHash t = hashRefreshToken p" and "RefreshToken_Revoked t"
    and "AuthService_Refresh E (authService E tm ttl) p w = (r, w')"
  shows "r = Inl ErrTokenInvalid \<and>
    (\<forall>s \<in> set (refresh_tokens w'). rt_UserID s = rt_UserID t \<longrightarrow> RefreshToken_Revoked s) \<and>
    filter (\<lambda>s. rt_UserID s \<noteq> rt_UserID t) (refresh_tokens w') =
      filter (\<lambda>s. rt_UserID s \<noteq> rt_UserID t) (refresh_tokens w) \<and>
    map rt_TokenHash (refresh_tokens w') = map rt_TokenHash (refresh_tokens w) \<and>
    users w' = users w \<and> tasks w' = tasks w"
  using Refresh_reused [OF assms(1-5), of tm ttl] assms(6)
  by (auto simp: set_update_where RefreshToken_Revoked_def intro!: filter_update_where_in update_where_key)

theorem refresh_reuse_detected_witness:
  "fst (AuthService_Refresh example_env example_auth ''abc'' (example_world [example_row (Some 5)])) =
     Inl ErrTokenInvalid"
  using refresh_reuse_detected [of example_env "example_world [example_row (Some 5)]" "example_row (Some 5)"
      "''abc''" example_manager 3600000000000, OF _ _ _ _ _ prod.collapse [symmetric]]
  by (simp add: RefreshToken_Revoked_def)

text \<open>A refresh with an unknown token or with an expired one is answered with
  \<open>ErrTokenInvalid\<close> and changes no row.\<close>

theorem refresh_rejects:
  assumes "no_faults E" and "db_inv w"
    and "(\<forall>t \<in> set (refresh_tokens w). rt_TokenHash t \<noteq> hashRefreshToken p) \<or>
         (\<exists>t \<in> set (refresh_tokens w). rt_TokenHash t = hashRefreshToken p \<and> rt_RevokedAt t = None \<and>
            rt_ExpiresAt t < env_now E (tick w + 1))"
    and "AuthService_Refresh E (authService E tm ttl) p w = (r, w')"
  shows "r = Inl ErrTokenInvalid \<and> same_rows w w'"
  using assms(3)
proof
  assume "\<forall>t \<in> set (refresh_tokens w). rt_TokenHash t \<noteq> hashRefreshToken p"
  then have "find (\<lambda>t. rt_TokenHash t = hashRefreshToken p) (refresh_tokens w) = None"
    by (simp add: find_None_iff)
  then show ?thesis
    using assms(4) by (auto simp: AuthService_Refresh_def FindByHash_answered [OF assms(1)])
next
  assume "\<exists>t \<in> set (refresh_tokens w). rt_TokenHash t = hashRefreshToken p \<and> rt_RevokedAt t = None \<and>
    rt_ExpiresAt t < env_now E (tick w + 1)"
  then obtain t where "t \<in> set (refresh_tokens w)" "rt_TokenHash t = hashRefreshToken p" "rt_RevokedAt t = None"
    and exp: "rt_ExpiresAt t < env_now E (tick w + 1)"
    by blast
  with FindByHash_row [OF assms(1,2) this(1,2)] show ?thesis
    using assms(4)
    by (auto simp: AuthService_Refresh_def RefreshToken_Revoked_def RefreshToken_Expired_def time_Now_def)
qed

theorem refresh_rejects_witness:
  "fst (AuthService_Refresh example_env example_auth ''abc'' (example_world [example_row None]\<lparr>tick := 3600\<rparr>)) =
     Inl ErrTokenInvalid"
  using refresh_rejects [of example_env "example_world [example_row None]\<lparr>tick := 3600\<rparr>" "''abc''"
      example_manager 3600000000000, OF _ _ _ prod.collapse [symmetric]]
  by simp

text \<open>A revocation is permanent.  Whatever steps the system makes, a revoked row stays in the
  table exactly as it was, revocation time included; and a live row is never lost, its owner, hash
  and expiry never change.\<close>

theorem sessions_permanent:
  assumes "db_steps E w w'" and "t \<in> set (refresh_tokens w)"
  shows "if RefreshToken_Revoked t then t \<in> set (refresh_tokens w')
    else t \<in> set (refresh_tokens w') \<or> (\<exists>c. t\<lparr>rt_RevokedAt := Some c\<rparr> \<in> set (refresh_tokens w'))"
  using tokens_evolve_fwd [OF db_steps_tokens [OF assms(1)] assms(2)] by metis

theorem sessions_permanent_witness:
  "example_row (Some 5) \<in> set (refresh_tokens (snd (AuthService_Refresh example_env example_auth ''abc''
     (example_world [example_row (Some 5)]))))"
  using sessions_permanent [OF refresh_steps [of example_env example_manager 3600000000000 "''abc''"
      "example_world [example_row (Some 5)]", OF prod.collapse [symmetric]], of "example_row (Some 5)"]
  by (simp add: RefreshToken_Revoked_def)

subsection \<open>Logout\<close>

text \<open>A logout that succeeded leaves the row of the token revoked.\<close>

lemma Logout_InrD:
  assumes "db_inv w" and "AuthService_Logout E (authService E tm ttl) p w = (Inr (), w')"
  obtains t where "t \<in> set (refresh_tokens w')" and "rt_TokenHash t = hashRefreshToken p" and "RefreshToken_Revoked t"
  using assms(2)
proof (cases rule: Logout_cases)
  case (Already t)
  then show thesis
    using that pg_tokens.find_ok [of E] pg_tokens.find_rows [of E] by fastforce
next
  case (Revoking t w1)
  have t: "t \<in> set (refresh_tokens w)" "rt_TokenHash t = hashRefreshToken p" "same_rows w w1"
    using pg_tokens.find_ok [of E] pg_tokens.find_rows [of E] Revoking(1) by fastforce+
  have rev: "refreshTokenRepository_Revoke E (rt_ID t) w1 = (Inr (), w')"
    using Revoking(3) by simp
  from race_rows_evolve [OF db_step_tokens [OF token_revoke [OF rev]]] obtain t' where
      "t' \<in> set (refresh_tokens w')" "rt_ID t' = rt_ID t" "rt_TokenHash t' = hashRefreshToken p"
    using t same_rowsD(3) [OF t(3)] by metis
  then show thesis
    using that pg_tokens.revoke_ok [of E "rt_ID t"] rev by auto
qed simp

text \<open>C28: logging out ends the session for good.  After a successful logout, and any further steps,
  a refresh with the token is refused with \<open>ErrTokenInvalid\<close> and closes the user's other sessions
  too, as for any other used token.\<close>

theorem logout_ends_session:
  assumes "no_faults E" and "db_inv w" and "AuthService_Logout E (authService E tm ttl) p w = (Inr (), w1)"
    and "db_steps E w1 w2" and "AuthService_Refresh E (authService E tm ttl) p w2 = (r, w3)"
  shows "r = Inl ErrTokenInvalid \<and>
    (\<exists>t \<in> set (refresh_tokens w2). rt_TokenHash t = hashRefreshToken p \<and>
       (\<forall>s \<in> set (refresh_tokens w3). rt_UserID s = rt_UserID t \<longrightarrow> RefreshToken_Revoked s))"
proof -
  obtain t where t: "t \<in> set (refresh_tokens w1)" "rt_TokenHash t = hashRefreshToken p" "RefreshToken_Revoked t"
    using assms(2,3) by (rule Logout_InrD)
  have t2: "t \<in> set (refresh_tokens w2)"
    using tokens_evolve_revoked [OF db_steps_tokens [OF assms(4)]] t(1,3) by simp
  have inv: "db_inv w2"
    using assms(2) pg_auth.logout_step [OF assms(3)] db_steps_inv [OF assms(4)] by blast
  show ?thesis
    using Refresh_reused [OF assms(1) inv t2 t(2,3), of tm ttl] assms(5) t2 t(2)
    by (auto simp: set_update_where RefreshToken_Revoked_def)
qed

lemma example_Logout:
  "AuthService_Logout example_env example_auth ''abc'' (example_world [example_row None]) =
    (Inr (), (example_world [example_row None])\<lparr>tick := 2, refresh_tokens := [example_row (Some 1000000000)]\<rparr>)"
  by (simp add: AuthService_Logout_def FindByHash_answered RefreshToken_Revoked_def Revoke_answered eval_nat_numeral)

theorem logout_ends_session_witness:
  "fst (AuthService_Refresh example_env example_auth ''abc''
     (snd (AuthService_Logout example_env example_auth ''abc'' (example_world [example_row None])))) =
   Inl ErrTokenInvalid"
  using logout_ends_session [OF example_no_faults(1) example_row_inv example_Logout rtranclp.rtrancl_refl
      prod.collapse [symmetric]]
  by (simp add: example_Logout)

text \<open>Logout is idempotent.  Repeating a logout that succeeded, after any further steps, succeeds
  again and changes no row.\<close>

theorem logout_idempotent:
  assumes "no_faults E" and "db_inv w" and "AuthService_Logout E (authService E tm ttl) p w = (Inr (), w1)"
    and "db_steps E w1 w2"
  shows "AuthService_Logout E (authService E tm ttl) p w2 = (Inr (), w2\<lparr>tick := Suc (tick w2)\<rparr>)"
proof -
  obtain t where t: "t \<in> set (refresh_tokens w1)" "rt_TokenHash t = hashRefreshToken p" "RefreshToken_Revoked t"
    using assms(2,3) by (rule Logout_InrD)
  have "t \<in> set (refresh_tokens w2)"
    using tokens_evolve_revoked [OF db_steps_tokens [OF assms(4)]] t(1,3) by simp
  moreover have "db_inv w2"
    using assms(2) pg_auth.logout_step [OF assms(3)] db_steps_inv [OF assms(4)] by blast
  ultimately show ?thesis
    using FindByHash_row [OF assms(1)] t(2,3) by (simp add: AuthService_Logout_def)
qed

theorem logout_idempotent_witness:
  "fst (AuthService_Logout example_env example_auth ''abc''
     (snd (AuthService_Logout example_env example_auth ''abc'' (example_world [example_row None])))) = Inr ()"
  using logout_idempotent [OF example_no_faults(1) example_row_inv example_Logout rtranclp.rtrancl_refl]
  by (simp add: example_Logout)

subsection \<open>Sign-up and login\<close>

text \<open>C19: login succeeds only with a password that compares with the stored hash of the user under
  this address; it opens exactly one session, owned by that user and stored under the hash of the
  returned refresh token, and changes nothing else.\<close>

theorem login_sound:
  assumes "AuthService_Login E (authService E tm ttl) email pw w = (Inr (u, a, p), w')"
  shows "u \<in> set (users w) \<and> u_Email u = email \<and>
    env_CompareHashAndPassword E (u_PasswordHash u) pw = None \<and>
    (\<exists>row. refresh_tokens w' = refresh_tokens w @ [row] \<and> rt_UserID row = u_ID u \<and>
       rt_TokenHash row = hashRefreshToken p \<and> \<not> RefreshToken_Revoked row) \<and>
    users w' = users w \<and> tasks w' = tasks w"
  using assms
proof (cases rule: Login_cases)
  case (Issue v w1 ri)
  then have issue: "issueTokenPair E (authService E tm ttl) (u_ID u) w1 = (Inr (a, p), w')" and v: "v = u"
    by (cases ri; auto)+
  have "u \<in> set (users w)" "u_Email u = email" "same_rows w w1"
    using pg_users.find_email_ok [of E] pg_users.find_email_rows [of E] Issue(1) v by fastforce+
  then show ?thesis
    using pg_auth.issue_ok [OF issue] pg_auth.issue_step [OF issue] Issue(2) v
    by (auto simp: same_rows_def RefreshToken_Revoked_def)
qed auto

lemma example_Login:
  "\<exists>u a p w'. AuthService_Login example_env example_auth ''ann@example.com'' ''correct horse'' (example_world []) =
    (Inr (u, a, p), w')"
proof -
  let ?w = "(example_world [])\<lparr>tick := 1\<rparr>"
  obtain a where a: "fst (TokenManager_Generate example_env example_manager 1 ?w) = Inr a"
    using example_Generate [of ?w] by auto
  show ?thesis
    using issueTokenPair_answered [OF example_no_faults(1) _ _ _ a] example_world_inv(1)
    by (simp add: AuthService_Login_def FindByEmail_answered example_users_def)
qed

theorem login_sound_witness:
  "\<exists>u. fst (AuthService_Login example_env example_auth ''ann@example.com'' ''correct horse'' (example_world [])) \<in>
      range (\<lambda>(a, p). Inr (u, a, p)) \<and> u_Email u = ''ann@example.com''"
proof -
  obtain u a p w' where login: "AuthService_Login example_env example_auth ''ann@example.com'' ''correct horse''
      (example_world []) = (Inr (u, a, p), w')"
    using example_Login by blast
  show ?thesis
    using login_sound [OF login] login by (auto intro!: exI [of _ u] image_eqI [of _ _ "(a, p)"])
qed

lemma map_sum_id_Inl: "map_sum id f r = Inl e \<longleftrightarrow> r = Inl e"
  by (cases r) auto

lemma issue_error: "issueTokenPair E s uid w = (Inl e, w') \<Longrightarrow> \<exists>p e' q. e = Wrap p e' q"
  by (auto simp: issueTokenPair_def generateRefreshToken_def Let_def split: prod.splits sum.splits)

text \<open>The refusal of a login does not tell whether the address exists.  The answer is
  \<open>ErrInvalidCredentials\<close> exactly when there is no user with this address whose hash compares with
  the password, and the store is then left as it was.\<close>

theorem login_refuses:
  assumes "no_faults E" and "db_inv w" and "AuthService_Login E (authService E tm ttl) email pw w = (r, w')"
  shows "(r = Inl ErrInvalidCredentials \<longleftrightarrow>
      \<not> (\<exists>u \<in> set (users w). u_Email u = email \<and> env_CompareHashAndPassword E (u_PasswordHash u) pw = None)) \<and>
    (r = Inl ErrInvalidCredentials \<longrightarrow> w' = w\<lparr>tick := Suc (tick w)\<rparr>)"
proof (cases "\<exists>u \<in> set (users w). u_Email u = email")
  case False
  then have "find (\<lambda>u. u_Email u = email) (users w) = None"
    by (simp add: find_None_iff)
  then show ?thesis
    using assms(3) False by (auto simp: AuthService_Login_def FindByEmail_answered [OF assms(1)])
next
  case True
  then obtain u where u: "u \<in> set (users w)" "u_Email u = email"
    by blast
  have only: "v = u" if "v \<in> set (users w)" "u_Email v = email" for v
    using that u assms(2) distinct_key_eq [of u_Email "users w" v u] by (simp add: db_inv_def)
  have iff: "(\<exists>u \<in> set (users w). u_Email u = email \<and> env_CompareHashAndPassword E (u_PasswordHash u) pw = None)
      \<longleftrightarrow> env_CompareHashAndPassword E (u_PasswordHash u) pw = None"
    using only u by blast
  show ?thesis
    using assms(3) find_user [OF assms(2) u(1)] u(2) unfolding iff
    by (cases rule: Login_cases)
      (auto simp: FindByEmail_answered [OF assms(1)] map_sum_id_Inl dest!: issue_error)
qed

theorem login_refuses_witness:
  "fst (AuthService_Login example_env example_auth ''ann@example.com'' ''wrong'' (example_world [])) =
     Inl ErrInvalidCredentials \<and>
   fst (AuthService_Login example_env example_auth ''eve@example.com'' ''wrong'' (example_world [])) =
     Inl ErrInvalidCredentials"
  using login_refuses [OF example_no_faults(1) example_world_inv(1) prod.collapse [symmetric],
      of example_manager 3600000000000 "''ann@example.com''" "''wrong''"]
    login_refuses [OF example_no_faults(1) example_world_inv(1) prod.collapse [symmetric],
      of example_manager 3600000000000 "''eve@example.com''" "''wrong''"]
  by (simp add: example_users_def)

text \<open>Signing up with an address that is taken is answered with \<open>ErrAlreadyExists\<close> and adds no
  user and no session.\<close>

theorem signup_duplicate:
  assumes "no_faults E" and "db_inv w" and "email \<in> u_Email ` set (users w)"
    and "users_id_seq w < 2 ^ 63 - 1" and "env_GenerateFromPassword E (tick w) pw = Inr h"
    and "AuthService_Signup E (authService E tm ttl) email pw w = (r, w')"
  shows "r = Inl ErrAlreadyExists \<and> same_rows w w'"
proof -
  have "nextval (users_id_seq w) = Some (users_id_seq w + 1)"
    using assms(4) by (simp add: nextval_def)
  then show ?thesis
    using assms(3,5,6)
    by (auto simp: AuthService_Signup_def userRepository_Create_def db_call_answered [OF assms(1)]
        sql_defs Let_def same_rows_def)
qed

theorem signup_duplicate_witness:
  "fst (AuthService_Signup example_env example_auth ''bob@example.com'' ''battery2'' (example_world [])) =
     Inl ErrAlreadyExists"
  using signup_duplicate [OF example_no_faults(1) example_world_inv(1) _ _ _ prod.collapse [symmetric],
      of "''bob@example.com''" "''battery2''" "''hash:battery2''" example_manager 3600000000000]
  by (simp add: example_users_def example_hash_def)

text \<open>C25: the password given at sign-up keeps working.  After a sign-up and any further steps, a
  login with the same address and password passes the credential check for that very user; its
  result is that of issuing a token pair for the user.\<close>

theorem signup_then_login:
  assumes "no_faults E" and "bcrypt_ok E" and "db_inv w"
    and "AuthService_Signup E (authService E tm ttl) email pw w = (Inr (u, a, p), w1)"
    and "db_steps E w1 w2"
  shows "\<exists>row \<in> set (users w2). u_ID row = u_ID u \<and> u_Email row = email \<and>
    AuthService_Login E (authService E tm ttl) email pw w2 =
      (case issueTokenPair E (authService E tm ttl) (u_ID u) (w2\<lparr>tick := Suc (tick w2)\<rparr>) of
         (Inl err, w3) \<Rightarrow> (Inl err, w3)
       | (Inr (a', p'), w3) \<Rightarrow> (Inr (row, a', p'), w3))"
  using assms(4)
proof (cases rule: Signup_cases)
  case (Issue h v wa ri)
  have "v = u"
    using Issue(4) by (cases ri) auto
  with Issue(2) have
    "\<exists>row. users wa = users (w\<lparr>tick := Suc (tick w)\<rparr>) @ [row] \<and> u_ID row = u_ID u \<and> u_Email row = email \<and>
       u_PasswordHash row = h"
    using pg_users.create_ok [of E] by fastforce
  then obtain row where "users wa = users w @ [row]" and
      row: "u_ID row = u_ID u" "u_Email row = email" "u_PasswordHash row = h"
    by auto
  have "row \<in> set (users w2)"
    using \<open>users wa = _\<close> pg_auth.issue_step [OF Issue(3)] db_steps_users [OF assms(5)] by auto
  moreover have "db_inv w2"
    using assms(3) pg_auth.signup_step [OF assms(4)] db_steps_inv [OF assms(5)] by blast
  moreover have "env_CompareHashAndPassword E h pw = None"
    using assms(2) Issue(1) unfolding bcrypt_ok_def by blast
  ultimately show ?thesis
    using find_user [of w2 row] row
    by (intro bexI [of _ row]) (auto simp: AuthService_Login_def FindByEmail_answered [OF assms(1)])
qed (auto simp: map_sum_id_Inl)

lemma example_Signup:
  "\<exists>u a p w'. AuthService_Signup example_env example_auth ''eve@example.com'' ''secret'' (example_world []) =
    (Inr (u, a, p), w')"
proof -
  let ?row = "\<lparr>u_ID = 3, u_Email = ''eve@example.com'', u_PasswordHash = ''hash:secret'', u_CreatedAt = 1000000000\<rparr>"
  let ?w = "(example_world [])\<lparr>tick := 2, users_id_seq := 3, users := example_users @ [?row]\<rparr>"
  have create: "userRepository_Create example_env
      \<lparr>u_ID = 0, u_Email = ''eve@example.com'', u_PasswordHash = ''hash:secret'', u_CreatedAt = zero_time\<rparr>
      ((example_world [])\<lparr>tick := Suc 0\<rparr>) = (Inr ?row, ?w)"
    by (simp add: repo_defs db_call_answered sql_defs nextval_def example_users_def Let_def eval_nat_numeral)
  have inv: "db_inv ?w"
    using pg_user_facts(3) [OF create] example_world_inv(1) by simp
  obtain a where a: "fst (TokenManager_Generate example_env example_manager 3 ?w) = Inr a"
    using example_Generate [of ?w] by auto
  show ?thesis
    using issueTokenPair_answered [OF example_no_faults(1) _ _ inv a] create
    by (simp add: AuthService_Signup_def example_hash_def)
qed

theorem signup_then_login_witness:
  "\<exists>row. u_Email row = ''eve@example.com'' \<and> row \<in> set (users (snd (AuthService_Signup example_env example_auth
     ''eve@example.com'' ''secret'' (example_world []))))"
proof -
  obtain u a p w' where su: "AuthService_Signup example_env example_auth ''eve@example.com'' ''secret''
      (example_world []) = (Inr (u, a, p), w')"
    using example_Signup by blast
  from signup_then_login [OF example_no_faults(1) example_bcrypt_ok example_world_inv(1) su rtranclp.rtrancl_refl]
  show ?thesis
    using su by auto
qed

subsection \<open>Sessions of other users\<close>

lemma revoked_from_filter:
  assumes "revoked_from (\<lambda>t. rt_ID t = k) toks toks' \<or> revoked_from (\<lambda>t. rt_UserID t = uid) toks toks'"
    and "\<forall>t \<in> set toks. rt_ID t = k \<longrightarrow> rt_UserID t = uid"
  shows "filter (\<lambda>t. rt_UserID t \<noteq> uid) toks' = filter (\<lambda>t. rt_UserID t \<noteq> uid) toks"
proof -
  have "list_all2 (\<lambda>t t'. t' = t \<or> (rt_UserID t = uid \<and> rt_UserID t' = uid)) toks toks'"
    using assms by (auto simp: revoked_from_def elim!: list.rel_mono_strong)
  then show ?thesis
    by (induction rule: list_all2_induct) auto
qed

lemma FindByHash_only:
  assumes "db_inv w" and "t \<in> set (refresh_tokens w)" and "rt_TokenHash t = h"
    and "refreshTokenRepository_FindByHash E h w = (r, w')"
  shows "same_rows w w'" and "r = Inr s \<Longrightarrow> s = t"
  using pg_tokens.find_rows [of E] pg_tokens.find_ok [of E] unique_row(2) [OF assms(1) _ assms(2)] assms(3,4)
  by (simp, fastforce)

text \<open>Revoking the token, or all tokens of its owner, leaves the other users' rows alone.\<close>

lemma revoke_isolated:
  assumes "db_inv w" and "t \<in> set (refresh_tokens w)" and "same_rows w w1"
    and "refreshTokenRepository_Revoke E (rt_ID t) w1 = (ru, w2) \<or>
         refreshTokenRepository_RevokeAllForUser E (rt_UserID t) w1 = (ru, w2)"
  shows "filter (\<lambda>s. rt_UserID s \<noteq> rt_UserID t) (refresh_tokens w2) =
         filter (\<lambda>s. rt_UserID s \<noteq> rt_UserID t) (refresh_tokens w)"
proof -
  have "\<forall>s \<in> set (refresh_tokens w). rt_ID s = rt_ID t \<longrightarrow> rt_UserID s = rt_UserID t"
    using unique_row(1) [OF assms(1) _ assms(2)] by blast
  moreover have "revoked_from (\<lambda>s. rt_ID s = rt_ID t) (refresh_tokens w) (refresh_tokens w2) \<or>
      revoked_from (\<lambda>s. rt_UserID s = rt_UserID t) (refresh_tokens w) (refresh_tokens w2)"
    using assms(3,4) pg_token_facts(6,8) by (metis same_rowsD(3))
  ultimately show ?thesis
    by (intro revoked_from_filter)
qed

lemma Refresh_isolated:
  assumes "db_inv w" and "t \<in> set (refresh_tokens w)" and "rt_TokenHash t = hashRefreshToken p"
    and "AuthService_Refresh E (authService E tm ttl) p w = (r, w')"
  shows "filter (\<lambda>s. rt_UserID s \<noteq> rt_UserID t) (refresh_tokens w') =
         filter (\<lambda>s. rt_UserID s \<noteq> rt_UserID t) (refresh_tokens w)"
  using assms(4)
proof (cases rule: Refresh_cases)
  case (Rotated s w1 w2)
  have s: "s = t" "same_rows w w1"
    using FindByHash_only [OF assms(1-3)] Rotated(1) by fastforce+
  then have "filter (\<lambda>s. rt_UserID s \<noteq> rt_UserID t) (refresh_tokens w2) =
      filter (\<lambda>s. rt_UserID s \<noteq> rt_UserID t) (refresh_tokens w)"
    using revoke_isolated [OF assms(1,2), of "w1\<lparr>tick := Suc (tick w1)\<rparr>"] Rotated(4)
    by (fastforce simp: same_rows_def)
  then show ?thesis
    using pg_auth.issue_step [OF Rotated(5)] s(1) by auto
next
  case (Raced s w1 e)
  then have "s = t" "same_rows w w1"
    using FindByHash_only [OF assms(1-3)] by fastforce+
  then show ?thesis
    using revoke_isolated [OF assms(1,2), of "w1\<lparr>tick := Suc (tick w1)\<rparr>"] Raced(4)
    by (fastforce simp: same_rows_def)
next
  case (Reused s w1 ra)
  then have "s = t" "same_rows w w1"
    using FindByHash_only [OF assms(1-3)] by fastforce+
  then show ?thesis
    using revoke_isolated [OF assms(1,2)] Reused(3) by fastforce
next
  case (Expired s w1)
  then show ?thesis
    using FindByHash_only(1) [OF assms(1-3)] by fastforce
next
  case (Unknown e)
  then show ?thesis
    using FindByHash_only(1) [OF assms(1-3)] by fastforce
qed

lemma Logout_isolated:
  assumes "db_inv w" and "t \<in> set (refresh_tokens w)" and "rt_TokenHash t = hashRefreshToken p"
    and "AuthService_Logout E (authService E tm ttl) p w = (r, w')"
  shows "filter (\<lambda>s. rt_UserID s \<noteq> rt_UserID t) (refresh_tokens w') =
         filter (\<lambda>s. rt_UserID s \<noteq> rt_UserID t) (refresh_tokens w)"
  using assms(4)
proof (cases rule: Logout_cases)
  case (Revoking s w1)
  then have "s = t" "same_rows w w1"
    using FindByHash_only [OF assms(1-3)] by fastforce+
  then show ?thesis
    using revoke_isolated [OF assms(1,2)] Revoking(3) by fastforce
qed (use FindByHash_only(1) [OF assms(1-3)] in \<open>fastforce+\<close>)

text \<open>A refresh or a logout touches the sessions of the token's owner only.  Whatever the
  environment answers, the rows of every other user stay as they are, and so do users and tasks.\<close>

theorem session_isolation:
  assumes "db_inv w" and "t \<in> set (refresh_tokens w)" and "rt_TokenHash t = hashRefreshToken p"
    and "w' = serve E tm ttl (Req_Refresh p) w \<or> w' = serve E tm ttl (Req_Logout p) w"
  shows "filter (\<lambda>s. rt_UserID s \<noteq> rt_UserID t) (refresh_tokens w') =
      filter (\<lambda>s. rt_UserID s \<noteq> rt_UserID t) (refresh_tokens w) \<and> users w' = users w \<and> tasks w' = tasks w"
  using assms(4)
proof
  assume w': "w' = serve E tm ttl (Req_Refresh p) w"
  then have "AuthService_Refresh E (authService E tm ttl) p w =
      (fst (AuthService_Refresh E (authService E tm ttl) p w), w')"
    by simp
  from Refresh_isolated [OF assms(1-3) this] pg_auth.refresh_step [OF this] show ?thesis
    by simp
next
  assume w': "w' = serve E tm ttl (Req_Logout p) w"
  then have "AuthService_Logout E (authService E tm ttl) p w =
      (fst (AuthService_Logout E (authService E tm ttl) p w), w')"
    by simp
  from Logout_isolated [OF assms(1-3) this] pg_auth.logout_step [OF this] show ?thesis
    by simp
qed

theorem session_isolation_witness:
  "filter (\<lambda>s. rt_UserID s \<noteq> 1) (refresh_tokens (serve example_env example_manager 3600000000000 (Req_Refresh ''abc'')
     (example_world [example_row (Some 5), example_token 2 2 ''other'' None]))) = [example_token 2 2 ''other'' None]"
proof -
  have "hashRefreshToken ''abc'' \<noteq> ''other''"
    using length_hashRefreshToken [of "''abc''"] by auto
  then have "db_inv (example_world [example_row (Some 5), example_token 2 2 ''other'' None])"
    unfolding example_row_def by (rule example_world_inv)
  from session_isolation [OF this _ _ disjI1 [OF refl], of "example_row (Some 5)" "''abc''" example_env
      example_manager 3600000000000]
  show ?thesis
    by (simp del: serve.simps)
qed

end
