(* ===== verification/AuthBook.thy ===== *)
theory AuthBook
  imports Simulation AuthProperties
begin

text \<open>
  What the authentication service promises: a book of accounts by their addresses and of sessions by the hashes of
  their tokens.  The service refines it when the database answers.
\<close>

subsection \<open>The book of accounts and sessions\<close>

text \<open>A session: its owner, its expiry and whether it is open.\<close>

type_synonym session_entry = "int64 \<times> time \<times> bool"

record auth_book =
  ab_clock :: time
  ab_accounts :: "string \<Rightarrow> User option"
  ab_sessions :: "string \<Rightarrow> session_entry option"

definition entry :: "RefreshToken \<Rightarrow> session_entry" where
  "entry t = (rt_UserID t, rt_ExpiresAt t, \<not> RefreshToken_Revoked t)"

definition sessions_of :: "world \<Rightarrow> string \<Rightarrow> session_entry option" where
  "sessions_of w h = map_option entry (find (\<lambda>t. rt_TokenHash t = h) (refresh_tokens w))"

definition accounts_of :: "world \<Rightarrow> string \<Rightarrow> User option" where
  "accounts_of w email = find (\<lambda>u. u_Email u = email) (users w)"

definition auth_of :: "env \<Rightarrow> world \<Rightarrow> auth_book" where
  "auth_of E w = \<lparr>ab_clock = env_now E (tick w), ab_accounts = accounts_of w, ab_sessions = sessions_of w\<rparr>"

datatype auth_op = SignUp string string | LogIn string string | Renew string | LogOut string

text \<open>The refresh token a client gets, with the account at sign-up and login.\<close>

datatype auth_reply = Ended | Granted "User option" string

fun auth_exec :: "env \<Rightarrow> AuthService \<Rightarrow> auth_op \<Rightarrow> world \<Rightarrow> (error + auth_reply) \<times> world" where
  "auth_exec E s (SignUp email pw) w =
     map_prod (map_sum id (\<lambda>(u, a, p). Granted (Some u) p)) id (AuthService_Signup E s email pw w)"
| "auth_exec E s (LogIn email pw) w =
     map_prod (map_sum id (\<lambda>(u, a, p). Granted (Some u) p)) id (AuthService_Login E s email pw w)"
| "auth_exec E s (Renew p) w = map_prod (map_sum id (\<lambda>(a, p). Granted None p)) id (AuthService_Refresh E s p w)"
| "auth_exec E s (LogOut p) w = map_prod (map_sum id (\<lambda>_. Ended)) id (AuthService_Logout E s p w)"

text \<open>
  Closing a session or all sessions of a user; and opening one.  Opening may fail with an internal error, in the JWT
  library, the random source, on a token that is taken or on used-up ids; that it succeeds otherwise, with which
  row, is proved in \<open>AuthProperties\<close>.
\<close>

definition close_session :: "string \<Rightarrow> (string \<Rightarrow> session_entry option) \<Rightarrow> string \<Rightarrow> session_entry option" where
  "close_session h S = S(h := map_option (\<lambda>(u, e, b). (u, e, False)) (S h))"

definition close_all :: "int64 \<Rightarrow> (string \<Rightarrow> session_entry option) \<Rightarrow> string \<Rightarrow> session_entry option" where
  "close_all uid S h = map_option (\<lambda>(u, e, b). (u, e, b \<and> u \<noteq> uid)) (S h)"

inductive opens ::
  "(string \<Rightarrow> session_entry option) \<Rightarrow> int64 \<Rightarrow> error + string \<Rightarrow> (string \<Rightarrow> session_entry option) \<Rightarrow> bool" where
  opened: "S (hashRefreshToken p) = None \<Longrightarrow> opens S uid (Inr p) (S(hashRefreshToken p \<mapsto> (uid, e, True)))"
| not_opened: "internal e \<Longrightarrow> opens S uid (Inl e) S"

text \<open>
  What the book promises.  \<open>accept\<close> tells whether a hash is one of a password.  Every call takes some time; a
  token is expired or not at a moment within the call.
\<close>

inductive auth_spec ::
  "(string \<Rightarrow> string \<Rightarrow> bool) \<Rightarrow> auth_book \<Rightarrow> auth_op \<Rightarrow> error + auth_reply \<Rightarrow> auth_book \<Rightarrow> bool" for accept where
  signed_up:
    "ab_clock b \<le> c \<Longrightarrow> ab_accounts b email = None \<Longrightarrow> u_Email u = email \<Longrightarrow> accept (u_PasswordHash u) pw \<Longrightarrow>
     u_ID u \<notin> u_ID ` ran (ab_accounts b) \<Longrightarrow> opens (ab_sessions b) (u_ID u) r S \<Longrightarrow>
     auth_spec accept b (SignUp email pw) (map_sum id (Granted (Some u)) r)
       \<lparr>ab_clock = c, ab_accounts = (ab_accounts b)(email \<mapsto> u), ab_sessions = S\<rparr>"
| taken:
    "ab_clock b \<le> c \<Longrightarrow> ab_accounts b email \<noteq> None \<Longrightarrow>
     auth_spec accept b (SignUp email pw) (Inl ErrAlreadyExists) (b\<lparr>ab_clock := c\<rparr>)"
| not_signed_up:
    "ab_clock b \<le> c \<Longrightarrow> internal e \<Longrightarrow> auth_spec accept b (SignUp email pw) (Inl e) (b\<lparr>ab_clock := c\<rparr>)"
| logged_in:
    "ab_clock b \<le> c \<Longrightarrow> ab_accounts b email = Some u \<Longrightarrow> accept (u_PasswordHash u) pw \<Longrightarrow>
     opens (ab_sessions b) (u_ID u) r S \<Longrightarrow>
     auth_spec accept b (LogIn email pw) (map_sum id (Granted (Some u)) r) (b\<lparr>ab_clock := c, ab_sessions := S\<rparr>)"
| not_logged_in:
    "ab_clock b \<le> c \<Longrightarrow> \<forall>u. ab_accounts b email = Some u \<longrightarrow> \<not> accept (u_PasswordHash u) pw \<Longrightarrow>
     auth_spec accept b (LogIn email pw) (Inl ErrInvalidCredentials) (b\<lparr>ab_clock := c\<rparr>)"
| unknown:
    "ab_clock b \<le> c \<Longrightarrow> ab_sessions b (hashRefreshToken p) = None \<Longrightarrow>
     auth_spec accept b (Renew p) (Inl ErrTokenInvalid) (b\<lparr>ab_clock := c\<rparr>)"
| reused:
    "ab_clock b \<le> c \<Longrightarrow> ab_sessions b (hashRefreshToken p) = Some (uid, e, False) \<Longrightarrow>
     auth_spec accept b (Renew p) (Inl ErrTokenInvalid)
       (b\<lparr>ab_clock := c, ab_sessions := close_all uid (ab_sessions b)\<rparr>)"
| expired:
    "ab_clock b \<le> now \<Longrightarrow> now \<le> c \<Longrightarrow> ab_sessions b (hashRefreshToken p) = Some (uid, e, True) \<Longrightarrow> e < now \<Longrightarrow>
     auth_spec accept b (Renew p) (Inl ErrTokenInvalid) (b\<lparr>ab_clock := c\<rparr>)"
| renewed:
    "ab_clock b \<le> now \<Longrightarrow> now \<le> c \<Longrightarrow> ab_sessions b (hashRefreshToken p) = Some (uid, e, True) \<Longrightarrow> now \<le> e \<Longrightarrow>
     opens (close_session (hashRefreshToken p) (ab_sessions b)) uid r S \<Longrightarrow>
     auth_spec accept b (Renew p) (map_sum id (Granted None) r) (b\<lparr>ab_clock := c, ab_sessions := S\<rparr>)"
| no_session:
    "ab_clock b \<le> c \<Longrightarrow> ab_sessions b (hashRefreshToken p) = None \<Longrightarrow>
     auth_spec accept b (LogOut p) (Inl ErrTokenInvalid) (b\<lparr>ab_clock := c\<rparr>)"
| logged_out:
    "ab_clock b \<le> c \<Longrightarrow> ab_sessions b (hashRefreshToken p) \<noteq> None \<Longrightarrow>
     auth_spec accept b (LogOut p) (Inr Ended)
       (b\<lparr>ab_clock := c, ab_sessions := close_session (hashRefreshToken p) (ab_sessions b)\<rparr>)"

lemma auth_of_sel [simp]:
  "ab_clock (auth_of E w) = env_now E (tick w)" "ab_accounts (auth_of E w) = accounts_of w"
  "ab_sessions (auth_of E w) = sessions_of w"
  by (simp_all add: auth_of_def)

lemma auth_of_eq:
  "accounts_of w' = accounts_of w \<Longrightarrow> auth_of E w' = (auth_of E w)\<lparr>ab_clock := env_now E (tick w'), ab_sessions := sessions_of w'\<rparr>"
  by (simp add: auth_of_def)

lemma book_frame [simp]:
  "sessions_of (w\<lparr>tick := n\<rparr>) = sessions_of w" "accounts_of (w\<lparr>tick := n\<rparr>) = accounts_of w"
  by (simp_all add: sessions_of_def accounts_of_def fun_eq_iff)

lemma book_rows:
  "refresh_tokens w' = refresh_tokens w \<Longrightarrow> sessions_of w' = sessions_of w"
  "users w' = users w \<Longrightarrow> accounts_of w' = accounts_of w"
  by (simp_all add: sessions_of_def accounts_of_def fun_eq_iff)

text \<open>Inserting and revoking rows.\<close>

lemma sessions_append:
  assumes "refresh_tokens w' = refresh_tokens w @ [row]" and "sessions_of w (rt_TokenHash row) = None"
  shows "sessions_of w' = (sessions_of w)(rt_TokenHash row \<mapsto> entry row)"
  using assms by (auto simp: sessions_of_def find_append fun_eq_iff split: option.splits)

lemma sessions_revoke:
  assumes "refresh_tokens w' = update_where p (\<lambda>t. t\<lparr>rt_RevokedAt := Some c\<rparr>) (refresh_tokens w)"
  shows "sessions_of w' h =
    map_option (\<lambda>t. (rt_UserID t, rt_ExpiresAt t, \<not> RefreshToken_Revoked t \<and> \<not> p t))
      (find (\<lambda>t. rt_TokenHash t = h) (refresh_tokens w))"
  using find_update_where [of p rt_TokenHash "\<lambda>t. t\<lparr>rt_RevokedAt := Some c\<rparr>" h "refresh_tokens w"] assms
  by (auto simp: sessions_of_def entry_def RefreshToken_Revoked_def option.map_comp o_def intro!: option.map_cong
      split: if_splits)

lemma revoke_one:
  assumes "db_inv w" and "t \<in> set (refresh_tokens w)" and "\<not> RefreshToken_Revoked t"
    and "refresh_tokens w' = update_where (\<lambda>r. rt_ID r = rt_ID t \<and> rt_RevokedAt r = None)
           (\<lambda>r. r\<lparr>rt_RevokedAt := Some c\<rparr>) (refresh_tokens w)"
  shows "sessions_of w' = close_session (rt_TokenHash t) (sessions_of w)"
proof
  fix h
  have "sessions_of w' h = map_option (\<lambda>r. (rt_UserID r, rt_ExpiresAt r, \<not> RefreshToken_Revoked r \<and> r \<noteq> t))
      (find (\<lambda>r. rt_TokenHash r = h) (refresh_tokens w))"
    using sessions_revoke [of w' "\<lambda>r. r = t" c w h] assms(4) revoke_by_id [OF assms(1-3)] by simp
  then show "sessions_of w' h = close_session (rt_TokenHash t) (sessions_of w) h"
    using find_token [OF assms(1,2)]
    by (cases "find (\<lambda>r. rt_TokenHash r = h) (refresh_tokens w)")
      (auto simp: close_session_def sessions_of_def entry_def dest: find_SomeD)
qed

lemma revoke_all:
  assumes "refresh_tokens w' = update_where (\<lambda>r. rt_UserID r = uid \<and> rt_RevokedAt r = None)
           (\<lambda>r. r\<lparr>rt_RevokedAt := Some c\<rparr>) (refresh_tokens w)"
  shows "sessions_of w' = close_all uid (sessions_of w)"
  using sessions_revoke [OF assms]
  by (auto simp: fun_eq_iff close_all_def sessions_of_def entry_def option.map_comp o_def RefreshToken_Revoked_def
      intro!: option.map_cong)

lemma issue_opens:
  assumes "no_faults E" and "foreign_errors E" and "uid \<in> u_ID ` set (users w)"
    and "issueTokenPair E (authService E tm ttl) uid w = (r, w')"
  shows "opens (sessions_of w) uid (map_sum id snd r) (sessions_of w') \<and> users w' = users w \<and> tick w \<le> tick w'"
  using assms(4)
proof (cases rule: issueTokenPair_cases)
  case (Early e n)
  then show ?thesis
    using fails_withD [OF issue_errors [OF assms(2)], of tm ttl uid w e w'] assms(4) by (auto intro!: not_opened)
next
  case (Persist a p x rc)
  let ?h = "hashRefreshToken p"
  show ?thesis
  proof (cases rc)
    case (Inl e)
    then have "refresh_tokens w' = refresh_tokens w" "users w' = users w" "tick w \<le> tick w'"
      using Persist(1)
      by (auto simp: repo_defs db_call_answered [OF assms(1)] sql_defs Let_def split: if_splits option.splits)
    then show ?thesis
      using Persist(1,2) Inl book_rows(1) [of w' w] fails_withD [OF repository_errors(2), of E _ "w\<lparr>tick := tick w + 4\<rparr>" e w' "{}"]
      by (auto intro!: not_opened)
  next
    case (Inr t)
    then obtain row where row: "refresh_tokens w' = refresh_tokens w @ [row]" "rt_TokenHash row = ?h"
        "entry row = (uid, rt_ExpiresAt row, True)" "?h \<notin> rt_TokenHash ` set (refresh_tokens w)"
        "users w' = users w" "tick w \<le> tick w'"
      using Persist(1)
      by (auto simp: repo_defs db_call_answered [OF assms(1)] sql_defs Let_def entry_def RefreshToken_Revoked_def
          split: if_splits option.splits)
    then have "sessions_of w ?h = None"
      by (auto simp: sessions_of_def find_None_iff image_iff)
    then show ?thesis
      using sessions_append [OF row(1)] row Persist(2) Inr opened [of "sessions_of w" p uid] by auto
  qed
qed

lemma renew_simulated:
  assumes "no_faults E" and "db_inv w" and "mono (env_now E)" and "foreign_errors E"
    and "AuthService_Refresh E (authService E tm ttl) p w = (r, w')"
  shows "auth_spec accept (auth_of E w) (Renew p) (map_sum id (\<lambda>(a, p). Granted None p) r) (auth_of E w')"
proof -
  let ?h = "hashRefreshToken p"
  have later: "env_now E n \<le> env_now E m" if "n \<le> m" for n m
    using assms(3) that by (rule monoD)
  have accounts: "accounts_of w' = accounts_of w"
    using pg_auth.refresh_step [OF assms(5)] by (intro book_rows) simp
  show ?thesis
  proof (cases "find (\<lambda>t. rt_TokenHash t = ?h) (refresh_tokens w)")
    case None
    then have "r = Inl ErrTokenInvalid" "w' = w\<lparr>tick := Suc (tick w)\<rparr>"
      using assms(5) by (simp_all add: AuthService_Refresh_def FindByHash_answered [OF assms(1)])
    then show ?thesis
      using None unknown [of "auth_of E w" "env_now E (Suc (tick w))" p] later
      by (simp add: sessions_of_def auth_of_def)
  next
    case (Some t)
    note t = find_SomeD [OF Some]
    have find: "refreshTokenRepository_FindByHash E ?h w = (Inr t, w\<lparr>tick := Suc (tick w)\<rparr>)"
      using Some by (simp add: FindByHash_answered [OF assms(1)])
    have entry: "sessions_of w ?h = Some (rt_UserID t, rt_ExpiresAt t, \<not> RefreshToken_Revoked t)"
      using Some by (simp add: sessions_of_def entry_def)
    show ?thesis
      using assms(5)
    proof (cases rule: Refresh_cases)
      case (Unknown e)
      then show ?thesis
        using find by simp
    next
      case (Reused t' w1 ra)
      then have "r = Inl ErrTokenInvalid" "tick w \<le> tick w'" "sessions_of w' = close_all (rt_UserID t) (sessions_of w)"
        using find revoke_all [of w' "rt_UserID t" _ w]
        by (auto simp: RevokeAllForUser_answered [OF assms(1)])
      then show ?thesis
        using reused [of "auth_of E w" "env_now E (tick w')" p "rt_UserID t" "rt_ExpiresAt t"] entry Reused find later
          auth_of_eq [OF accounts]
        by simp
    next
      case (Expired t' w1)
      then have "r = Inl ErrTokenInvalid" "w' = w\<lparr>tick := tick w + 2\<rparr>" "rt_ExpiresAt t < env_now E (tick w + 1)"
          "\<not> RefreshToken_Revoked t"
        using find by (auto simp: RefreshToken_Expired_def)
      then show ?thesis
        using entry later
          expired [of "auth_of E w" "env_now E (tick w + 1)" "env_now E (tick w + 2)" p "rt_UserID t" "rt_ExpiresAt t"]
        by (simp add: auth_of_def)
    next
      case (Raced t' w1 e)
      then show ?thesis
        using find t by (auto simp: Revoke_answered [OF assms(1)] split: if_splits)
    next
      case (Rotated t' w1 w2)
      then have w2: "w2 = w\<lparr>tick := tick w + 3, refresh_tokens := refresh_tokens w2\<rparr>"
          "sessions_of w2 = close_session ?h (sessions_of w)"
        using find t revoke_one [OF assms(2), of t w2]
        by (auto simp: Revoke_answered [OF assms(1)] eval_nat_numeral split: if_splits)
      have users: "users w2 = users w" and ticks: "tick w2 = tick w + 3"
        using arg_cong [OF w2(1), of users] arg_cong [OF w2(1), of tick] by simp_all
      have owner: "rt_UserID t \<in> u_ID ` set (users w2)"
        using assms(2) t users by (simp add: db_inv_def)
      have "issueTokenPair E (authService E tm ttl) (rt_UserID t) w2 = (r, w')"
        using Rotated(1,5) find by simp
      from issue_opens [OF assms(1,4) owner this]
      have "opens (sessions_of w2) (rt_UserID t) (map_sum id snd r) (sessions_of w')" "tick w + 3 \<le> tick w'"
        using ticks by simp_all
      moreover have "\<not> RefreshToken_Revoked t" "env_now E (tick w + 1) \<le> rt_ExpiresAt t"
        using find Rotated(1-3) by (auto simp: RefreshToken_Expired_def)
      ultimately have "auth_spec accept (auth_of E w) (Renew p) (map_sum id (Granted None) (map_sum id snd r))
          ((auth_of E w)\<lparr>ab_clock := env_now E (tick w'), ab_sessions := sessions_of w'\<rparr>)"
        using entry w2(2)
        by (intro renewed [where now = "env_now E (tick w + 1)" and e = "rt_ExpiresAt t"]) (simp_all add: later)
      moreover have "map_sum id (\<lambda>(a, p). Granted None p) r = map_sum id (Granted None) (map_sum id snd r)"
        by (cases r) auto
      ultimately show ?thesis
        by (simp only: auth_of_eq [OF accounts, of E])
    qed
  qed
qed

lemma logout_simulated:
  assumes "no_faults E" and "db_inv w" and "mono (env_now E)"
    and "AuthService_Logout E (authService E tm ttl) p w = (r, w')"
  shows "auth_spec accept (auth_of E w) (LogOut p) (map_sum id (\<lambda>_. Ended) r) (auth_of E w')"
proof -
  let ?h = "hashRefreshToken p"
  have accounts: "accounts_of w' = accounts_of w"
    using pg_auth.logout_step [OF assms(4)] by (intro book_rows) simp
  show ?thesis
  proof (cases "find (\<lambda>t. rt_TokenHash t = ?h) (refresh_tokens w)")
    case None
    then have "r = Inl ErrTokenInvalid" "w' = w\<lparr>tick := Suc (tick w)\<rparr>"
      using assms(4) by (simp_all add: AuthService_Logout_def FindByHash_answered [OF assms(1)])
    then show ?thesis
      using None no_session [of "auth_of E w" "env_now E (Suc (tick w))" p] monoD [OF assms(3)]
      by (simp add: sessions_of_def auth_of_def)
  next
    case (Some t)
    note t = find_SomeD [OF Some]
    have find: "refreshTokenRepository_FindByHash E ?h w = (Inr t, w\<lparr>tick := Suc (tick w)\<rparr>)"
      using Some by (simp add: FindByHash_answered [OF assms(1)])
    have entry: "sessions_of w ?h = Some (entry t)"
      using Some by (simp add: sessions_of_def)
    have "r = Inr () \<and> tick w \<le> tick w' \<and> sessions_of w' = close_session ?h (sessions_of w)"
    proof (cases "RefreshToken_Revoked t")
      case True
      then have "close_session ?h (sessions_of w) = sessions_of w"
        using entry by (auto simp: close_session_def entry_def fun_eq_iff)
      then show ?thesis
        using True find assms(4) by (auto simp: AuthService_Logout_def)
    next
      case False
      then show ?thesis
        using find assms(4) t revoke_one [OF assms(2), of t w']
        by (auto simp: AuthService_Logout_def Revoke_answered [OF assms(1)])
    qed
    then show ?thesis
      using logged_out [of "auth_of E w" "env_now E (tick w')" p accept] entry monoD [OF assms(3)] auth_of_eq [OF accounts]
      by simp
  qed
qed

text \<open>What a password is checked against.\<close>

abbreviation accepts :: "env \<Rightarrow> string \<Rightarrow> string \<Rightarrow> bool" where
  "accepts E h pw \<equiv> env_CompareHashAndPassword E h pw = None"

lemma login_simulated:
  assumes "no_faults E" and "db_inv w" and "mono (env_now E)" and "foreign_errors E"
    and "AuthService_Login E (authService E tm ttl) email pw w = (r, w')"
  shows "auth_spec (accepts E) (auth_of E w) (LogIn email pw) (map_sum id (\<lambda>(u, a, p). Granted (Some u) p) r) (auth_of E w')"
proof -
  have accounts: "accounts_of w' = accounts_of w"
    using pg_auth.login_step [OF assms(5)] by (intro book_rows) simp
  show ?thesis
    using assms(5)
  proof (cases rule: Login_cases)
    case (NoUser e)
    then have "accounts_of w email = None" "r = Inl ErrInvalidCredentials" "w' = w\<lparr>tick := Suc (tick w)\<rparr>"
      by (auto simp: FindByEmail_answered [OF assms(1)] accounts_of_def split: option.splits)
    then show ?thesis
      using not_logged_in [of "auth_of E w" "env_now E (Suc (tick w))" email "accepts E" pw] monoD [OF assms(3)]
      by (simp add: auth_of_def)
  next
    case (BadPassword u)
    then have "accounts_of w email = Some u" "w' = w\<lparr>tick := Suc (tick w)\<rparr>"
      by (auto simp: FindByEmail_answered [OF assms(1)] accounts_of_def split: option.splits)
    then show ?thesis
      using BadPassword not_logged_in [of "auth_of E w" "env_now E (Suc (tick w))" email "accepts E" pw]
        monoD [OF assms(3)]
      by (simp add: auth_of_def)
  next
    case (Issue u w1 ri)
    then have u: "accounts_of w email = Some u" "w1 = w\<lparr>tick := Suc (tick w)\<rparr>"
      by (auto simp: FindByEmail_answered [OF assms(1)] accounts_of_def split: option.splits)
    then have "u_ID u \<in> u_ID ` set (users w1)"
      by (auto simp: accounts_of_def dest: find_SomeD)
    then have "opens (sessions_of w) (u_ID u) (map_sum id snd ri) (sessions_of w')" "Suc (tick w) \<le> tick w'"
      using issue_opens [OF assms(1,4) _ Issue(3) [unfolded NewAuthService_sel]] u(2) by auto
    moreover have "map_sum id (\<lambda>(u, a, p). Granted (Some u) p) r = map_sum id (Granted (Some u)) (map_sum id snd ri)"
      using Issue(4) by (cases ri) auto
    ultimately show ?thesis
      using logged_in [of "auth_of E w" "env_now E (tick w')" email u "accepts E" pw "map_sum id snd ri" "sessions_of w'"]
        u Issue(2) monoD [OF assms(3)] auth_of_eq [OF accounts]
      by simp
  qed
qed

lemma accounts_append:
  assumes "users w' = users w @ [u]" and "u_Email u \<notin> u_Email ` set (users w)"
  shows "accounts_of w' = (accounts_of w)(u_Email u \<mapsto> u)"
proof -
  have "find (\<lambda>v. u_Email v = u_Email u) (users w) = None"
    using assms(2) by (auto simp: find_None_iff image_iff)
  then show ?thesis
    using assms(1) by (auto simp: accounts_of_def find_append fun_eq_iff split: option.splits)
qed

lemma ran_accounts:
  assumes "db_inv w"
  shows "ran (accounts_of w) = set (users w)"
  using find_user [OF assms] by (auto simp: ran_def accounts_of_def dest: find_SomeD)

lemma internal_sequence [simp]: "internal (sequence_limit_exceeded E)"
  by (simp add: sequence_limit_exceeded_def)

lemma user_Create_answered:
  assumes "no_faults E" and "db_inv w"
    and "userRepository_Create E \<lparr>u_ID = 0, u_Email = email, u_PasswordHash = h, u_CreatedAt = zero_time\<rparr> w = (r, w')"
  shows "refresh_tokens w' = refresh_tokens w \<and> tick w \<le> tick w' \<and>
    (case r of
       Inl e \<Rightarrow> users w' = users w \<and> (internal e \<or> e = ErrAlreadyExists \<and> email \<in> u_Email ` set (users w))
     | Inr u \<Rightarrow> users w' = users w @ [u] \<and> u_Email u = email \<and> u_PasswordHash u = h \<and>
         email \<notin> u_Email ` set (users w) \<and> u_ID u \<notin> u_ID ` set (users w))"
  using assms(3) db_inv_next(1) [OF assms(2)]
  by (auto simp: repo_defs db_call_answered [OF assms(1)] sql_defs Let_def isUniqueViolation_simps
      split: option.splits if_splits)

lemma signup_simulated:
  assumes "no_faults E" and "db_inv w" and "mono (env_now E)" and "foreign_errors E" and "bcrypt_ok E"
    and "AuthService_Signup E (authService E tm ttl) email pw w = (r, w')"
  shows "auth_spec (accepts E) (auth_of E w) (SignUp email pw) (map_sum id (\<lambda>(u, a, p). Granted (Some u) p) r) (auth_of E w')"
  using assms(6)
proof (cases rule: Signup_cases)
  case (HashFails e)
  then have "internal e"
    using assms(4) by (auto simp: foreign_errors_def)
  then show ?thesis
    using HashFails not_signed_up [of "auth_of E w" "env_now E (Suc (tick w))" _ "accepts E" email pw] monoD [OF assms(3)]
    by (simp add: auth_of_def)
next
  case (CreateFails h e)
  note facts = user_Create_answered [OF assms(1) _ CreateFails(2) [unfolded NewAuthService_sel NewUserRepository_sel]]
  have w': "auth_of E w' = (auth_of E w)\<lparr>ab_clock := env_now E (tick w')\<rparr>" and tick: "tick w \<le> tick w'"
    using facts assms(2) book_rows [of w' w] by (auto simp: auth_of_def)
  consider "internal e" | "e = ErrAlreadyExists" "email \<in> u_Email ` set (users w)"
    using facts assms(2) by auto
  then show ?thesis
  proof cases
    case 1
    then show ?thesis
      using CreateFails(3) w' tick not_signed_up [of "auth_of E w" "env_now E (tick w')" e] monoD [OF assms(3)] by simp
  next
    case 2
    then have "accounts_of w email \<noteq> None"
      by (auto simp: accounts_of_def find_None_iff)
    then show ?thesis
      using 2 CreateFails(3) w' tick taken [of "auth_of E w" "env_now E (tick w')" email] monoD [OF assms(3)] by simp
  qed
next
  case (Issue h u w1 ri)
  note facts = user_Create_answered [OF assms(1) _ Issue(2) [unfolded NewAuthService_sel NewUserRepository_sel]]
  have u: "users w1 = users w @ [u]" "u_Email u = email" "u_PasswordHash u = h" "u_Email u \<notin> u_Email ` set (users w)"
      "u_ID u \<notin> u_ID ` set (users w)" "refresh_tokens w1 = refresh_tokens w" "tick w \<le> tick w1"
    using facts assms(2) by auto
  have opens: "opens (sessions_of w) (u_ID u) (map_sum id snd ri) (sessions_of w')" "users w' = users w1" "tick w \<le> tick w'"
    using issue_opens [OF assms(1,4) _ Issue(3)] u book_rows(1) [OF u(6)] by auto
  have "accounts_of w' = (accounts_of w)(email \<mapsto> u)"
    using accounts_append [of w' w u] opens(2) u by simp
  then have w': "auth_of E w' = \<lparr>ab_clock = env_now E (tick w'), ab_accounts = (accounts_of w)(email \<mapsto> u),
      ab_sessions = sessions_of w'\<rparr>"
    by (simp add: auth_of_def)
  have "accounts_of w email = None"
    using u by (auto simp: accounts_of_def find_None_iff image_iff)
  moreover have "accepts E (u_PasswordHash u) pw"
    using assms(5) Issue(1) u(3) by (auto simp: bcrypt_ok_def)
  moreover have "map_sum id (\<lambda>(u, a, p). Granted (Some u) p) r = map_sum id (Granted (Some u)) (map_sum id snd ri)"
    using Issue(4) by (cases ri) auto
  ultimately show ?thesis
    using signed_up [of "auth_of E w" "env_now E (tick w')" email u "accepts E" pw "map_sum id snd ri" "sessions_of w'"]
      opens u w' ran_accounts [OF assms(2)] monoD [OF assms(3)]
    by simp
qed

lemma auth_exec_simulated:
  assumes "no_faults E" and "bcrypt_ok E" and "foreign_errors E" and "mono (env_now E)" and "db_inv w"
    and "auth_exec E (authService E tm ttl) c w = (r, w')"
  shows "db_inv w' \<and> auth_spec (accepts E) (auth_of E w) c r (auth_of E w')"
proof (cases c)
  case (SignUp email pw)
  then show ?thesis
    using assms(6) signup_simulated [OF assms(1,5,4,3,2)] db_steps_inv [OF signup_steps assms(5)]
    by (auto elim!: map_prod_idE)
next
  case (LogIn email pw)
  then show ?thesis
    using assms(6) login_simulated [OF assms(1,5,4,3)] db_steps_inv [OF login_steps assms(5)]
    by (auto elim!: map_prod_idE)
next
  case (Renew p)
  then show ?thesis
    using assms(6) renew_simulated [OF assms(1,5,4,3)] db_steps_inv [OF refresh_steps assms(5)]
    by (auto elim!: map_prod_idE)
next
  case (LogOut p)
  then show ?thesis
    using assms(6) logout_simulated [OF assms(1,5,4)] db_steps_inv [OF logout_steps assms(5)]
    by (auto elim!: map_prod_idE)
qed

interpretation auth_book: simulation "\<lambda>w. no_faults E \<and> bcrypt_ok E \<and> foreign_errors E \<and> mono (env_now E) \<and> db_inv w" "auth_of E"
    "auth_exec E (authService E tm ttl)" "auth_spec (accepts E)" for E tm ttl
  by unfold_locales (use auth_exec_simulated in blast)

inductive_cases log_outE: "auth_spec accept b (LogOut p) r b'"
inductive_cases renewE: "auth_spec accept b (Renew p) r b'"

text \<open>C1: the authentication service is a book of accounts and sessions.  Whatever sequence of sign-ups, logins,
  refreshes and logouts is made of it on a sound store, when the database answers and the clock does not run backwards,
  every reply is one the book allows: an account is made once and opens with its password only; a session is opened
  under a new token, renewed once, closed on logout, and all sessions of a user are closed when a closed one comes
  back.\<close>

theorem auth_service_refines:
  assumes "no_faults E" and "bcrypt_ok E" and "foreign_errors E" and "mono (env_now E)" and "db_inv w"
    and "replies (auth_exec E (authService E tm ttl)) calls w = (rs, w')"
  shows "allows (auth_spec (accepts E)) (auth_of E w) calls rs (auth_of E w')"
  using auth_book.calls_allowed [of E w tm ttl calls rs w'] assms by blast

theorem auth_service_refines_witness:
  "fst (replies (auth_exec example_env example_auth) [LogOut ''abc'', Renew ''abc''] (example_world [example_row None])) =
     [Inr Ended, Inl ErrTokenInvalid]"
proof -
  let ?run = "replies (auth_exec example_env example_auth) [LogOut ''abc'', Renew ''abc''] (example_world [example_row None])"
  have "sessions_of (example_world [example_row None]) (hashRefreshToken ''abc'') = Some (1, 3600000000000, True)"
    by (simp add: sessions_of_def entry_def RefreshToken_Revoked_def)
  moreover have "mono (env_now example_env)"
    by (simp add: mono_def)
  then have "allows (auth_spec (accepts example_env)) (auth_of example_env (example_world [example_row None]))
      [LogOut ''abc'', Renew ''abc''] (fst ?run) (auth_of example_env (snd ?run))"
    by (intro auth_service_refines [where tm = example_manager and ttl = 3600000000000]) (simp_all add: example_foreign_errors del: replies.simps)
  ultimately show ?thesis
    by (auto simp: close_session_def simp del: replies.simps elim!: allows_ConsE log_outE renewE elim: allows.cases)
qed

end
