(* ===== verification/TaskProperties.thy ===== *)
theory TaskProperties
  imports System
begin

text \<open>
  The properties of the task operations over the Postgres repository: ownership, the effect of
  each operation on every branch, and the paging of listings.
\<close>

subsection \<open>The repository when every statement is answered\<close>

lemma task_FindByID_answered:
  assumes "no_faults E"
  shows "taskRepository_FindByID E i w =
    (case find (\<lambda>t. t_ID t = i) (tasks w) of
       None \<Rightarrow> (Inl ErrNotFound, w\<lparr>tick := Suc (tick w)\<rparr>)
     | Some t \<Rightarrow> (Inr t, w\<lparr>tick := Suc (tick w)\<rparr>))"
  by (simp add: repo_defs db_call_answered [OF assms] sql_defs split: option.splits)

lemma find_task:
  assumes "db_inv w" and "t \<in> set (tasks w)"
  shows "find (\<lambda>x. t_ID x = t_ID t) (tasks w) = Some t"
  using assms by (intro find_by_key) (simp_all add: db_inv_def ids_ok_def)

lemma unique_task:
  assumes "db_inv w" and "t \<in> set (tasks w)" and "s \<in> set (tasks w)" and "t_ID s = t_ID t"
  shows "s = t"
  using assms distinct_key_eq [of t_ID "tasks w" s t] by (simp add: db_inv_def ids_ok_def)

lemma Get_answered:
  assumes "no_faults E" and "db_inv w" and "t \<in> set (tasks w)"
  shows "TaskService_Get (taskService E) uid (t_ID t) w =
    (if t_UserID t = uid then Inr t else Inl ErrForbidden, w\<lparr>tick := Suc (tick w)\<rparr>)"
  using find_task [OF assms(2,3)] by (simp add: TaskService_Get_def task_FindByID_answered [OF assms(1)])

lemma Get_missing:
  assumes "no_faults E" and "i \<notin> t_ID ` set (tasks w)"
  shows "TaskService_Get (taskService E) uid i w = (Inl ErrNotFound, w\<lparr>tick := Suc (tick w)\<rparr>)"
proof -
  have "find (\<lambda>t. t_ID t = i) (tasks w) = None"
    using assms(2) by (auto simp: find_None_iff)
  then show ?thesis
    by (simp add: TaskService_Get_def task_FindByID_answered [OF assms(1)])
qed

subsection \<open>Ownership\<close>

lemma Get_foreign:
  assumes "db_inv w" and "t \<in> set (tasks w)" and "t_UserID t \<noteq> uid"
  shows "\<exists>e w1. TaskService_Get (taskService E) uid (t_ID t) w = (Inl e, w1) \<and> same_rows w w1"
proof (cases "TaskService_Get (taskService E) uid (t_ID t) w")
  case (Pair r w1)
  then show ?thesis
    using pg_task.get_foreign [OF assms(1,2) refl assms(3)] pg_task.get_rows [OF Pair] by (cases r) auto
qed

text \<open>C18: a task of another user cannot be read, changed or deleted.  In every environment the three
  operations return an error and leave all rows as they are; when the database answers, the error is
  \<open>ErrForbidden\<close>.\<close>

theorem task_foreign_refused:
  assumes "db_inv w" and "t \<in> set (tasks w)" and "t_UserID t \<noteq> uid"
    and "TaskService_Get (taskService E) uid (t_ID t) w = (rg, w1)"
    and "TaskService_Update E (taskService E) uid (t_ID t) title descr st due w = (ru, w2)"
    and "TaskService_Delete (taskService E) uid (t_ID t) w = (rd, w3)"
  shows "\<exists>e. rg = Inl e \<and> ru = Inl e \<and> rd = Inl e \<and> same_rows w w1 \<and> w2 = w1 \<and> w3 = w1 \<and>
    (no_faults E \<longrightarrow> e = ErrForbidden)"
proof -
  obtain e where e: "TaskService_Get (taskService E) uid (t_ID t) w = (Inl e, w1)" "same_rows w w1" "rg = Inl e"
    using Get_foreign [OF assms(1-3), of E] assms(4) by auto
  have "no_faults E \<longrightarrow> e = ErrForbidden"
    using Get_answered [OF _ assms(1,2), of E uid] assms(3) e(1) by auto
  then show ?thesis
    using e assms(5,6) by (auto simp: TaskService_Update_def TaskService_Delete_def)
qed

theorem task_foreign_refused_witness:
  "fst (TaskService_Get (taskService example_env) 1 2 (example_world [])) = Inl ErrForbidden \<and>
   fst (TaskService_Delete (taskService example_env) 1 2 (example_world [])) = Inl ErrForbidden"
  using task_foreign_refused [OF example_world_inv(1) _ _ prod.collapse [symmetric] prod.collapse [symmetric]
      prod.collapse [symmetric], of "example_task 2 2" 1 example_env]
  by simp

text \<open>The user on whose behalf a request about tasks is made.\<close>

fun requester :: "request \<Rightarrow> int64 option" where
  "requester (Req_CreateTask uid _ _ _) = Some uid"
| "requester (Req_ListTasks uid _ _ _) = Some uid"
| "requester (Req_GetTask uid _) = Some uid"
| "requester (Req_UpdateTask uid _ _ _ _ _) = Some uid"
| "requester (Req_DeleteTask uid _) = Some uid"
| "requester _ = None"

text \<open>No request about tasks affects anyone but the user who makes it.  Whatever the environment
  answers, the tasks of every other user are the same in the same order, and no user or session
  changes.\<close>

theorem task_noninterference:
  assumes "db_inv w" and "requester req = Some uid"
  shows "others_kept uid w (serve E tm ttl req w)"
proof (cases req)
  case (Req_CreateTask u title descr due)
  then show ?thesis
    using assms(2) pg_task.create_step [OF prod.collapse [symmetric]] by auto
next
  case (Req_ListTasks u st l k)
  then show ?thesis
    using assms(2) pg_task.list_step [OF prod.collapse [symmetric]] by (auto intro: others_kept_same_rows)
next
  case (Req_GetTask u i)
  then show ?thesis
    using assms(2) pg_task.get_rows [OF prod.collapse [symmetric]] by (auto intro: others_kept_same_rows)
next
  case (Req_UpdateTask u i title descr st due)
  then show ?thesis
    using assms pg_task.update_step [OF prod.collapse [symmetric]] by auto
next
  case (Req_DeleteTask u i)
  then show ?thesis
    using assms pg_task.delete_step [OF prod.collapse [symmetric]] by auto
qed (use assms(2) in auto)

theorem task_noninterference_witness:
  "example_task 2 2 \<in> set (tasks (serve example_env (NewTokenManager ''secret'' 60) 60 (Req_DeleteTask 1 1) (example_world [])))"
proof -
  have "filter (\<lambda>t. t_UserID t \<noteq> 1) (tasks (serve example_env (NewTokenManager ''secret'' 60) 60 (Req_DeleteTask 1 1) (example_world []))) =
      [example_task 2 2]"
    using task_noninterference [OF example_world_inv(1), of "Req_DeleteTask 1 1" 1 example_env "NewTokenManager ''secret'' 60" 60]
    by (simp add: others_kept_def del: serve.simps)
  then have "example_task 2 2 \<in> set (filter (\<lambda>t. t_UserID t \<noteq> 1)
      (tasks (serve example_env (NewTokenManager ''secret'' 60) 60 (Req_DeleteTask 1 1) (example_world []))))"
    by (simp only: list.set_intros)
  then show ?thesis
    by (simp only: set_filter mem_Collect_eq)
qed

subsection \<open>Create, read, update, delete\<close>

text \<open>The row a creation stores, as a later read gives it back.\<close>

definition created_task ::
  "env \<Rightarrow> int64 \<Rightarrow> nat \<Rightarrow> int64 \<Rightarrow> string \<Rightarrow> string \<Rightarrow> time option \<Rightarrow> Task" where
  "created_task E i n uid title descr due =
     \<lparr>t_ID = i, t_UserID = uid, t_Title = title, t_Description = descr, t_Status = TaskStatusPending,
      t_DueDate = map_option (env_timestamptz E) due, t_CreatedAt = env_dbnow E n, t_UpdatedAt = env_dbnow E n\<rparr>"

lemma Create_answered:
  assumes "no_faults E" and "db_inv w" and "uid \<in> u_ID ` set (users w)" and "tasks_id_seq w < 2 ^ 63 - 1"
  shows "TaskService_Create (taskService E) uid title descr due w =
    (let row = created_task E (tasks_id_seq w + 1) (tick w) uid title descr due
     in (Inr (row\<lparr>t_DueDate := due\<rparr>),
         w\<lparr>tick := Suc (tick w), tasks_id_seq := tasks_id_seq w + 1, tasks := tasks w @ [row]\<rparr>))"
proof -
  have seq: "nextval (tasks_id_seq w) = Some (tasks_id_seq w + 1)"
    using assms(4) by (simp add: nextval_def)
  then show ?thesis
    using assms(3) db_inv_next(2) [OF assms(2) seq]
    by (auto simp: TaskService_Create_def repo_defs db_call_answered [OF assms(1)] sql_defs Let_def created_task_def)
qed

text \<open>C31: creating a task for an existing user succeeds when the database answers; the task is
  pending, gets the next id and both time stamps of the statement, and is stored at the end of the
  table.  A read by its owner then returns exactly the stored row, a read by anyone else is
  forbidden.\<close>

theorem task_create_get:
  assumes "no_faults E" and "db_inv w" and "uid \<in> u_ID ` set (users w)" and "tasks_id_seq w < 2 ^ 63 - 1"
    and "TaskService_Create (taskService E) uid title descr due w = (r, w')"
  shows "\<exists>t. r = Inr t \<and>
    t\<lparr>t_DueDate := map_option (env_timestamptz E) due\<rparr> =
      created_task E (tasks_id_seq w + 1) (tick w) uid title descr due \<and> t_DueDate t = due \<and>
    tasks w' = tasks w @ [created_task E (tasks_id_seq w + 1) (tick w) uid title descr due] \<and>
    (\<forall>v. TaskService_Get (taskService E) v (t_ID t) w' =
      (if v = uid then Inr (created_task E (tasks_id_seq w + 1) (tick w) uid title descr due) else Inl ErrForbidden,
       w'\<lparr>tick := Suc (tick w')\<rparr>))"
proof -
  let ?row = "created_task E (tasks_id_seq w + 1) (tick w) uid title descr due"
  have r: "r = Inr (?row\<lparr>t_DueDate := due\<rparr>)" and w': "tasks w' = tasks w @ [?row]"
    using assms(5) Create_answered [OF assms(1-4)] by (auto simp: Let_def)
  have "db_inv w'"
    using pg_task.create_step [OF assms(5)] assms(2) by simp
  then have "TaskService_Get (taskService E) v (t_ID ?row) w' =
      (if t_UserID ?row = v then Inr ?row else Inl ErrForbidden, w'\<lparr>tick := Suc (tick w')\<rparr>)" for v
    using Get_answered [OF assms(1)] w' by simp
  then show ?thesis
    using r w' by (auto simp: created_task_def)
qed

theorem task_create_get_witness:
  "\<exists>t. fst (TaskService_Create (taskService example_env) 2 ''write'' ''tests'' (Some 1234567) (example_world [])) =
     Inr t \<and> t_ID t = 3 \<and> t_Status t = TaskStatusPending"
proof -
  obtain t where t: "fst (TaskService_Create (taskService example_env) 2 ''write'' ''tests'' (Some 1234567)
      (example_world [])) = Inr t"
    and eq: "t\<lparr>t_DueDate := map_option (env_timestamptz example_env) (Some 1234567)\<rparr> =
      created_task example_env (tasks_id_seq (example_world []) + 1) (tick (example_world [])) 2 ''write'' ''tests''
        (Some 1234567)"
    using task_create_get [OF example_no_faults(1) example_world_inv(1) _ _ prod.collapse [symmetric],
      of 2 "''write''" "''tests''" "Some 1234567"]
    by (auto simp: example_users_def)
  show ?thesis
    using t arg_cong [OF eq, of t_ID] arg_cong [OF eq, of t_Status] by (simp add: created_task_def)
qed

lemma Update_answered:
  assumes "no_faults E" and "t_ID t \<in> t_ID ` set (tasks w)"
  shows "taskRepository_Update E t w =
    (Inr (t\<lparr>t_UpdatedAt := env_dbnow E (tick w)\<rparr>),
     w\<lparr>tick := Suc (tick w),
       tasks := update_where (\<lambda>row. t_ID row = t_ID t) (set_task E (tick w) t) (tasks w)\<rparr>)"
  using assms(2) by (auto simp: repo_defs db_call_answered [OF assms(1)] sql_defs affected_0_iff)

text \<open>An update by the owner.  An unknown status is refused with a wrapped \<open>ErrValidation\<close> and
  nothing changes.  Otherwise title, description, status and due date are those of the request and
  \<open>updated_at\<close> is the time of the statement; id, owner and creation time, and every other row, stay
  as they are.\<close>

theorem task_update_effect:
  assumes "no_faults E" and "db_inv w" and "t \<in> set (tasks w)"
  shows "TaskService_Update E (taskService E) (t_UserID t) (t_ID t) title descr st due w =
    (if TaskStatus_Valid st
     then (let t' = t\<lparr>t_Title := title, t_Description := descr, t_Status := st, t_DueDate := due,
                      t_UpdatedAt := env_dbnow E (tick w + 1)\<rparr>
           in (Inr t',
               w\<lparr>tick := tick w + 2,
                 tasks := update_where (\<lambda>r. r = t) (\<lambda>_. t'\<lparr>t_DueDate := map_option (env_timestamptz E) due\<rparr>)
                   (tasks w)\<rparr>))
     else (Inl (Wrap '''' ErrValidation ('': invalid status '' @ env_Quote E st)), w\<lparr>tick := tick w + 1\<rparr>))"
proof -
  let ?t = "t\<lparr>t_Title := title, t_Description := descr, t_Status := st, t_DueDate := due\<rparr>"
  have "update_where (\<lambda>r. t_ID r = t_ID ?t) (set_task E (tick w + 1) ?t) (tasks w) =
      update_where (\<lambda>r. r = t) (\<lambda>_. t\<lparr>t_Title := title, t_Description := descr, t_Status := st,
        t_UpdatedAt := env_dbnow E (tick w + 1), t_DueDate := map_option (env_timestamptz E) due\<rparr>) (tasks w)"
    unfolding update_where_def
    by (rule map_cong) (use unique_task [OF assms(2,3)] in \<open>auto simp: set_task_def\<close>)
  then show ?thesis
    using Get_answered [OF assms, of "t_UserID t"] assms(3)
      Update_answered [OF assms(1), of ?t "w\<lparr>tick := Suc (tick w)\<rparr>"]
    by (simp add: TaskService_Update_def Let_def)
qed

theorem task_update_effect_witness:
  "\<exists>t. fst (TaskService_Update example_env (taskService example_env) 1 1 ''new'' ''text'' ''done'' None
     (example_world [])) = Inr t \<and> t_Status t = ''done'' \<and> t_UserID t = 1"
  using task_update_effect [OF example_no_faults(1) example_world_inv(1), of "example_task 1 1" "''new''" "''text''"
      "''done''" None]
  by (simp add: TaskStatus_Valid_def TaskStatusDone_def Let_def)

text \<open>A deletion by the owner removes exactly that row; the task is then unknown to everyone, its
  owner included, and a second deletion is answered with \<open>ErrNotFound\<close>.\<close>

theorem task_delete_effect:
  assumes "no_faults E" and "db_inv w" and "t \<in> set (tasks w)"
  shows "TaskService_Delete (taskService E) (t_UserID t) (t_ID t) w =
      (Inr (), w\<lparr>tick := tick w + 2, tasks := filter (\<lambda>r. r \<noteq> t) (tasks w)\<rparr>) \<and>
    (\<forall>v w'. tasks w' = filter (\<lambda>r. r \<noteq> t) (tasks w) \<longrightarrow>
       fst (TaskService_Get (taskService E) v (t_ID t) w') = Inl ErrNotFound \<and>
       fst (TaskService_Delete (taskService E) v (t_ID t) w') = Inl ErrNotFound)"
proof -
  have rows: "filter (\<lambda>r. t_ID r \<noteq> t_ID t) (tasks w) = filter (\<lambda>r. r \<noteq> t) (tasks w)"
    by (rule filter_cong) (use unique_task [OF assms(2,3)] in auto)
  have "affected (\<lambda>r. t_ID r = t_ID t) (tasks w) \<noteq> 0"
    using assms(3) by (auto simp: affected_0_iff)
  then have "TaskService_Delete (taskService E) (t_UserID t) (t_ID t) w =
      (Inr (), w\<lparr>tick := tick w + 2, tasks := filter (\<lambda>r. r \<noteq> t) (tasks w)\<rparr>)"
    using Get_answered [OF assms, of "t_UserID t"] rows assms(1)
    by (simp add: TaskService_Delete_def repo_defs db_call_answered [OF assms(1)] sql_defs no_faults_def
        rows_affected_ok_def)
  moreover have "TaskService_Get (taskService E) v (t_ID t) w' = (Inl ErrNotFound, w'\<lparr>tick := Suc (tick w')\<rparr>)"
    if "tasks w' = filter (\<lambda>r. r \<noteq> t) (tasks w)" for v w'
    by (rule Get_missing [OF assms(1)]) (use unique_task [OF assms(2,3)] in \<open>auto simp: that\<close>)
  ultimately show ?thesis
    by (simp add: TaskService_Delete_def)
qed

theorem task_delete_effect_witness:
  "TaskService_Delete (taskService example_env) 1 1 (example_world []) =
     (Inr (), (example_world [])\<lparr>tick := 2, tasks := [example_task 2 2]\<rparr>)"
proof -
  have "example_task 2 2 \<noteq> example_task 1 1"
    by (simp add: example_task_def)
  then show ?thesis
    using task_delete_effect [OF example_no_faults(1) example_world_inv(1), of "example_task 1 1"]
    by (simp add: eval_nat_numeral)
qed

subsection \<open>Listing\<close>

lemma List_answered:
  assumes "no_faults E"
  shows "fst (TaskService_List (taskService E) uid st limit offset w) =
    Inr (take (nat (effectiveLimit limit)) (drop (nat (effectiveOffset offset))
           (newest_first E (tick w + 1) (list_where uid st) (tasks w))),
         int (length (filter (list_where uid st) (tasks w))), effectiveLimit limit, effectiveOffset offset)"
proof -
  let ?rows = "take (nat (effectiveLimit limit)) (drop (nat (effectiveOffset offset))
           (newest_first E (tick w + 1) (list_where uid st) (tasks w)))"
  obtain w' where "scan_tasks E ?rows [] (w\<lparr>tick := Suc (Suc (tick w))\<rparr>) = (Inr ?rows, w')"
    using scan_tasks_answered [OF assms, of ?rows "[]"] by (metis append.left_neutral prod.collapse)
  then show ?thesis
    using effectiveLimit_range [of limit] effectiveOffset_nonneg [of offset]
    by (simp add: TaskService_List_def repo_defs db_call_answered [OF assms] sql_defs Let_def)
qed

lemma row_keeps_sequence: "read_row E w = (r, w') \<Longrightarrow> tasks_id_seq w' = tasks_id_seq w"
  by (auto simp: read_row_def db_call_def Let_def split: answer.splits)

lemma scan_keeps_sequence: "scan_tasks E rows acc w = (r, w') \<Longrightarrow> tasks_id_seq w' = tasks_id_seq w"
proof (induction rows arbitrary: acc w)
  case Nil
  then show ?case
    by (auto split: prod.splits sum.splits dest: row_keeps_sequence)
next
  case (Cons row rows)
  then show ?case
    by (fastforce split: prod.splits sum.splits dest: row_keeps_sequence)
qed

lemma list_keeps_sequence:
  "TaskService_List (taskService E) uid st l k w = (r, w') \<Longrightarrow> tasks_id_seq w' = tasks_id_seq w"
  by (auto simp: TaskService_List_def repo_defs db_call_def sql_defs Let_def dest!: scan_keeps_sequence
      split: prod.splits sum.splits answer.splits if_splits)

text \<open>C32: a listing shows the caller's own tasks only, filtered by the requested status, newest
  first, no task twice, at most the effective limit of them, which is between 1 and 100 whatever the
  client asks for; the total is the number of all the caller's matching tasks.\<close>

theorem task_list_sound:
  assumes "db_inv w"
    and "TaskService_List (taskService E) uid st limit offset w = (Inr (page, n, l, k), w')"
  shows "l = effectiveLimit limit \<and> 1 \<le> l \<and> l \<le> 100 \<and> k = max 0 offset \<and>
    int (length page) \<le> l \<and> distinct page \<and>
    (\<forall>t \<in> set page. t \<in> set (tasks w) \<and> t_UserID t = uid \<and> (st \<noteq> '''' \<longrightarrow> t_Status t = st)) \<and>
    sorted_wrt (\<lambda>s t. t_CreatedAt t \<le> t_CreatedAt s) page \<and>
    n = int (length (filter (list_where uid st) (tasks w))) \<and> same_rows w w'"
proof -
  have call: "taskRepository_ListByUser E uid
      \<lparr>lp_Status = st, lp_Limit = effectiveLimit limit, lp_Offset = effectiveOffset offset\<rparr> w = (Inr (page, n), w')"
    and lk: "l = effectiveLimit limit" "k = effectiveOffset offset"
    using assms(2) by (auto simp: TaskService_List_def split: prod.splits sum.splits)
  obtain rows where "n = int (length (filter (list_where uid st) (tasks w)))"
    and m: "mset rows = mset (filter (list_where uid st) (tasks w))"
    and sorted: "sorted_wrt (\<lambda>s t. t_CreatedAt t \<le> t_CreatedAt s) rows"
    and page: "page = take (nat l) (drop (nat k) rows)"
    using pg_tasks.list_ok [of E] call lk by fastforce
  moreover have "set page \<subseteq> set rows"
    using page by (metis set_drop_subset set_take_subset subset_trans)
  moreover have "set rows = {t \<in> set (tasks w). list_where uid st t}"
    using m by (metis mset_eq_setD set_filter)
  moreover have "distinct (tasks w)"
    using assms(1) by (auto simp: db_inv_def ids_ok_def dest: distinct_map [THEN iffD1])
  then have "distinct rows"
    using m by (metis distinct_filter mset_eq_imp_distinct_iff)
  ultimately show ?thesis
    using lk effectiveLimit_range [of limit] pg_task.list_step [OF assms(2)]
    by (auto simp: list_where_def maxPageLimit_def effectiveOffset_def max_def intro!: sorted_wrt_take sorted_wrt_drop)
qed

lemma example_List:
  "\<exists>w'. TaskService_List (taskService example_env) 1 '''' 1000 (- 5) (example_world []) =
     (Inr ([example_task 1 1], 1, 100, 0), w')"
proof -
  have "fst (TaskService_List (taskService example_env) 1 '''' 1000 (- 5) (example_world [])) =
      Inr ([example_task 1 1], 1, 100, 0)"
    by (simp add: List_answered newest_first_def list_where_def effectiveLimit_def effectiveOffset_def
        maxPageLimit_def Let_def)
  then show ?thesis
    by (metis prod.collapse)
qed

theorem task_list_sound_witness:
  "effectiveLimit 1000 = 100 \<and> t_UserID (example_task 1 1) = 1 \<and>
   fst (TaskService_List (taskService example_env) 1 '''' 1000 (- 5) (example_world [])) =
     Inr ([example_task 1 1], 1, 100, 0)"
proof -
  obtain w' where call: "TaskService_List (taskService example_env) 1 '''' 1000 (- 5) (example_world []) =
      (Inr ([example_task 1 1], 1, 100, 0), w')"
    using example_List by blast
  from task_list_sound [OF example_world_inv(1) this] show ?thesis
    using call by simp
qed

text \<open>The page a client gets; nothing when the call fails.\<close>

definition list_page :: "env \<Rightarrow> int64 \<Rightarrow> TaskStatus \<Rightarrow> int \<Rightarrow> int \<Rightarrow> world \<Rightarrow> Task list" where
  "list_page E uid st limit offset w =
     (case fst (TaskService_List (taskService E) uid st limit offset w) of
        Inl _ \<Rightarrow> []
      | Inr (page, _) \<Rightarrow> page)"

lemma concat_pages: "concat (map (\<lambda>i. take l (drop (i * l) xs)) [0..<k]) = take (k * l) xs"
proof (induction k)
  case (Suc k)
  have "take (k * l) xs @ take l (drop (k * l) xs) = take (Suc k * l) xs"
    by (metis add.commute mult_Suc take_add)
  then show ?case
    using Suc by simp
qed simp

text \<open>C39: walking through the pages of size \<open>l\<close> with offsets \<open>0, l, 2l, ...\<close> shows every matching
  task exactly once, newest first, provided that the tasks do not change in between and that the
  database meets rows of equal creation time in the same order each time.\<close>

theorem task_pages_partition:
  assumes "no_faults E" and "\<forall>n m. env_rank E n = env_rank E m"
    and "0 < l" and "l \<le> 100" and "\<forall>i. tasks (ws i) = rows"
    and "length (filter (list_where uid st) rows) \<le> k * nat l"
  shows "mset (concat (map (\<lambda>i. list_page E uid st l (int i * l) (ws i)) [0..<k])) =
      mset (filter (list_where uid st) rows) \<and>
    sorted_wrt (\<lambda>s t. t_CreatedAt t \<le> t_CreatedAt s)
      (concat (map (\<lambda>i. list_page E uid st l (int i * l) (ws i)) [0..<k]))"
proof -
  let ?all = "newest_first E 0 (list_where uid st) rows"
  have limit: "effectiveLimit l = l"
    using assms(3,4) by (simp add: effectiveLimit_def maxPageLimit_def)
  have offset: "\<not> int i * l < 0" for i
    using assms(3) by (simp add: not_less)
  have same: "newest_first E n (list_where uid st) rows = ?all" for n
    using assms(2) by (metis newest_first_def)
  have "list_page E uid st l (int i * l) (ws i) = take (nat l) (drop (i * nat l) ?all)" for i
    using assms(3,5) limit same [of "Suc (tick (ws i))"] offset [of i]
    by (simp add: list_page_def List_answered [OF assms(1)] effectiveOffset_def nat_mult_distrib)
  then have "concat (map (\<lambda>i. list_page E uid st l (int i * l) (ws i)) [0..<k]) = take (k * nat l) ?all"
    by (simp add: concat_pages)
  also have "\<dots> = ?all"
    using assms(6) by simp
  finally show ?thesis
    using mset_newest_first sorted_newest_first by metis
qed

theorem task_pages_partition_witness:
  "mset (concat (map (\<lambda>i. list_page example_env 2 '''' 1 (int i * 1) (example_world [])) [0..<3])) =
     {#example_task 2 2#}"
proof -
  have "mset (concat (map (\<lambda>i. list_page example_env 2 '''' 1 (int i * 1) ((\<lambda>_. example_world []) i)) [0..<3])) =
      mset (filter (list_where 2 '''') [example_task 1 1, example_task 2 2])"
    by (rule task_pages_partition [THEN conjunct1]) (simp_all add: list_where_def fun_eq_iff)
  then show ?thesis
    by (simp add: list_where_def)
qed

text \<open>
  An environment that meets the rows in alternating directions, and a user with two tasks that
  were created at the same moment.
\<close>

definition turning_env :: env where
  "turning_env = example_env\<lparr>env_rank := (\<lambda>n t. if n = 1 then t_ID t else - t_ID t)\<rparr>"

definition twin_world :: world where
  "twin_world = (example_world [])\<lparr>tasks := [example_task 1 1, example_task 2 1]\<rparr>"

text \<open>Without that proviso the pages may overlap.  \<open>ORDER BY created_at DESC\<close> leaves the order of
  rows with equal creation time to the database, so two tasks of one user can be listed with limit 1
  such that both pages show the first and none shows the second, although nothing changed in between
  and every statement was answered.\<close>

theorem task_pages_may_overlap:
  "no_faults turning_env \<and> db_inv twin_world \<and>
   list_page turning_env 1 '''' 1 0 twin_world = [example_task 1 1] \<and>
   list_page turning_env 1 '''' 1 1 (twin_world\<lparr>tick := 9\<rparr>) = [example_task 1 1] \<and>
   length (filter (list_where 1 '''') (tasks twin_world)) = 2"
proof -
  have faults: "no_faults turning_env"
    by (simp add: turning_env_def no_faults_def rows_affected_ok_def)
  have "db_inv twin_world"
    by (simp add: twin_world_def db_inv_def ids_ok_def example_users_def)
  moreover have "list_page turning_env 1 '''' 1 0 twin_world = [example_task 1 1]"
    by (simp add: list_page_def List_answered [OF faults])
      (simp add: newest_first_def turning_env_def twin_world_def list_where_def effectiveLimit_def effectiveOffset_def
        maxPageLimit_def)
  moreover have "list_page turning_env 1 '''' 1 1 (twin_world\<lparr>tick := 9\<rparr>) = [example_task 1 1]"
    by (simp add: list_page_def List_answered [OF faults])
      (simp add: newest_first_def turning_env_def twin_world_def list_where_def effectiveLimit_def effectiveOffset_def
        maxPageLimit_def)
  ultimately show ?thesis
    using faults by (simp add: twin_world_def list_where_def)
qed

end
