(* ===== verification/TaskBook.thy ===== *)
theory TaskBook
  imports Simulation TaskProperties
begin

text \<open>
  What the task service promises, without statements, tables or sequences: a book of tasks by their ids.  The
  service refines it when the database answers.
\<close>

subsection \<open>The book of tasks\<close>

record task_book =
  tb_last :: int64
  tb_owners :: "int64 set"
  tb_tasks :: "int64 \<Rightarrow> Task option"

definition book_of :: "world \<Rightarrow> task_book" where
  "book_of w =
     \<lparr>tb_last = tasks_id_seq w, tb_owners = u_ID ` set (users w), tb_tasks = (\<lambda>i. find (\<lambda>t. t_ID t = i) (tasks w))\<rparr>"

datatype task_op =
    NewTask int64 string string "time option"
  | ListTasks int64 TaskStatus int int
  | ReadTask int64 int64
  | EditTask int64 int64 string string TaskStatus "time option"
  | DropTask int64 int64

datatype task_reply = R_Done | R_Task Task | R_Page "Task list" int int int

text \<open>The operations of the service on the store.\<close>

fun task_exec :: "env \<Rightarrow> task_op \<Rightarrow> world \<Rightarrow> (error + task_reply) \<times> world" where
  "task_exec E (NewTask uid title descr due) w =
     map_prod (map_sum id R_Task) id (TaskService_Create (taskService E) uid title descr due w)"
| "task_exec E (ListTasks uid st limit offset) w =
     map_prod (map_sum id (\<lambda>(page, n, l, k). R_Page page n l k)) id (TaskService_List (taskService E) uid st limit offset w)"
| "task_exec E (ReadTask uid i) w = map_prod (map_sum id R_Task) id (TaskService_Get (taskService E) uid i w)"
| "task_exec E (EditTask uid i title descr st due) w =
     map_prod (map_sum id R_Task) id (TaskService_Update E (taskService E) uid i title descr st due w)"
| "task_exec E (DropTask uid i) w = map_prod (map_sum id (\<lambda>_. R_Done)) id (TaskService_Delete (taskService E) uid i w)"

text \<open>Who may touch a task.\<close>

definition grants :: "task_book \<Rightarrow> int64 \<Rightarrow> int64 \<Rightarrow> error + Task" where
  "grants b uid i =
     (case tb_tasks b i of
        None \<Rightarrow> Inl ErrNotFound
      | Some t \<Rightarrow> if t_UserID t = uid then Inr t else Inl ErrForbidden)"

text \<open>
  What the book promises.  \<open>rnd\<close> is the precision in which a due date is kept.  A creation fails only if the
  user is unknown or the ids are used up; a page is a piece of an enumeration, newest first, of the
  caller's tasks with the requested status.
\<close>

inductive task_spec :: "(time \<Rightarrow> time) \<Rightarrow> task_book \<Rightarrow> task_op \<Rightarrow> error + task_reply \<Rightarrow> task_book \<Rightarrow> bool" for rnd where
  created:
    "uid \<in> tb_owners b \<Longrightarrow> i = tb_last b + 1 \<Longrightarrow> i < 2 ^ 63 \<Longrightarrow>
     t = \<lparr>t_ID = i, t_UserID = uid, t_Title = title, t_Description = descr, t_Status = TaskStatusPending,
          t_DueDate = due, t_CreatedAt = now, t_UpdatedAt = now\<rparr> \<Longrightarrow>
     task_spec rnd b (NewTask uid title descr due) (Inr (R_Task t))
       (b\<lparr>tb_last := i, tb_tasks := (tb_tasks b)(i \<mapsto> t\<lparr>t_DueDate := map_option rnd due\<rparr>)\<rparr>)"
| not_created:
    "uid \<notin> tb_owners b \<or> tb_last b + 1 \<ge> 2 ^ 63 \<Longrightarrow> internal e \<Longrightarrow> tb_last b \<le> i \<Longrightarrow> i \<le> tb_last b + 1 \<Longrightarrow>
     task_spec rnd b (NewTask uid title descr due) (Inl e) (b\<lparr>tb_last := i\<rparr>)"
| listed:
    "set rows = {t \<in> ran (tb_tasks b). t_UserID t = uid \<and> (st \<noteq> '''' \<longrightarrow> t_Status t = st)} \<Longrightarrow> distinct rows \<Longrightarrow>
     sorted_wrt (\<lambda>s t. t_CreatedAt t \<le> t_CreatedAt s) rows \<Longrightarrow>
     l = (if limit \<le> 0 then 20 else min limit 100) \<Longrightarrow> k = max 0 offset \<Longrightarrow>
     task_spec rnd b (ListTasks uid st limit offset)
       (Inr (R_Page (take (nat l) (drop (nat k) rows)) (int (length rows)) l k)) b"
| read: "task_spec rnd b (ReadTask uid i) (map_sum id R_Task (grants b uid i)) b"
| not_edited: "grants b uid i = Inl e \<Longrightarrow> task_spec rnd b (EditTask uid i title descr st due) (Inl e) b"
| invalid:
    "grants b uid i = Inr t \<Longrightarrow> \<not> TaskStatus_Valid st \<Longrightarrow> errors_Is e ErrValidation \<Longrightarrow>
     task_spec rnd b (EditTask uid i title descr st due) (Inl e) b"
| edited:
    "grants b uid i = Inr t \<Longrightarrow> TaskStatus_Valid st \<Longrightarrow>
     t' = t\<lparr>t_Title := title, t_Description := descr, t_Status := st, t_DueDate := due, t_UpdatedAt := now\<rparr> \<Longrightarrow>
     task_spec rnd b (EditTask uid i title descr st due) (Inr (R_Task t'))
       (b\<lparr>tb_tasks := (tb_tasks b)(i \<mapsto> t'\<lparr>t_DueDate := map_option rnd due\<rparr>)\<rparr>)"
| not_dropped: "grants b uid i = Inl e \<Longrightarrow> task_spec rnd b (DropTask uid i) (Inl e) b"
| dropped:
    "grants b uid i = Inr t \<Longrightarrow>
     task_spec rnd b (DropTask uid i) (Inr R_Done) (b\<lparr>tb_tasks := (tb_tasks b)(i := None)\<rparr>)"

lemma book_of_sel [simp]:
  "tb_last (book_of w) = tasks_id_seq w" "tb_owners (book_of w) = u_ID ` set (users w)"
  "tb_tasks (book_of w) i = find (\<lambda>t. t_ID t = i) (tasks w)"
  by (simp_all add: book_of_def)

lemma book_tick [simp]: "book_of (w\<lparr>tick := n\<rparr>) = book_of w"
  by (simp add: book_of_def)

lemma ran_book:
  assumes "db_inv w"
  shows "ran (tb_tasks (book_of w)) = set (tasks w)"
proof -
  have "find (\<lambda>x. t_ID x = t_ID t) (tasks w) = Some t" if "t \<in> set (tasks w)" for t
    using find_task [OF assms that] .
  then show ?thesis
    by (auto simp: ran_def dest: find_SomeD)
qed

text \<open>Reading is the check of the owner.\<close>

lemma Get_grants:
  assumes "no_faults E" and "db_inv w"
  shows "TaskService_Get (taskService E) uid i w = (grants (book_of w) uid i, w\<lparr>tick := Suc (tick w)\<rparr>)"
  by (auto simp: TaskService_Get_def task_FindByID_answered [OF assms(1)] grants_def split: option.splits)

lemma grants_InrD:
  "grants (book_of w) uid i = Inr t \<Longrightarrow> t \<in> set (tasks w) \<and> t_UserID t = uid \<and> t_ID t = i"
  by (auto simp: grants_def dest: find_SomeD split: option.splits if_splits)

text \<open>The writes on the book.\<close>

lemma book_append:
  assumes "i \<notin> t_ID ` set (tasks w)" and "t_ID row = i"
  shows "book_of (w\<lparr>tick := n, tasks_id_seq := i, tasks := tasks w @ [row]\<rparr>) =
    (book_of w)\<lparr>tb_last := i, tb_tasks := (tb_tasks (book_of w))(i \<mapsto> row)\<rparr>"
proof -
  have "find (\<lambda>t. t_ID t = i) (tasks w) = None"
    using assms(1) by (auto simp: find_None_iff)
  then show ?thesis
    using assms(2) by (auto simp: book_of_def find_append fun_eq_iff split: option.splits)
qed

lemma book_replace:
  assumes "db_inv w" and "t \<in> set (tasks w)" and "t_ID t' = t_ID t"
  shows "book_of (w\<lparr>tick := n, tasks := update_where (\<lambda>r. r = t) (\<lambda>_. t') (tasks w)\<rparr>) =
    (book_of w)\<lparr>tb_tasks := (tb_tasks (book_of w))(t_ID t \<mapsto> t')\<rparr>"
proof -
  have "find (\<lambda>x. t_ID x = i) (update_where (\<lambda>r. r = t) (\<lambda>_. t') (tasks w)) =
      ((tb_tasks (book_of w))(t_ID t \<mapsto> t')) i" for i
    using find_task [OF assms(1,2)] find_update_where [of "\<lambda>r. r = t" t_ID "\<lambda>_. t'" i "tasks w"] assms(3)
    by (cases "find (\<lambda>x. t_ID x = i) (tasks w)") (auto dest: find_SomeD)
  then show ?thesis
    by (simp add: book_of_def fun_eq_iff)
qed

lemma book_remove:
  assumes "db_inv w" and "t \<in> set (tasks w)"
  shows "book_of (w\<lparr>tick := n, tasks := filter (\<lambda>r. r \<noteq> t) (tasks w)\<rparr>) =
    (book_of w)\<lparr>tb_tasks := (tb_tasks (book_of w))(t_ID t := None)\<rparr>"
proof -
  have "find (\<lambda>x. t_ID x = i) (filter (\<lambda>r. r \<noteq> t) (tasks w)) = ((tb_tasks (book_of w))(t_ID t := None)) i" for i
  proof (cases "i = t_ID t")
    case True
    then show ?thesis
      using unique_task [OF assms] by (auto simp: find_None_iff)
  next
    case False
    then have "find (\<lambda>x. t_ID x = i) (filter (\<lambda>r. r \<noteq> t) rows) = find (\<lambda>x. t_ID x = i) rows" for rows
      by (induction rows) auto
    then show ?thesis
      using False by simp
  qed
  then show ?thesis
    by (simp add: book_of_def fun_eq_iff)
qed

lemma create_simulated:
  assumes "no_faults E" and "db_inv w" and "TaskService_Create (taskService E) uid title descr due w = (r, w')"
  shows "task_spec (env_timestamptz E) (book_of w) (NewTask uid title descr due) (map_sum id R_Task r) (book_of w')"
proof (cases "tasks_id_seq w < 2 ^ 63 - 1 \<and> uid \<in> u_ID ` set (users w)")
  case True
  let ?row = "created_task E (tasks_id_seq w + 1) (tick w) uid title descr due"
  have seq: "nextval (tasks_id_seq w) = Some (tasks_id_seq w + 1)"
    using True by (simp add: nextval_def)
  have "tasks_id_seq w + 1 \<notin> t_ID ` set (tasks w)"
    using db_inv_next(2) [OF assms(2) seq] by simp
  then have "book_of w' = (book_of w)\<lparr>tb_last := tasks_id_seq w + 1,
      tb_tasks := (tb_tasks (book_of w))(tasks_id_seq w + 1 \<mapsto> ?row)\<rparr>" and "r = Inr (?row\<lparr>t_DueDate := due\<rparr>)"
    using assms(3) True Create_answered [OF assms(1,2), of uid title descr due]
      book_append [of "tasks_id_seq w + 1" w ?row "Suc (tick w)"]
    by (auto simp: Let_def created_task_def)
  then show ?thesis
    using True created [of uid "book_of w" "tasks_id_seq w + 1" "?row\<lparr>t_DueDate := due\<rparr>" title descr due
        "env_dbnow E (tick w)" "env_timestamptz E"]
    by (simp add: created_task_def)
next
  case False
  have "\<exists>e. r = Inl e \<and> book_of w' = (book_of w)\<lparr>tb_last := tasks_id_seq w'\<rparr> \<and>
      tasks_id_seq w \<le> tasks_id_seq w' \<and> tasks_id_seq w' \<le> tasks_id_seq w + 1"
    using assms(3) False
    by (auto simp: TaskService_Create_def repo_defs db_call_answered [OF assms(1)] sql_defs Let_def nextval_def
        book_of_def split: if_splits)
  then show ?thesis
    using False fails_withD [OF task_errors(1)] assms(3) by (auto intro!: not_created)
qed

lemma list_simulated:
  assumes "no_faults E" and "db_inv w" and "TaskService_List (taskService E) uid st limit offset w = (r, w')"
  shows "task_spec rnd (book_of w) (ListTasks uid st limit offset)
    (map_sum id (\<lambda>(page, n, l, k). R_Page page n l k) r) (book_of w')"
proof -
  let ?rows = "newest_first E (tick w + 1) (list_where uid st) (tasks w)"
  have r: "r = Inr (take (nat (effectiveLimit limit)) (drop (nat (effectiveOffset offset)) ?rows),
      int (length ?rows), effectiveLimit limit, effectiveOffset offset)"
    using List_answered [OF assms(1), of uid st limit offset w] assms(3) by simp
  have "distinct (filter (list_where uid st) (tasks w))"
    using assms(2) by (auto simp: db_inv_def ids_ok_def dest: distinct_map [THEN iffD1])
  then have "distinct ?rows"
    by (metis mset_eq_imp_distinct_iff mset_newest_first)
  moreover have "set ?rows = {t \<in> ran (tb_tasks (book_of w)). t_UserID t = uid \<and> (st \<noteq> '''' \<longrightarrow> t_Status t = st)}"
    by (simp only: ran_book [OF assms(2)] set_newest_first list_where_def)
  moreover have "book_of w' = book_of w"
    using pg_task.list_step [OF assms(3)] list_keeps_sequence [OF assms(3)] by (auto simp: book_of_def)
  moreover have "effectiveLimit limit = (if limit \<le> 0 then 20 else min limit 100)" "effectiveOffset offset = max 0 offset"
    by (simp_all add: effectiveLimit_def effectiveOffset_def defaultPageLimit_def maxPageLimit_def Let_def)
  ultimately show ?thesis
    unfolding r by (simp del: length_newest_first set_newest_first add: listed sorted_newest_first)
qed

lemma edit_simulated:
  assumes "no_faults E" and "db_inv w"
    and "TaskService_Update E (taskService E) uid i title descr st due w = (r, w')"
  shows "task_spec (env_timestamptz E) (book_of w) (EditTask uid i title descr st due) (map_sum id R_Task r) (book_of w')"
proof (cases "grants (book_of w) uid i")
  case (Inl e)
  then show ?thesis
    using assms(3) not_edited [OF Inl] by (auto simp: Inl TaskService_Update_def Get_grants [OF assms(1,2)])
next
  case (Inr t)
  note t = grants_InrD [OF Inr]
  show ?thesis
  proof (cases "TaskStatus_Valid st")
    case True
    let ?t = "t\<lparr>t_Title := title, t_Description := descr, t_Status := st, t_DueDate := due,
        t_UpdatedAt := env_dbnow E (tick w + 1)\<rparr>"
    have "r = Inr ?t" and "book_of w' = (book_of w)\<lparr>tb_tasks :=
        (tb_tasks (book_of w))(i \<mapsto> ?t\<lparr>t_DueDate := map_option (env_timestamptz E) due\<rparr>)\<rparr>"
      using task_update_effect [OF assms(1,2), of t title descr st due] t True assms(3)
        book_replace [OF assms(2), of t "?t\<lparr>t_DueDate := map_option (env_timestamptz E) due\<rparr>" "tick w + 2"]
      by (auto simp: Let_def)
    then show ?thesis
      using edited [OF Inr True refl] by simp
  next
    case False
    then show ?thesis
      using assms(3) Inr
      by (auto simp: TaskService_Update_def Get_grants [OF assms(1,2)] intro!: invalid)
  qed
qed

lemma drop_simulated:
  assumes "no_faults E" and "db_inv w" and "TaskService_Delete (taskService E) uid i w = (r, w')"
  shows "task_spec rnd (book_of w) (DropTask uid i) (map_sum id (\<lambda>_. R_Done) r) (book_of w')"
proof (cases "grants (book_of w) uid i")
  case (Inl e)
  then show ?thesis
    using assms(3) not_dropped [OF Inl] by (auto simp: Inl TaskService_Delete_def Get_grants [OF assms(1,2)])
next
  case (Inr t)
  note t = grants_InrD [OF Inr]
  have "r = Inr ()" and "book_of w' = (book_of w)\<lparr>tb_tasks := (tb_tasks (book_of w))(i := None)\<rparr>"
    using task_delete_effect [OF assms(1,2), of t] t assms(3) book_remove [OF assms(2), of t "tick w + 2"] by auto
  then show ?thesis
    using dropped [OF Inr] by simp
qed

lemma task_exec_simulated:
  assumes "no_faults E" and "db_inv w" and "task_exec E c w = (r, w')"
  shows "db_inv w' \<and> task_spec (env_timestamptz E) (book_of w) c r (book_of w')"
proof (cases c)
  case (NewTask uid title descr due)
  then show ?thesis
    using assms(3) create_simulated [OF assms(1,2)] db_step_inv [OF create_steps assms(2)]
    by (auto elim!: map_prod_idE)
next
  case (ListTasks uid st limit offset)
  then show ?thesis
    using assms(3) list_simulated [OF assms(1,2)] db_step_inv [OF list_steps assms(2)]
    by (auto elim!: map_prod_idE)
next
  case (ReadTask uid i)
  then show ?thesis
    using assms(2,3) read by (auto simp: Get_grants [OF assms(1,2)])
next
  case (EditTask uid i title descr st due)
  then show ?thesis
    using assms(3) edit_simulated [OF assms(1,2)] db_steps_inv [OF update_steps assms(2)]
    by (auto elim!: map_prod_idE)
next
  case (DropTask uid i)
  then show ?thesis
    using assms(3) drop_simulated [OF assms(1,2)] db_steps_inv [OF delete_steps assms(2)]
    by (auto elim!: map_prod_idE)
qed

interpretation book: simulation "\<lambda>w. no_faults E \<and> db_inv w" book_of "task_exec E" "task_spec (env_timestamptz E)" for E
  by unfold_locales (use task_exec_simulated in blast)

inductive_cases new_taskE: "task_spec rnd b (NewTask uid title descr due) r b'"
inductive_cases read_taskE: "task_spec rnd b (ReadTask uid i) r b'"

text \<open>C2: the task service is a book of tasks.  Whatever sequence of calls is made of it, by whatever users, on a
  sound store, when the database answers every reply is one the book allows: who may see or change which task, what is
  stored and what is returned, the pages, and every refusal.\<close>

theorem task_service_refines:
  assumes "no_faults E" and "db_inv w" and "replies (task_exec E) calls w = (rs, w')"
  shows "allows (task_spec (env_timestamptz E)) (book_of w) calls rs (book_of w')"
  using book.calls_allowed [of E w calls rs w'] assms by blast

theorem task_service_refines_witness:
  "fst (replies (task_exec example_env) [NewTask 2 ''write'' ''tests'' None, ReadTask 1 3] (example_world [])) ! 1 =
     Inl ErrForbidden"
proof -
  have "allows (task_spec (env_timestamptz example_env)) (book_of (example_world []))
      [NewTask 2 ''write'' ''tests'' None, ReadTask 1 3]
      (fst (replies (task_exec example_env) [NewTask 2 ''write'' ''tests'' None, ReadTask 1 3] (example_world [])))
      (book_of (snd (replies (task_exec example_env) [NewTask 2 ''write'' ''tests'' None, ReadTask 1 3] (example_world []))))"
    by (rule task_service_refines) (simp_all only: example_no_faults example_world_inv prod.collapse)
  then show ?thesis
    by (auto simp: example_users_def grants_def elim!: allows_ConsE new_taskE read_taskE simp del: replies.simps)
qed

end
