(* ===== verification/Progress.thy ===== *)
theory Progress
  imports Main
begin

text \<open>
  Liveness.  A run is an infinite sequence of states in which each follows from the one before by a
  step, or is the same.  The locale \<open>ranked_system\<close> states when a system runs down: its rank never
  grows.  A condition under which the rank falls again and again until \<open>P\<close> holds then makes \<open>P\<close>
  come true.  It is interpreted on the phases of the process (\<open>Lifecycle\<close>) and on refreshes that race
  (\<open>RaceProperties\<close>).
\<close>

definition is_run :: "('s \<Rightarrow> 's \<Rightarrow> bool) \<Rightarrow> (nat \<Rightarrow> 's) \<Rightarrow> bool" where
  "is_run step run \<longleftrightarrow> (\<forall>i. step (run i) (run (Suc i)) \<or> run (Suc i) = run i)"

locale ranked_system =
  fixes step :: "'s \<Rightarrow> 's \<Rightarrow> bool" and rank :: "'s \<Rightarrow> nat"
  assumes rank_step: "step s s' \<Longrightarrow> rank s' \<le> rank s"
begin

lemma rank_antimono:
  assumes "is_run step run" and "i \<le> j"
  shows "rank (run j) \<le> rank (run i)"
  using assms(2)
proof (induction rule: dec_induct)
  case (step n)
  have "rank (run (Suc n)) \<le> rank (run n)"
    using assms(1) rank_step unfolding is_run_def by (metis order_refl)
  then show ?case
    using step.IH by simp
qed simp

lemma eventually:
  assumes "is_run step run" and "\<And>j. i \<le> j \<Longrightarrow> \<not> P (run j) \<Longrightarrow> \<exists>k\<ge>j. rank (run k) < rank (run j)"
  shows "\<exists>j\<ge>i. P (run j)"
  using assms(2)
proof (induction "rank (run i)" arbitrary: i rule: less_induct)
  case less
  show ?case
  proof (cases "P (run i)")
    case False
    then obtain k where k: "k \<ge> i" "rank (run k) < rank (run i)"
      using less.prems by blast
    then obtain j where "j \<ge> k" "P (run j)"
      using less.hyps [OF k(2)] less.prems by (meson le_trans)
    then show ?thesis
      using k(1) le_trans by blast
  qed blast
qed

text \<open>What steps preserve holds along a run.\<close>

lemma invariant:
  assumes "is_run step run" and "I (run i)" and "\<And>s s'. step s s' \<Longrightarrow> I s \<Longrightarrow> I s'" and "i \<le> j"
  shows "I (run j)"
  using assms(4)
proof (induction rule: dec_induct)
  case (step n)
  then show ?case
    using assms(1,3) unfolding is_run_def by metis
qed (fact assms(2))

end

end
