(* ===== verification/RaceProperties.thy ===== *)
theory RaceProperties
  imports AuthProperties Progress
begin

text \<open>
  What concurrency does to sessions: at most one of any number of clients that present the same
  refresh token wins, under every interleaving; what the others are told; that every refresh that
  is scheduled comes to an end; and that a race for a live token settles with exactly one winner.
\<close>

lemma race_tokens_fixed:
  "(race_step E s)\<^sup>*\<^sup>* c c' \<Longrightarrow> fst (snd c' i) = fst (snd c i)"
proof (induction rule: rtranclp_induct)
  case (step c1 c2)
  from step(2) have "fst (snd c2 i) = fst (snd c1 i)"
    by (induction rule: race_step.induct) auto
  then show ?case
    using step(3) by simp
qed simp

text \<open>C3: of any number of concurrent refreshes that present the same token, interleaved in any way
  with each other and with any other requests, at most one is past its \<open>Revoke\<close>; at most one
  returns a token pair.\<close>

theorem concurrent_refresh_one_winner:
  assumes "rows_affected_ok E" and "db_inv w" and "\<forall>k. snd (th k) = RStart"
    and "(race_step E (authService E tm ttl))\<^sup>*\<^sup>* (w, th) (w', th')"
    and "i \<noteq> j" and "fst (th i) = p" and "fst (th j) = p"
  shows "\<not> (won (snd (th' i)) \<and> won (snd (th' j)))"
proof
  assume win: "won (snd (th' i)) \<and> won (snd (th' j))"
  have "race_inv (w', th')"
    using race_inv_steps [OF assms(1,4) race_inv_start [OF assms(2,3)]] .
  moreover have "th' i = (p, snd (th' i))" and "th' j = (p, snd (th' j))"
    using race_tokens_fixed [OF assms(4)] assms(6,7) by (simp_all add: prod_eq_iff)
  ultimately show False
    using race_invD(4) win assms(5) by blast
qed

text \<open>The next call of thread \<open>i\<close>; two threads that take turns.\<close>

definition turn :: "env \<Rightarrow> AuthService \<Rightarrow> nat \<Rightarrow> race \<Rightarrow> race" where
  "turn E s i c = (case refresh_step E s (fst (snd c i)) (snd (snd c i), fst c) of
     (pc', w') \<Rightarrow> (w', (snd c)(i := (fst (snd c i), pc'))))"

lemma turn_step: "race_step E s c (turn E s i c)"
proof -
  obtain pc' w' where "refresh_step E s (fst (snd c i)) (snd (snd c i), fst c) = (pc', w')"
    by fastforce
  then show ?thesis
    using race_step.thread [of "snd c" i "fst (snd c i)" "snd (snd c i)" E s "fst c" pc' w'] by (simp add: turn_def)
qed

abbreviation example_service :: "env \<Rightarrow> AuthService" where
  "example_service E \<equiv> authService E example_manager 3600000000000"

fun turns :: "env \<Rightarrow> nat \<Rightarrow> race" where
  "turns E 0 = (example_world [example_row None], \<lambda>k. (''abc'', RStart))"
| "turns E (Suc n) = turn E (example_service E) (n mod 2) (turns E n)"

lemma turns_reach: "(race_step E (example_service E))\<^sup>*\<^sup>* (turns E 0) (turns E n)"
  by (induction n) (auto intro: rtranclp.rtrancl_into_rtrancl turn_step)

text \<open>Five turns: both threads have read the row, and the first has revoked it.\<close>

lemma turns_unfold:
  "turns E 5 = turn E (example_service E) 0 (turn E (example_service E) 1 (turn E (example_service E) 0
     (turn E (example_service E) 1 (turn E (example_service E) 0 (turns E 0)))))"
proof -
  have "turns E 2 = turn E (example_service E) 1 (turn E (example_service E) 0 (turns E 0))"
    by (simp add: numeral_2_eq_2)
  moreover have "turns E 3 = turn E (example_service E) 0 (turns E 2)" "turns E 4 = turn E (example_service E) 1 (turns E 3)"
    "turns E 5 = turn E (example_service E) 0 (turns E 4)"
    using turns.simps(2) [of E 2] turns.simps(2) [of E 3] turns.simps(2) [of E 4]
    by (simp_all del: One_nat_def)
  ultimately show ?thesis
    by (simp only:)
qed

lemma turns_5:
  "snd (turns example_env 5) =
     (\<lambda>k. (''abc'', RStart))(0 := (''abc'', RRevoked 1), 1 := (''abc'', RLive (example_row None)))"
  unfolding turns_unfold
  by (auto simp: turn_def FindByHash_answered Revoke_answered time_Now_def
      RefreshToken_Revoked_def RefreshToken_Expired_def)

theorem concurrent_refresh_one_winner_witness:
  "\<exists>w' th'. (race_step example_env example_auth)\<^sup>*\<^sup>*
       (example_world [example_row None], \<lambda>k. (''abc'', RStart)) (w', th') \<and>
     won (snd (th' 0)) \<and> \<not> (won (snd (th' 0)) \<and> won (snd (th' 1)))"
proof -
  obtain w' th' where c: "turns example_env 5 = (w', th')"
    by fastforce
  have reach: "(race_step example_env example_auth)\<^sup>*\<^sup>*
      (example_world [example_row None], \<lambda>k. (''abc'', RStart)) (w', th')"
    using turns_reach [of example_env 5] by (simp add: c)
  have "\<not> (won (snd (th' 0)) \<and> won (snd (th' 1)))"
    by (rule concurrent_refresh_one_winner [OF example_no_faults(2) example_row_inv _ reach]) auto
  moreover have "won (snd (th' 0))"
    using turns_5 by (simp add: c)
  ultimately show ?thesis
    using reach by blast
qed

subsection \<open>What the others are told\<close>

text \<open>
  Once the row of the token is revoked it stays so.  A thread that had read the row while it was live
  (\<open>behind\<close>) learns of it from its own \<open>Revoke\<close>, at the latest; a thread that had not (\<open>after\<close>) meets
  the revoked row and takes the token for a stolen one.
\<close>

abbreviation lost_race :: "error + string \<times> string" where
  "lost_race \<equiv> Inl (Wrap ''revoke used refresh token: '' ErrNotFound '''')"

definition behind :: "RefreshToken \<Rightarrow> refresh_pc \<Rightarrow> bool" where
  "behind row pc \<longleftrightarrow>
     (\<exists>u. pending pc = Some u \<and> rt_ID u = rt_ID row) \<or> pc = RDone (Inl ErrTokenInvalid) \<or> pc = RDone lost_race"

definition after :: "RefreshToken \<Rightarrow> refresh_pc \<Rightarrow> bool" where
  "after row pc \<longleftrightarrow> pc = RStart \<or> pc = RReused row \<or> pc = RDone (Inl ErrTokenInvalid)"

lemma pending_SomeD: "pending pc = Some u \<Longrightarrow> pc = RFound u \<or> pc = RLive u"
  by (cases pc) auto

text \<open>The store holds a revoked row for the token \<open>p\<close>.\<close>

definition spent :: "string \<Rightarrow> RefreshToken \<Rightarrow> world \<Rightarrow> bool" where
  "spent p row w \<longleftrightarrow> db_inv w \<and> row \<in> set (refresh_tokens w) \<and>
     rt_TokenHash row = hashRefreshToken p \<and> RefreshToken_Revoked row"

lemma spent_steps: "spent p row w \<Longrightarrow> db_steps E w w' \<Longrightarrow> spent p row w'"
  unfolding spent_def using tokens_evolve_revoked [OF db_steps_tokens] db_steps_inv by blast

lemma Revoke_spent:
  assumes "no_faults E" and "spent p row w"
  shows "refreshTokenRepository_Revoke E (rt_ID row) w = (Inl ErrNotFound, w\<lparr>tick := Suc (tick w)\<rparr>)"
proof -
  have "RefreshToken_Revoked r" if "r \<in> set (refresh_tokens w)" "rt_ID r = rt_ID row" for r
    using that assms(2) unique_row(1) [of w r row] by (auto simp: spent_def)
  then show ?thesis
    using update_where_id [of "refresh_tokens w" "\<lambda>r. rt_ID r = rt_ID row \<and> rt_RevokedAt r = None"]
    by (auto simp: Revoke_answered [OF assms(1)] RefreshToken_Revoked_def)
qed

lemma behind_step:
  assumes "no_faults E" and "spent p row w" and "behind row pc"
    and "refresh_step E (authService E tm ttl) p (pc, w) = (pc', w')"
  shows "same_rows w w' \<and> behind row pc'"
    and "pc = RFound u \<Longrightarrow>
      pc' = (if RefreshToken_Expired (env_now E (tick w)) u then RDone (Inl ErrTokenInvalid) else RLive u)"
    and "pc = RLive u \<Longrightarrow> pc' = RDone lost_race"
  using assms(3,4) Revoke_spent [OF assms(1,2)]
  by (auto simp: behind_def time_Now_def split: if_splits dest!: pending_SomeD)

lemma after_step:
  assumes "no_faults E" and "spent p row w" and "after row pc"
    and "refresh_step E (authService E tm ttl) p (pc, w) = (pc', w')"
  shows "after row pc'" and "pc = RStart \<Longrightarrow> pc' = RReused row \<and> same_rows w w'"
    and "pc = RReused u \<Longrightarrow> pc' = RDone (Inl ErrTokenInvalid) \<and>
      (\<forall>t \<in> set (refresh_tokens w'). rt_UserID t = rt_UserID row \<longrightarrow> RefreshToken_Revoked t)"
  using assms(3,4) FindByHash_row [OF assms(1), of w row "hashRefreshToken p"] assms(2)
  by (auto simp: after_def spent_def RevokeAllForUser_answered [OF assms(1)] set_update_where RefreshToken_Revoked_def)

lemma loser_steps:
  assumes "(race_step E (authService E tm ttl))\<^sup>*\<^sup>* c c'" and "spent p row (fst c)"
    and "fst (snd c j) = p" and "P (snd (snd c j))"
    and "\<And>pc w pc' w'. spent p row w \<Longrightarrow> P pc \<Longrightarrow>
      refresh_step E (authService E tm ttl) p (pc, w) = (pc', w') \<Longrightarrow> P pc'"
  shows "spent p row (fst c') \<and> P (snd (snd c' j))"
  using assms(1)
proof (induction rule: rtranclp_induct)
  case (step c1 c2)
  have j: "fst (snd c1 j) = p"
    using race_tokens_fixed [OF step(1)] assms(3) by simp
  from step(2,3) j show ?case
  proof (induction rule: race_step.induct)
    case (thread th i q pc w pc' w')
    have "spent p row w'"
      using spent_steps [OF _ refresh_step_steps [OF thread(2)]] thread(3) by auto
    moreover have "P (snd ((th(i := (q, pc'))) j))"
      using thread assms(5) by (cases "i = j") auto
    ultimately show ?case
      by simp
  next
    case (other w w' th)
    then have "db_steps E w w'"
      by blast
    then show ?case
      using spent_steps other(2) by auto
  qed
qed (use assms in simp)

lemma behind_steps:
  assumes "no_faults E" and "(race_step E (authService E tm ttl))\<^sup>*\<^sup>* c c'" and "spent p row (fst c)"
    and "fst (snd c j) = p" and "behind row (snd (snd c j))"
  shows "behind row (snd (snd c' j))"
  by (rule conjunct2 [OF loser_steps [where P = "behind row", OF assms(2-5)]])
    (blast dest: behind_step(1) [OF assms(1)])

lemma after_steps:
  assumes "no_faults E" and "(race_step E (authService E tm ttl))\<^sup>*\<^sup>* c c'" and "spent p row (fst c)"
    and "fst (snd c j) = p" and "after row (snd (snd c j))"
  shows "after row (snd (snd c' j))"
  by (rule conjunct2 [OF loser_steps [where P = "after row", OF assms(2-5)]])
    (blast dest: after_step(1) [OF assms(1)])

text \<open>The winner has left its row revoked, and a thread that had read a row of the token has read this one.\<close>

lemma winner_spent:
  assumes "race_inv (w, th)" and "won (snd (th i))" and "fst (th i) = p" and "fst (th j) = p"
  obtains row where "spent p row w" and "\<And>u. pending (snd (th j)) = Some u \<Longrightarrow> behind row (snd (th j))"
proof -
  have w: "db_inv w"
    using assms(1) by (rule race_invD(1))
  obtain row where row: "row \<in> set (refresh_tokens w)" "rt_TokenHash row = hashRefreshToken p" "RefreshToken_Revoked row"
    using race_invD(3) [OF assms(1) prod.collapse [symmetric] assms(2)] assms(3) by auto
  have "behind row (snd (th j))" if u: "pending (snd (th j)) = Some u" for u
  proof -
    obtain r where "r \<in> set (refresh_tokens w)" "rt_ID r = rt_ID u" "rt_TokenHash r = hashRefreshToken p"
      using race_invD(2) [OF assms(1) prod.collapse [symmetric] u] assms(4) by auto
    then have "rt_ID u = rt_ID row"
      using unique_row(2) [OF w _ row(1)] row(2) by metis
    then show ?thesis
      using u by (auto simp: behind_def)
  qed
  then show thesis
    using that w row by (auto simp: spent_def)
qed

text \<open>What each call of such a thread does.\<close>

lemma behind_outcome:
  assumes "no_faults E" and "spent p row w" and "behind row pc"
    and "refresh_step E (authService E tm ttl) p (pc, w) = (pc', w')"
  shows "same_rows w w' \<and>
    (case pc of
       RFound t \<Rightarrow> pc' = (if RefreshToken_Expired (env_now E (tick w)) t then RDone (Inl ErrTokenInvalid) else RLive t)
     | RLive t \<Rightarrow> pc' = RDone lost_race
     | RDone r \<Rightarrow> pc' = RDone r \<and> r \<in> {Inl ErrTokenInvalid, lost_race}
     | _ \<Rightarrow> False)"
proof -
  note step = behind_step [OF assms]
  from assms(3) consider u where "pc = RFound u" | u where "pc = RLive u"
    | "pc = RDone (Inl ErrTokenInvalid)" | "pc = RDone lost_race"
    using pending_SomeD unfolding behind_def by blast
  then show ?thesis
    using step assms(4) [symmetric] by cases simp_all
qed

lemma after_outcome:
  assumes "no_faults E" and "spent p row w" and "after row pc"
    and "refresh_step E (authService E tm ttl) p (pc, w) = (pc', w')"
  shows "case pc of
       RStart \<Rightarrow> same_rows w w' \<and> (\<exists>row \<in> set (refresh_tokens w). pc' = RReused row \<and>
         rt_TokenHash row = hashRefreshToken p \<and> RefreshToken_Revoked row)
     | RReused row \<Rightarrow> pc' = RDone (Inl ErrTokenInvalid) \<and> rt_TokenHash row = hashRefreshToken p \<and>
         (\<forall>t \<in> set (refresh_tokens w'). rt_UserID t = rt_UserID row \<longrightarrow> RefreshToken_Revoked t)
     | RDone r \<Rightarrow> pc' = RDone r \<and> r = Inl ErrTokenInvalid
     | _ \<Rightarrow> False"
  using after_step [OF assms] assms(2-4) by (cases pc) (auto simp: after_def spent_def)

text \<open>C40: two refreshes with the same token that overlap, in any interleaving with each other and with
  any other requests, on a database that answers.  Thread \<open>i\<close> has won (its \<open>Revoke\<close> went through)
  and \<open>j\<close> goes on; every call \<open>j\<close> makes from then on is one of these.  If \<open>j\<close> had read the row before,
  its calls change no row at all, so that no session is closed; it never detects a reuse; and it ends,
  unless it finds the token expired, with a wrapped \<open>ErrNotFound\<close> and not with \<open>ErrTokenInvalid\<close>.  If
  \<open>j\<close> had not read the row yet, it takes the winner's token for a stolen one: it reads a revoked
  row, and its last call closes every session of the owner and answers \<open>ErrTokenInvalid\<close>.\<close>

theorem overlapping_refresh_outcome:
  assumes "no_faults E" and "db_inv w" and "\<forall>k. snd (th k) = RStart"
    and "(race_step E (authService E tm ttl))\<^sup>*\<^sup>* (w, th) (w1, th1)" and "won (snd (th1 i))"
    and "fst (th i) = p" and "fst (th j) = p"
    and "(race_step E (authService E tm ttl))\<^sup>*\<^sup>* (w1, th1) (w2, th2)"
    and "refresh_step E (authService E tm ttl) p (snd (th2 j), w2) = (pc, w3)"
  shows "(pending (snd (th1 j)) \<noteq> None \<longrightarrow>
      same_rows w2 w3 \<and>
      (case snd (th2 j) of
         RFound t \<Rightarrow> pc = (if RefreshToken_Expired (env_now E (tick w2)) t then RDone (Inl ErrTokenInvalid) else RLive t)
       | RLive t \<Rightarrow> pc = RDone (Inl (Wrap ''revoke used refresh token: '' ErrNotFound ''''))
       | RDone r \<Rightarrow> pc = RDone r \<and> r \<in> {Inl ErrTokenInvalid, Inl (Wrap ''revoke used refresh token: '' ErrNotFound '''')}
       | _ \<Rightarrow> False)) \<and>
    (snd (th1 j) = RStart \<longrightarrow>
      (case snd (th2 j) of
         RStart \<Rightarrow> same_rows w2 w3 \<and> (\<exists>row \<in> set (refresh_tokens w2). pc = RReused row \<and>
           rt_TokenHash row = hashRefreshToken p \<and> RefreshToken_Revoked row)
       | RReused row \<Rightarrow> pc = RDone (Inl ErrTokenInvalid) \<and> rt_TokenHash row = hashRefreshToken p \<and>
           (\<forall>t \<in> set (refresh_tokens w3). rt_UserID t = rt_UserID row \<longrightarrow> RefreshToken_Revoked t)
       | RDone r \<Rightarrow> pc = RDone r \<and> r = Inl ErrTokenInvalid
       | _ \<Rightarrow> False))"
proof -
  have ok: "rows_affected_ok E"
    using assms(1) by (simp add: no_faults_def)
  have inv: "race_inv (w1, th1)"
    using race_inv_steps [OF ok assms(4) race_inv_start [OF assms(2,3)]] .
  have p: "fst (th1 i) = p" "fst (th1 j) = p"
    using race_tokens_fixed [OF assms(4)] assms(6,7) by simp_all
  obtain row where row: "spent p row w1"
    and read: "\<And>u. pending (snd (th1 j)) = Some u \<Longrightarrow> behind row (snd (th1 j))"
    using winner_spent [OF inv assms(5) p] by blast
  have row2: "spent p row w2"
    using conjunct1 [OF loser_steps [where P = "\<lambda>_. True", OF assms(8)]] row p by simp
  have early: "behind row (snd (th2 j))" if "pending (snd (th1 j)) \<noteq> None"
    using behind_steps [OF assms(1,8), of p row j] row p(2) read that by auto
  have late: "after row (snd (th2 j))" if "snd (th1 j) = RStart"
    using after_steps [OF assms(1,8), of p row j] row p(2) that by (simp add: after_def)
  show ?thesis
    using behind_outcome [OF assms(1) row2 early assms(9)] after_outcome [OF assms(1) row2 late assms(9)] by blast
qed

text \<open>The second of two threads that take turns, after the first has revoked the row both have read.\<close>

theorem overlapping_refresh_outcome_witness:
  "fst (refresh_step example_env example_auth ''abc'' (snd (snd (turns example_env 5) 1), fst (turns example_env 5))) =
     RDone (Inl (Wrap ''revoke used refresh token: '' ErrNotFound ''''))"
proof -
  obtain w' th' where c: "turns example_env 5 = (w', th')"
    by fastforce
  have th': "snd (th' 0) = RRevoked 1" "snd (th' 1) = RLive (example_row None)"
    using turns_5 by (simp_all add: c)
  have reach: "(race_step example_env example_auth)\<^sup>*\<^sup>*
      (example_world [example_row None], \<lambda>k. (''abc'', RStart)) (w', th')"
    using turns_reach [of example_env 5] by (simp add: c)
  obtain pc w3 where step: "refresh_step example_env example_auth ''abc'' (snd (th' 1), w') = (pc, w3)"
    by fastforce
  show ?thesis
    using overlapping_refresh_outcome [OF example_no_faults(1) example_row_inv _ reach _ _ _ rtranclp.rtrancl_refl step, of 0]
      th' step by (simp add: c)
qed

subsection \<open>Every refresh comes to an end\<close>

text \<open>How many calls a refresh has left at most.\<close>

fun steps_left :: "refresh_pc \<Rightarrow> nat" where
  "steps_left RStart = 7"
| "steps_left (RReused t) = 1"
| "steps_left (RFound t) = 6"
| "steps_left (RLive t) = 5"
| "steps_left (RRevoked uid) = 4"
| "steps_left (RSigned uid a) = 3"
| "steps_left (RDrawn uid a q h) = 2"
| "steps_left (RStamped a q t) = 1"
| "steps_left (RDone r) = 0"

lemma refresh_step_left:
  "refresh_step E s p (pc, w) = (pc', w') \<Longrightarrow> pc' = pc \<and> steps_left pc = 0 \<or> steps_left pc' < steps_left pc"
  by (cases pc) (auto simp: time_Now_def split: prod.splits sum.splits if_splits)

interpretation racing: ranked_system "race_step E s" "\<lambda>c. steps_left (snd (snd c i))" for E s i
proof
  fix c c'
  assume "race_step E s c c'"
  then show "steps_left (snd (snd c' i)) \<le> steps_left (snd (snd c i))"
    by (induction rule: race_step.induct) (auto dest: refresh_step_left)
qed

text \<open>Thread \<open>i\<close> is scheduled again and again.\<close>

definition fair :: "env \<Rightarrow> AuthService \<Rightarrow> nat \<Rightarrow> (nat \<Rightarrow> race) \<Rightarrow> bool" where
  "fair E s i run \<longleftrightarrow> (\<forall>j. \<exists>k\<ge>j. run (Suc k) = turn E s i (run k))"

lemma turn_left:
  "steps_left (snd (snd c i)) = 0 \<or> steps_left (snd (snd (turn E s i c) i)) < steps_left (snd (snd c i))"
  using refresh_step_left [of E s "fst (snd c i)" "snd (snd c i)" "fst c"] by (auto simp: turn_def split: prod.splits)

lemma done_stays:
  assumes "is_run (race_step E s) run" and "snd (snd (run j) i) = RDone r" and "j \<le> k"
  shows "snd (snd (run k) i) = RDone r"
proof (rule racing.invariant [where I = "\<lambda>c. snd (snd c i) = RDone r", OF assms(1,2) _ assms(3)])
  fix c c'
  assume "race_step E s c c'" and "snd (snd c i) = RDone r"
  then show "snd (snd c' i) = RDone r"
    by (induction rule: race_step.induct) auto
qed

text \<open>However a refresh is interleaved with other refreshes and requests, and whatever the database
  answers, if it is scheduled again and again it ends with a result, which it keeps.\<close>

theorem refresh_finishes:
  assumes "is_run (race_step E s) run" and "fair E s i run"
  shows "\<exists>r j. \<forall>k\<ge>j. snd (snd (run k) i) = RDone r"
proof -
  have "\<exists>k\<ge>j. steps_left (snd (snd (run k) i)) < steps_left (snd (snd (run j) i))"
    if "steps_left (snd (snd (run j) i)) \<noteq> 0" for j
  proof -
    obtain k where k: "k \<ge> j" "run (Suc k) = turn E s i (run k)"
      using assms(2) by (auto simp: fair_def)
    have le: "steps_left (snd (snd (run k) i)) \<le> steps_left (snd (snd (run j) i))"
      using racing.rank_antimono [OF assms(1) k(1)] .
    from turn_left [of "run k" i E s] show ?thesis
    proof
      assume "steps_left (snd (snd (run k) i)) = 0"
      then show ?thesis
        using that k(1) by (intro exI [of _ k]) simp
    next
      assume "steps_left (snd (snd (turn E s i (run k)) i)) < steps_left (snd (snd (run k) i))"
      then show ?thesis
        using le k by (intro exI [of _ "Suc k"]) simp
    qed
  qed
  then obtain j where "steps_left (snd (snd (run j) i)) = 0"
    using racing.eventually [OF assms(1), of 0 "\<lambda>c. steps_left (snd (snd c i)) = 0" i] by blast
  then obtain r where "snd (snd (run j) i) = RDone r"
    by (cases "snd (snd (run j) i)") auto
  then show ?thesis
    using done_stays [OF assms(1)] by blast
qed

lemma turns_fair: "fair E (example_service E) 1 (turns E)"
proof -
  have "turns E (Suc (Suc (2 * j))) = turn E (example_service E) 1 (turns E (Suc (2 * j)))" for j
    by simp
  moreover have "j \<le> Suc (2 * j)" for j :: nat
    by simp
  ultimately show ?thesis
    unfolding fair_def by blast
qed

theorem refresh_finishes_witness: "\<exists>r j. \<forall>k\<ge>j. snd (snd (turns example_env k) 1) = RDone r"
  by (rule refresh_finishes [OF _ turns_fair]) (simp add: is_run_def turn_step)

subsection \<open>A race for a live token settles\<close>

text \<open>
  A contest: threads that all present the same live token, and any other requests that close no
  session.  Before anyone has revoked the row no thread can fail (\<open>undecided\<close>); from the first
  \<open>Revoke\<close> on, thread \<open>k\<close> is past it and everyone else has lost (\<open>decided\<close>).
\<close>

inductive contest :: "env \<Rightarrow> AuthService \<Rightarrow> race \<Rightarrow> race \<Rightarrow> bool" for E s where
  contest_turn: "contest E s c (turn E s i c)"
| contest_other: "db_step E w w' \<Longrightarrow> set (refresh_tokens w) \<subseteq> set (refresh_tokens w') \<Longrightarrow> contest E s (w, th) (w', th)"

lemma contest_race: "contest E s c c' \<Longrightarrow> race_step E s c c'"
  by (induction rule: contest.induct) (auto intro: turn_step race_step.other)

interpretation contesting: ranked_system "contest E s" "\<lambda>c. steps_left (snd (snd c i))" for E s i
  by unfold_locales (rule racing.rank_step [OF contest_race])

definition undecided :: "string \<Rightarrow> RefreshToken \<Rightarrow> race \<Rightarrow> bool" where
  "undecided p t c \<longleftrightarrow> db_inv (fst c) \<and> t \<in> set (refresh_tokens (fst c)) \<and>
     (\<forall>j. fst (snd c j) = p \<and> snd (snd c j) \<in> {RStart, RFound t, RLive t})"

definition past :: "refresh_pc \<Rightarrow> bool" where
  "past pc \<longleftrightarrow> won pc \<or> (\<exists>e. pc = RDone (Inl e))"

definition decided :: "string \<Rightarrow> nat \<Rightarrow> race \<Rightarrow> bool" where
  "decided p k c \<longleftrightarrow> (\<exists>row. spent p row (fst c) \<and> past (snd (snd c k)) \<and> (\<forall>j. fst (snd c j) = p) \<and>
     (\<forall>j. j \<noteq> k \<longrightarrow> behind row (snd (snd c j)) \<or> after row (snd (snd c j))))"

lemma past_step: "refresh_step E s p (pc, w) = (pc', w') \<Longrightarrow> past pc \<Longrightarrow> past pc'"
  by (cases pc rule: won.cases) (auto simp: past_def time_Now_def split: prod.splits sum.splits)

lemma undecided_step:
  assumes "no_faults E" and "db_inv w" and "t \<in> set (refresh_tokens w)" and "rt_TokenHash t = hashRefreshToken p"
    and "\<not> RefreshToken_Revoked t" and "\<not> RefreshToken_Expired (env_now E (tick w)) t"
    and "pc \<in> {RStart, RFound t, RLive t}"
    and "refresh_step E (authService E tm ttl) p (pc, w) = (pc', w')"
  shows "refresh_tokens w' = refresh_tokens w \<and> pc' \<in> {RStart, RFound t, RLive t} \<or>
    pc' = RRevoked (rt_UserID t) \<and>
    (\<exists>c. t\<lparr>rt_RevokedAt := Some c\<rparr> \<in> set (refresh_tokens w'))"
proof (cases "pc = RLive t")
  case True
  have live: "(\<forall>r \<in> set (refresh_tokens w). rt_ID r = rt_ID t \<longrightarrow> RefreshToken_Revoked r) = False"
    using assms(3,5) by blast
  have "refreshTokenRepository_Revoke E (rt_ID t) w =
      (Inr (), w\<lparr>tick := Suc (tick w), refresh_tokens :=
         update_where (\<lambda>r. r = t) (\<lambda>r. r\<lparr>rt_RevokedAt := Some (env_dbnow E (tick w))\<rparr>) (refresh_tokens w)\<rparr>)"
    by (simp add: Revoke_answered [OF assms(1)] live revoke_by_id [OF assms(2,3,5)])
  then show ?thesis
    using True assms(3,8) by (auto simp: set_update_where)
next
  case False
  then show ?thesis
    using assms(5-8) FindByHash_row [OF assms(1-4)] by (auto simp: time_Now_def)
qed

text \<open>A step of an undecided contest leaves it undecided, or a thread wins.\<close>

lemma contest_undecided:
  assumes "contest E (authService E tm ttl) c c'" and "undecided p t c"
    and "no_faults E" and "rt_TokenHash t = hashRefreshToken p" and "\<not> RefreshToken_Revoked t"
    and "\<And>n. \<not> RefreshToken_Expired (env_now E n) t"
  shows "undecided p t c' \<or> (\<exists>k. decided p k c' \<and> won (snd (snd c' k)))"
  using assms(1,2)
proof (induction rule: contest.induct)
  case (contest_turn c i)
  obtain w th where c: "c = (w, th)"
    by fastforce
  note u = contest_turn [unfolded c undecided_def, simplified]
  obtain pc' w' where step: "refresh_step E (authService E tm ttl) p (snd (th i), w) = (pc', w')"
    by fastforce
  have turn: "turn E (authService E tm ttl) i c = (w', th(i := (p, pc')))"
    using u step by (simp add: c turn_def)
  have w': "db_inv w'"
    using db_steps_inv [OF refresh_step_steps [OF step]] u by simp
  from undecided_step [OF assms(3) _ _ assms(4-6) _ step] u
  consider "refresh_tokens w' = refresh_tokens w" "pc' \<in> {RStart, RFound t, RLive t}"
    | m where "pc' = RRevoked (rt_UserID t)" "t\<lparr>rt_RevokedAt := Some m\<rparr> \<in> set (refresh_tokens w')"
    by blast
  then show ?case
  proof cases
    case 1
    then show ?thesis
      using u w' by (auto simp: turn undecided_def)
  next
    case 2
    let ?row = "t\<lparr>rt_RevokedAt := Some m\<rparr>"
    have "spent p ?row w'"
      using 2(2) w' assms(4) by (simp add: spent_def RefreshToken_Revoked_def)
    moreover have "behind ?row (snd (th j)) \<or> after ?row (snd (th j))" for j
      using u by (auto simp: behind_def after_def)
    ultimately have "decided p i (w', th(i := (p, pc')))"
      using 2(1) u unfolding decided_def past_def by (intro exI [of _ ?row]) auto
    then show ?thesis
      using 2(1) unfolding turn by (intro disjI2 exI [of _ i]) simp
  qed
next
  case (contest_other w w' th)
  then show ?case
    using db_step_inv [OF contest_other(1)] by (auto simp: undecided_def)
qed

lemma contest_decided:
  assumes "contest E (authService E tm ttl) c c'" and "decided p k c" and "no_faults E"
  shows "decided p k c'"
  using assms(1,2)
proof (induction rule: contest.induct)
  case (contest_turn c i)
  obtain w th where c: "c = (w, th)"
    by fastforce
  obtain row where row: "spent p row w" and past: "past (snd (th k))" and p: "\<And>j. fst (th j) = p"
    and lost: "\<And>j. j \<noteq> k \<Longrightarrow> behind row (snd (th j)) \<or> after row (snd (th j))"
    using contest_turn unfolding c decided_def by auto
  obtain pc' w' where step: "refresh_step E (authService E tm ttl) p (snd (th i), w) = (pc', w')"
    by fastforce
  have turn: "turn E (authService E tm ttl) i c = (w', th(i := (p, pc')))"
    using p step by (simp add: c turn_def)
  have "spent p row w'"
    using spent_steps [OF row refresh_step_steps [OF step]] .
  moreover have "i \<noteq> k \<Longrightarrow> behind row pc' \<or> after row pc'"
    using lost [of i] behind_step(1) [OF assms(3) row _ step] after_step(1) [OF assms(3) row _ step] by blast
  moreover have "i = k \<Longrightarrow> past pc'"
    using past_step [OF step] past by simp
  ultimately show ?case
    unfolding turn decided_def using past p lost by (intro exI [of _ row]) auto
next
  case (contest_other w w' th)
  then have "db_steps E w w'"
    by blast
  then have "spent p row w'" if "spent p row w" for row
    using spent_steps [OF that] by blast
  then show ?case
    using contest_other(3) unfolding decided_def fst_conv snd_conv by blast
qed

lemma lost_not_won: "behind row pc \<or> after row pc \<Longrightarrow> \<not> won pc"
  by (auto simp: behind_def after_def dest!: pending_SomeD)

text \<open>So a contest that has come to an end for some thread was decided at one moment.\<close>

lemma contest_settles:
  assumes "no_faults E" and "rt_TokenHash t = hashRefreshToken p" and "\<not> RefreshToken_Revoked t"
    and "\<And>n. \<not> RefreshToken_Expired (env_now E n) t"
    and "is_run (contest E (authService E tm ttl)) run" and "undecided p t (run 0)" and "\<not> undecided p t (run n)"
  obtains N k where "\<forall>m\<le>N. undecided p t (run m)" and "\<forall>m\<ge>Suc N. decided p k (run m)"
    and "won (snd (snd (run (Suc N)) k))"
proof -
  obtain N where before: "\<And>m. m \<le> N \<Longrightarrow> undecided p t (run m)" and N: "\<not> undecided p t (run (Suc N))"
    using assms(6,7) ex_least_nat_less [of "\<lambda>n. \<not> undecided p t (run n)" n] by auto
  have "contest E (authService E tm ttl) (run N) (run (Suc N))"
    using assms(5) before [of N] N unfolding is_run_def by auto
  from contest_undecided [OF this before [OF order_refl] assms(1-4)] N
  obtain k where k: "decided p k (run (Suc N))" "won (snd (snd (run (Suc N)) k))"
    by blast
  have later: "decided p k (run m)" if "Suc N \<le> m" for m
    by (rule contesting.invariant [where I = "decided p k", OF assms(5) k(1) _ that])
      (rule contest_decided [OF _ _ assms(1)])
  show thesis
    by (rule that) (use before later k(2) in blast)+
qed

text \<open>C21: a race for a live token settles, with exactly one winner.  All threads present the same
  token, interleaved in any way with each other and with other requests that close no session, on a
  database that answers, before the token expires.  Once one of them is scheduled again and again there
  is a thread \<open>k\<close> that wins, and no thread but \<open>k\<close> ever wins.  Every other thread that is scheduled
  again and again ends for good, with \<open>ErrTokenInvalid\<close> or with the wrapped \<open>ErrNotFound\<close> of a
  \<open>Revoke\<close> that came second; the winner ends for good, too.\<close>

theorem race_settles:
  assumes "no_faults E" and "db_inv w" and "t \<in> set (refresh_tokens w)"
    and "rt_TokenHash t = hashRefreshToken p" and "\<not> RefreshToken_Revoked t"
    and "\<And>n. \<not> RefreshToken_Expired (env_now E n) t"
    and "run 0 = (w, \<lambda>j. (p, RStart))" and "is_run (contest E (authService E tm ttl)) run"
    and "fair E (authService E tm ttl) i run"
  shows "\<exists>k. (\<exists>n. won (snd (snd (run n) k))) \<and> (\<forall>n j. won (snd (snd (run n) j)) \<longrightarrow> j = k) \<and>
    (\<forall>j. fair E (authService E tm ttl) j run \<longrightarrow>
       (\<exists>r n. (\<forall>m\<ge>n. snd (snd (run m) j) = RDone r) \<and>
          (j \<noteq> k \<longrightarrow> r \<in> {Inl ErrTokenInvalid, Inl (Wrap ''revoke used refresh token: '' ErrNotFound '''')})))"
proof -
  let ?s = "authService E tm ttl"
  have race: "is_run (race_step E ?s) run"
    using assms(8) contest_race unfolding is_run_def by blast
  have start: "undecided p t (run 0)"
    using assms(2,3,7) by (simp add: undecided_def)
  obtain r n0 where "snd (snd (run n0) i) = RDone r"
    using refresh_finishes [OF race assms(9)] by blast
  then have fin: "\<not> undecided p t (run n0)"
    by (auto simp: undecided_def intro!: exI [of _ i])
  obtain N k where before: "\<forall>m\<le>N. undecided p t (run m)"
    and later: "\<forall>m\<ge>Suc N. decided p k (run m)" and k: "won (snd (snd (run (Suc N)) k))"
    using contest_settles [OF assms(1,4-6,8) start fin] by blast
  have only: "j = k" if "won (snd (snd (run n) j))" for n j
  proof (cases "n \<le> N")
    case True
    then have "snd (snd (run n) j) \<in> {RStart, RFound t, RLive t}"
      using before by (simp add: undecided_def)
    then show ?thesis
      using that by auto
  next
    case False
    then show ?thesis
      using later [rule_format, of n] that lost_not_won unfolding decided_def by (metis not_less_eq_eq)
  qed
  have ends: "\<exists>r n. (\<forall>m\<ge>n. snd (snd (run m) j) = RDone r) \<and> (j \<noteq> k \<longrightarrow> r \<in> {Inl ErrTokenInvalid, lost_race})"
    if fair: "fair E ?s j run" for j
  proof -
    obtain r n where r: "\<forall>m\<ge>n. snd (snd (run m) j) = RDone r"
      using refresh_finishes [OF race fair] by blast
    then have "r \<in> {Inl ErrTokenInvalid, lost_race}" if "j \<noteq> k"
      using later [rule_format, of "max n (Suc N)"] that unfolding decided_def by (auto simp: behind_def after_def)
    then show ?thesis
      using r by blast
  qed
  show ?thesis
    using k only ends by blast
qed

text \<open>Two threads that take turns, by a clock that stands still.\<close>

theorem race_settles_witness:
  "\<exists>k. (\<exists>n. won (snd (snd (turns (example_env\<lparr>env_now := \<lambda>_. 0\<rparr>) n) k))) \<and>
     (\<forall>n j. won (snd (snd (turns (example_env\<lparr>env_now := \<lambda>_. 0\<rparr>) n) j)) \<longrightarrow> j = k)"
proof -
  let ?E = "example_env\<lparr>env_now := \<lambda>_. 0\<rparr>"
  have "no_faults ?E" "\<not> RefreshToken_Expired (env_now ?E n) (example_row None)" for n
    by (simp_all add: no_faults_def rows_affected_ok_def RefreshToken_Expired_def)
  moreover have "is_run (contest ?E (example_service ?E)) (turns ?E)"
    by (simp add: is_run_def contest_turn)
  ultimately obtain k where "\<exists>n. won (snd (snd (turns ?E n) k))" "\<forall>n j. won (snd (snd (turns ?E n) j)) \<longrightarrow> j = k"
    using race_settles [OF _ example_row_inv, of ?E "example_row None" None "''abc''" "turns ?E" example_manager
        3600000000000 1] turns_fair [of ?E]
    by (auto simp: RefreshToken_Revoked_def)
  then show ?thesis
    by blast
qed

end
