(* ===== verification/TaskRaces.thy ===== *)
theory TaskRaces
  imports TaskProperties
begin

text \<open>
  Updates and deletions under concurrency.  \<open>TaskService.Update\<close> and \<open>Delete\<close> first read the task
  and check its owner, then write, in two statements with nothing that holds them together, so anything
  may happen in between.  \<open>task_call_step\<close> runs the two operations one statement at a time;
  \<open>task_race_step\<close> interleaves any number of such calls with each other and with any other step of the
  system.  The check stays good, because the id of a row is never used again and its owner never changes.
\<close>

subsection \<open>What never changes of a task\<close>

text \<open>
  Ids come from a sequence that only grows, and every row keeps its id, its owner and its time of creation.
\<close>

definition task_key :: "Task \<Rightarrow> int64 \<times> int64 \<times> time" where
  "task_key t = (t_ID t, t_UserID t, t_CreatedAt t)"

definition tasks_evolve :: "world \<Rightarrow> world \<Rightarrow> bool" where
  "tasks_evolve w w' \<longleftrightarrow> tick w \<le> tick w' \<and> tasks_id_seq w \<le> tasks_id_seq w' \<and>
     (\<forall>t \<in> set (tasks w'). task_key t \<in> task_key ` set (tasks w) \<or> tasks_id_seq w < t_ID t)"

lemma tasks_evolve_refl [simp]: "tasks_evolve w w"
  by (simp add: tasks_evolve_def)

lemma tasks_evolve_trans: "tasks_evolve w1 w2 \<Longrightarrow> tasks_evolve w2 w3 \<Longrightarrow> tasks_evolve w1 w3"
  by (fastforce simp: tasks_evolve_def task_key_def)

lemma tasks_evolve_tick [simp]: "tasks_evolve w (w\<lparr>tick := Suc (tick w)\<rparr>)"
  by (simp add: tasks_evolve_def)

lemma tasks_evolve_db_call:
  assumes "db_call E stmt w = (r, w')" and "\<And>n v r1 v'. stmt n v = (r1, v') \<Longrightarrow> tasks_evolve v v'"
  shows "tasks_evolve w w'"
  using assms(1)
proof (rule db_call_cases)
  fix r1
  assume "stmt (tick w) (w\<lparr>tick := Suc (tick w)\<rparr>) = (r1, w')"
  then show ?thesis
    using assms(2) tasks_evolve_trans tasks_evolve_tick by blast
qed simp

lemma tasks_evolve_stmts:
  "sql_insert_user E a b n v = (ru, v') \<Longrightarrow> tasks_evolve v v'"
  "sql_insert_refresh_token E i a c n v = (rt, v') \<Longrightarrow> tasks_evolve v v'"
  "sql_revoke_where E q n v = (rr, v') \<Longrightarrow> tasks_evolve v v'"
  "sql_insert_task E x n v = (rx, v') \<Longrightarrow> tasks_evolve v v'"
  "sql_update_task E x n v = (ry, v') \<Longrightarrow> tasks_evolve v v'"
  "sql_delete_task i n v = (rz, v') \<Longrightarrow> tasks_evolve v v'"
  by (auto simp: sql_defs Let_def tasks_evolve_def task_key_def nextval_def set_update_where set_task_def image_iff
      split: option.splits if_splits) metis+

lemma tasks_evolve_reads:
  "sql_select_user p n v = (ru, v') \<Longrightarrow> tasks_evolve v v'"
  "sql_select_refresh_token h n v = (rt, v') \<Longrightarrow> tasks_evolve v v'"
  "sql_select_task i n v = (rs, v') \<Longrightarrow> tasks_evolve v v'"
  "sql_count_tasks f n v = (rc, v') \<Longrightarrow> tasks_evolve v v'"
  "sql_list_tasks E f l k n v = (rl, v') \<Longrightarrow> tasks_evolve v v'"
  by (auto simp: sql_defs split: option.splits if_splits)

lemma tasks_evolve_calls:
  "db_call E (sql_insert_user E a b) w = (ru, w') \<Longrightarrow> tasks_evolve w w'"
  "db_call E (sql_select_user p) w = (ru2, w') \<Longrightarrow> tasks_evolve w w'"
  "db_call E (sql_insert_refresh_token E i a c) w = (rt, w') \<Longrightarrow> tasks_evolve w w'"
  "db_call E (sql_select_refresh_token h) w = (rt2, w') \<Longrightarrow> tasks_evolve w w'"
  "db_call E (sql_revoke_where E q) w = (rr, w') \<Longrightarrow> tasks_evolve w w'"
  "db_call E (sql_insert_task E x) w = (rx, w') \<Longrightarrow> tasks_evolve w w'"
  "db_call E (sql_update_task E x) w = (ry, w') \<Longrightarrow> tasks_evolve w w'"
  "db_call E (sql_delete_task i) w = (rz, w') \<Longrightarrow> tasks_evolve w w'"
  "db_call E (sql_select_task i) w = (rs, w') \<Longrightarrow> tasks_evolve w w'"
  "db_call E (sql_count_tasks f) w = (rc, w') \<Longrightarrow> tasks_evolve w w'"
  "db_call E (sql_list_tasks E f l k) w = (rl, w') \<Longrightarrow> tasks_evolve w w'"
  by (erule tasks_evolve_db_call, erule tasks_evolve_stmts tasks_evolve_reads)+

lemma tasks_evolve_scan: "scan_tasks E rows acc w = (r, w') \<Longrightarrow> tasks_evolve w w'"
proof (induction E rows acc w arbitrary: r rule: scan_tasks.induct)
  case (1 E acc w)
  then show ?case
    by (auto split: prod.splits sum.splits dest!: read_row_call)
next
  case (2 E row rows acc w)
  obtain r1 w1 where first: "read_row E w = (r1, w1)" "tasks_evolve w w1"
    using read_row_call by (metis surj_pair tasks_evolve_tick)
  obtain r2 w2 where second: "read_row E w1 = (r2, w2)" "tasks_evolve w1 w2"
    using read_row_call by (metis surj_pair tasks_evolve_tick)
  show ?case
    using 2 first second tasks_evolve_trans [OF first(2) second(2)] tasks_evolve_trans [of w w2 w']
    by (auto split: sum.splits)
qed

lemma tasks_evolve_list:
  assumes "taskRepository_ListByUser E uid p w = (rl, w')"
  shows "tasks_evolve w w'"
  using assms
  by (auto simp: repo_defs Let_def split: prod.splits sum.splits
      dest!: tasks_evolve_calls tasks_evolve_scan intro: tasks_evolve_trans)

lemma db_step_tasks: "db_step E w w' \<Longrightarrow> tasks_evolve w w'"
proof (induction rule: db_step.induct)
  case (task_list uid p w rl w')
  then show ?case
    by (rule tasks_evolve_list)
qed (auto simp: repo_defs Let_def split: prod.splits sum.splits if_splits option.splits dest: tasks_evolve_calls)

lemma db_steps_tasks: "db_steps E w w' \<Longrightarrow> tasks_evolve w w'"
  by (induction rule: rtranclp_induct) (auto dest: db_step_tasks intro: tasks_evolve_trans)

subsection \<open>The two operations, one statement at a time\<close>

datatype task_call =
    UpdateTask int64 int64 string string TaskStatus "time option"
  | DeleteTask int64 int64

fun caller :: "task_call \<Rightarrow> int64" where
  "caller (UpdateTask uid i title descr st due) = uid"
| "caller (DeleteTask uid i) = uid"

text \<open>Before the check, between check and write, and after the end with the result.\<close>

datatype task_pc =
    TStart
  | TChecked Task
  | TDone "error + Task option"

fun task_call_step :: "env \<Rightarrow> TaskService \<Rightarrow> task_call \<Rightarrow> task_pc \<times> world \<Rightarrow> task_pc \<times> world" where
  "task_call_step E s (UpdateTask userID taskID title description status dueDate) (TStart, w) =
     (case TaskService_Get s userID taskID w of
        (Inl err, w1) \<Rightarrow> (TDone (Inl err), w1)
      | (Inr task, w1) \<Rightarrow>
          (if \<not> TaskStatus_Valid status
           then TDone (Inl (Wrap '''' ErrValidation ('': invalid status '' @ env_Quote E status)))
           else TChecked task, w1))"
| "task_call_step E s (UpdateTask userID taskID title description status dueDate) (TChecked task, w) =
     (case tr_Update (ts_tasks s)
             (task\<lparr>t_Title := title, t_Description := description, t_Status := status, t_DueDate := dueDate\<rparr>) w of
        (r, w1) \<Rightarrow> (TDone (map_sum id Some r), w1))"
| "task_call_step E s (DeleteTask userID taskID) (TStart, w) =
     (case TaskService_Get s userID taskID w of
        (Inl err, w1) \<Rightarrow> (TDone (Inl err), w1)
      | (Inr task, w1) \<Rightarrow> (TChecked task, w1))"
| "task_call_step E s (DeleteTask userID taskID) (TChecked task, w) =
     (case tr_Delete (ts_tasks s) taskID w of (r, w1) \<Rightarrow> (TDone (map_sum id (\<lambda>_. None) r), w1))"
| "task_call_step E s c (TDone r, w) = (TDone r, w)"

text \<open>The operations of the service.\<close>

fun perform :: "env \<Rightarrow> TaskService \<Rightarrow> task_call \<Rightarrow> world \<Rightarrow> (error + Task option) \<times> world" where
  "perform E s (UpdateTask uid i title descr st due) w =
     (case TaskService_Update E s uid i title descr st due w of (r, w') \<Rightarrow> (map_sum id Some r, w'))"
| "perform E s (DeleteTask uid i) w = (case TaskService_Delete s uid i w of (r, w') \<Rightarrow> (map_sum id (\<lambda>_. None) r, w'))"

text \<open>Two steps of a call that runs alone are the operation of the service.\<close>

lemma perform_as_steps:
  "(task_call_step E s c ^^ 2) (TStart, w) = (TDone (fst (perform E s c w)), snd (perform E s c w))"
  by (cases c) (auto simp: TaskService_Update_def TaskService_Delete_def numeral_2_eq_2 split: prod.splits sum.splits)

type_synonym task_race = "world \<times> (nat \<Rightarrow> task_call \<times> task_pc)"

inductive task_race_step :: "env \<Rightarrow> TaskService \<Rightarrow> task_race \<Rightarrow> task_race \<Rightarrow> bool" for E s where
  thread: "th k = (c, pc) \<Longrightarrow> task_call_step E s c (pc, w) = (pc', w') \<Longrightarrow>
     task_race_step E s (w, th) (w', th(k := (c, pc')))"
| other: "db_step E w w' \<Longrightarrow> task_race_step E s (w, th) (w', th)"

subsection \<open>The check stays good\<close>

text \<open>The check of a call went through for task \<open>t\<close>.\<close>

fun granted :: "task_call \<Rightarrow> Task \<Rightarrow> bool" where
  "granted (UpdateTask uid i title descr st due) t \<longleftrightarrow> t_ID t = i \<and> t_UserID t = uid \<and> TaskStatus_Valid st"
| "granted (DeleteTask uid i) t \<longleftrightarrow> t_ID t = i \<and> t_UserID t = uid"

text \<open>What such a call may rely on, whatever the others do: the row is still the one it checked, or it is gone.\<close>

definition checked_ok :: "task_call \<Rightarrow> Task \<Rightarrow> world \<Rightarrow> bool" where
  "checked_ok c t w \<longleftrightarrow> granted c t \<and> 0 < tick w \<and> t_ID t \<le> tasks_id_seq w \<and>
     (\<forall>row \<in> set (tasks w). t_ID row = t_ID t \<longrightarrow> task_key row = task_key t)"

lemma checked_ok_evolve:
  assumes "checked_ok c t w" and "tasks_evolve w w'"
  shows "checked_ok c t w'"
proof -
  have "task_key row = task_key t" if row: "row \<in> set (tasks w')" "t_ID row = t_ID t" for row
  proof -
    have "\<not> tasks_id_seq w < t_ID row"
      using assms(1) row(2) by (simp add: checked_ok_def)
    then obtain old where "old \<in> set (tasks w)" "task_key row = task_key old"
      using assms(2) row(1) by (auto simp: tasks_evolve_def)
    then show ?thesis
      using assms(1) row(2) by (simp add: checked_ok_def task_key_def)
  qed
  then show ?thesis
    using assms by (simp add: checked_ok_def tasks_evolve_def)
qed

lemma Get_tick:
  assumes "TaskService_Get (taskService E) uid i w = (r, w1)"
  shows "w1 = w\<lparr>tick := Suc (tick w)\<rparr>"
proof -
  obtain r1 where call: "db_call E (sql_select_task i) w = (r1, w1)"
    using assms by (auto simp: TaskService_Get_def repo_defs split: prod.splits sum.splits if_splits)
  then show ?thesis
    by (rule reading_call) (simp add: sql_select_task_def split: option.split)
qed

text \<open>The check is \<open>TaskService_Get\<close>.\<close>

lemma check_step:
  assumes "task_call_step E (taskService E) c (TStart, w) = (pc', w')"
  obtains uid i r where "TaskService_Get (taskService E) uid i w = (r, w')"
    and "\<And>t. pc' = TChecked t \<Longrightarrow> r = Inr t \<and> (t_ID t = i \<longrightarrow> t_UserID t = uid \<longrightarrow> granted c t)"
proof (cases c)
  case (UpdateTask uid i title descr st due)
  then show ?thesis
    using assms that [of uid i] by (auto split: prod.splits sum.splits if_splits)
next
  case (DeleteTask uid i)
  then show ?thesis
    using assms that [of uid i] by (auto split: prod.splits sum.splits)
qed

definition task_race_inv :: "task_race \<Rightarrow> bool" where
  "task_race_inv x \<longleftrightarrow> db_inv (fst x) \<and> (\<forall>k c t. snd x k = (c, TChecked t) \<longrightarrow> checked_ok c t (fst x))"

lemma write_own:
  assumes "checked_ok c t w" and "db_inv w" and "task_call_step E (taskService E) c (TChecked t, w) = (pc', w')"
  shows "others_kept (caller c) w w' \<and> db_inv w' \<and> db_step E w w' \<and> (\<exists>r. pc' = TDone r)"
proof (cases c)
  case (UpdateTask uid i title descr st due)
  let ?t = "t\<lparr>t_Title := title, t_Description := descr, t_Status := st, t_DueDate := due\<rparr>"
  obtain r where upd: "taskRepository_Update E ?t w = (r, w')" "pc' = TDone (map_sum id Some r)"
    using assms(3) UpdateTask by (auto split: prod.splits)
  have ok: "TaskStatus_Valid (t_Status ?t)" "\<And>row. row \<in> set (tasks w) \<Longrightarrow> t_ID row = t_ID ?t \<Longrightarrow> t_UserID row = uid"
    using assms(1) UpdateTask by (auto simp: checked_ok_def task_key_def)
  have "others_kept uid w w' \<and> db_inv w'"
    by (rule pg_task.update_own [where t = ?t]) (use upd(1) assms(2) ok in simp_all)
  then show ?thesis
    using upd(2) task_update [OF upd(1) ok(1)] UpdateTask by simp
next
  case (DeleteTask uid i)
  obtain r where del: "taskRepository_Delete E i w = (r, w')" "pc' = TDone (map_sum id (\<lambda>_. None) r)"
    using assms(3) DeleteTask by (auto split: prod.splits)
  have "\<And>row. row \<in> set (tasks w) \<Longrightarrow> t_ID row = i \<Longrightarrow> t_UserID row = uid"
    using assms(1) DeleteTask by (auto simp: checked_ok_def task_key_def)
  then have "others_kept uid w w' \<and> db_inv w'"
    by (intro pg_task.delete_own [where i = i]) (use del(1) assms(2) in simp_all)
  then show ?thesis
    using del(2) task_delete [OF del(1)] DeleteTask by simp
qed

lemma call_step:
  assumes "db_inv w" and "\<And>t. pc = TChecked t \<Longrightarrow> checked_ok c t w"
    and "task_call_step E (taskService E) c (pc, w) = (pc', w')"
  shows "others_kept (caller c) w w' \<and> db_inv w' \<and> db_steps E w w' \<and> (\<forall>t. pc' = TChecked t \<longrightarrow> checked_ok c t w')"
proof (cases pc)
  case TStart
  from assms(3) [unfolded TStart] show ?thesis
  proof (rule check_step)
    fix uid i r
    assume get: "TaskService_Get (taskService E) uid i w = (r, w')"
      and checked: "\<And>t. pc' = TChecked t \<Longrightarrow> r = Inr t \<and> (t_ID t = i \<longrightarrow> t_UserID t = uid \<longrightarrow> granted c t)"
    have "checked_ok c t w'" if "pc' = TChecked t" for t
    proof -
      have t: "t \<in> set (tasks w)" "granted c t"
        using checked [OF that] get pg_task.get_ok [of E uid i w t w'] by auto
      then have "t_ID t \<le> tasks_id_seq w"
        using assms(1) by (auto simp: db_inv_def ids_ok_def)
      then show ?thesis
        using t Get_tick [OF get] unique_task [OF assms(1) t(1)] by (auto simp: checked_ok_def)
    qed
    then show ?thesis
      using pg_task.get_rows [OF get] get_steps [OF get] assms(1) by (auto intro: others_kept_same_rows)
  qed
next
  case (TChecked t)
  with write_own [OF assms(2) assms(1)] assms(3) show ?thesis
    by (metis r_into_rtranclp task_pc.distinct(5))
next
  case (TDone r)
  then show ?thesis
    using assms(1,3) by (cases c) (auto simp: others_kept_def)
qed

lemma task_race_inv_step:
  assumes "task_race_step E (taskService E) x y" and "task_race_inv x"
  shows "task_race_inv y"
  using assms
proof (induction rule: task_race_step.induct)
  case (thread th k c pc w pc' w')
  then have "db_inv w" and "\<And>t. pc = TChecked t \<Longrightarrow> checked_ok c t w"
    by (auto simp: task_race_inv_def)
  note step = call_step [OF this thread(2)]
  then have "checked_ok c t w \<Longrightarrow> checked_ok c t w'" for c t
    using checked_ok_evolve db_steps_tasks by blast
  then show ?case
    using thread(3) step by (auto simp: task_race_inv_def)
next
  case (other w w' th)
  then show ?case
    using db_step_inv [OF other(1)] checked_ok_evolve [OF _ db_step_tasks [OF other(1)]] by (auto simp: task_race_inv_def)
qed

lemma task_race_inv_steps:
  "(task_race_step E (taskService E))\<^sup>*\<^sup>* x y \<Longrightarrow> task_race_inv x \<Longrightarrow> task_race_inv y"
  by (induction rule: rtranclp_induct) (auto intro: task_race_inv_step)

lemma task_race_inv_start: "db_inv w \<Longrightarrow> \<forall>k. snd (th k) = TStart \<Longrightarrow> task_race_inv (w, th)"
  by (simp add: task_race_inv_def) (metis snd_conv task_pc.distinct(1))

subsection \<open>Properties\<close>

text \<open>C22: between check and write.  Any number of updates and deletions of tasks, interleaved statement by
  statement with each other and with any other requests, under any faults of the database: no step of a call
  changes a row of anyone but its caller, also when the task was deleted or changed by others after the
  check, and the invariant of the tables holds throughout.\<close>

theorem task_check_holds:
  assumes "db_inv w" and "\<forall>k. snd (th k) = TStart"
    and "(task_race_step E (taskService E))\<^sup>*\<^sup>* (w, th) (w1, th1)"
    and "task_call_step E (taskService E) (fst (th1 k)) (snd (th1 k), w1) = (pc', w2)"
  shows "others_kept (caller (fst (th1 k))) w1 w2 \<and> db_inv w1 \<and> db_inv w2"
proof -
  have "task_race_inv (w1, th1)"
    using task_race_inv_steps [OF assms(3) task_race_inv_start [OF assms(1,2)]] .
  then have inv: "db_inv w1" and "\<And>t. snd (th1 k) = TChecked t \<Longrightarrow> checked_ok (fst (th1 k)) t w1"
    by (auto simp: task_race_inv_def prod_eq_iff)
  from call_step [OF this assms(4)] show ?thesis
    using inv by simp
qed

text \<open>The write of a call, when the database answers, is the operation of the service at that moment.\<close>

lemma gone_or_same:
  assumes "checked_ok c t w"
  obtains (Gone) "t_ID t \<notin> t_ID ` set (tasks w)"
    | (Same) row where "row \<in> set (tasks w)" and "task_key row = task_key t"
proof (cases "t_ID t \<in> t_ID ` set (tasks w)")
  case True
  then show ?thesis
    using assms Same by (metis checked_ok_def imageE)
qed (rule Gone)

lemma affected_gone: "i \<notin> t_ID ` set rows \<Longrightarrow> affected (\<lambda>t. t_ID t = i) rows = 0"
  by (auto simp: affected_0_iff)

lemma Update_gone:
  assumes "no_faults E" and "t_ID t \<notin> t_ID ` set (tasks w)"
  shows "taskRepository_Update E t w = (Inl ErrNotFound, w\<lparr>tick := Suc (tick w)\<rparr>)"
  using affected_gone [OF assms(2)] by (simp add: repo_defs db_call_answered [OF assms(1)] sql_defs)

lemma Delete_gone:
  assumes "no_faults E" and "i \<notin> t_ID ` set (tasks w)"
  shows "fst (taskRepository_Delete E i w) = Inl ErrNotFound \<and> same_rows w (snd (taskRepository_Delete E i w))"
proof -
  have "filter (\<lambda>t. t_ID t \<noteq> i) (tasks w) = tasks w"
    using assms(2) by (blast intro: filter_True)
  then show ?thesis
    using assms(1) affected_gone [OF assms(2)] by (simp add: repo_defs db_call_answered [OF assms(1)] sql_defs no_faults_def rows_affected_ok_def same_rows_def)
qed

text \<open>A write only takes the new contents from the task that was read.\<close>

lemma same_write:
  assumes "no_faults E" and "row \<in> set (tasks w)" and "task_key row = task_key t"
  shows "taskRepository_Update E (row\<lparr>t_Title := title, t_Description := descr, t_Status := st, t_DueDate := due\<rparr>) w =
    taskRepository_Update E (t\<lparr>t_Title := title, t_Description := descr, t_Status := st, t_DueDate := due\<rparr>) w"
proof -
  have "t_ID t \<in> t_ID ` set (tasks w)"
    using assms(2,3) by (metis Pair_inject image_eqI task_key_def)
  moreover have "t_ID row = t_ID t" "t_UserID row = t_UserID t" "t_CreatedAt row = t_CreatedAt t"
    using assms(3) by (simp_all add: task_key_def)
  ultimately show ?thesis
    by (simp add: Update_answered [OF assms(1)] set_task_fun)
qed

lemma write_is_operation:
  assumes "no_faults E" and "db_inv w" and "checked_ok c t w"
    and "task_call_step E (taskService E) c (TChecked t, w) = (pc', w')"
  shows "case perform E (taskService E) c (w\<lparr>tick := tick w - 1\<rparr>) of (r, v) \<Rightarrow> pc' = TDone r \<and> same_rows w' v"
proof -
  let ?w0 = "w\<lparr>tick := tick w - 1\<rparr>"
  have tick: "?w0\<lparr>tick := Suc (tick ?w0)\<rparr> = w"
    using assms(3) by (simp add: checked_ok_def)
  have granted: "granted c t"
    using assms(3) by (simp add: checked_ok_def)
  have inv: "db_inv ?w0"
    using assms(2) by simp
  from assms(3) show ?thesis
  proof (cases rule: gone_or_same)
    case Gone
    have "TaskService_Get (taskService E) uid (t_ID t) ?w0 = (Inl ErrNotFound, w)" for uid
      using Get_missing [OF assms(1), of "t_ID t" ?w0 uid] Gone tick by simp
    then show ?thesis
      using assms(4) granted Gone Update_gone [OF assms(1)] Delete_gone [OF assms(1) Gone]
      by (cases c) (auto simp: TaskService_Update_def TaskService_Delete_def same_rows_def split: prod.splits)
  next
    case (Same row)
    have "TaskService_Get (taskService E) (caller c) (t_ID t) ?w0 = (Inr row, w)"
      using Get_answered [OF assms(1) inv, of row "caller c"] Same granted tick
      by (cases c) (auto simp: task_key_def)
    then show ?thesis
      using assms(4) granted same_write [OF assms(1) Same]
      by (cases c) (auto simp: TaskService_Update_def TaskService_Delete_def split: prod.splits)
  qed
qed


text \<open>C13: updates and deletions are atomic although they are not.  When the database answers, what a call
  writes and returns after its check is exactly what the whole operation of the service would write
  and return if it ran, undisturbed, at the moment of the write: if the task was deleted in between the call
  answers \<open>ErrNotFound\<close> and does not bring the row back, and if it was updated the later write wins whole.\<close>

theorem task_calls_linearizable:
  assumes "no_faults E" and "db_inv w" and "\<forall>k. snd (th k) = TStart"
    and "(task_race_step E (taskService E))\<^sup>*\<^sup>* (w, th) (w1, th1)" and "th1 k = (c, TChecked t)"
    and "task_call_step E (taskService E) c (TChecked t, w1) = (pc', w2)"
  shows "case perform E (taskService E) c (w1\<lparr>tick := tick w1 - 1\<rparr>) of (r, v) \<Rightarrow> pc' = TDone r \<and> same_rows w2 v"
proof -
  have "task_race_inv (w1, th1)"
    using task_race_inv_steps [OF assms(4) task_race_inv_start [OF assms(2,3)]] .
  then have "db_inv w1" and "checked_ok c t w1"
    using assms(5) by (auto simp: task_race_inv_def)
  then show ?thesis
    by (rule write_is_operation [OF assms(1) _ _ assms(6)])
qed

subsubsection \<open>A deletion between check and write\<close>

definition example_calls :: "nat \<Rightarrow> task_call" where
  "example_calls k = (if k = 0 then UpdateTask 1 1 ''new'' ''text'' ''done'' None else DeleteTask 1 1)"

lemma example_world_tick: "(example_world toks)\<lparr>tick := 0\<rparr> = example_world toks"
  by (simp add: example_world_def)

text \<open>Both calls check the first task, then the deletion writes.\<close>

lemma example_task_race:
  "(task_race_step example_env (taskService example_env))\<^sup>*\<^sup>* (example_world [], \<lambda>k. (example_calls k, TStart))
     ((example_world [])\<lparr>tick := 3, tasks := [example_task 2 2]\<rparr>,
      (\<lambda>k. (example_calls k, TStart))(0 := (example_calls 0, TChecked (example_task 1 1)), 1 := (DeleteTask 1 1, TDone (Inr None))))"
proof -
  let ?w = "example_world []" and ?t = "example_task 1 1" and ?s = "taskService example_env"
  let ?th = "\<lambda>x y. (\<lambda>k. (example_calls k, TStart))(0 := (example_calls 0, x), 1 := (DeleteTask 1 1, y))"
  have start: "?th TStart TStart = (\<lambda>k. (example_calls k, TStart))"
    by (auto simp: example_calls_def)
  have th: "(?th x y)(0 := (example_calls 0, x')) = ?th x' y" "(?th x y)(1 := (DeleteTask 1 1, y')) = ?th x y'" for x y x' y'
    by (auto simp: fun_eq_iff)
  have get: "TaskService_Get ?s 1 1 (?w\<lparr>tick := n\<rparr>) = (Inr ?t, ?w\<lparr>tick := Suc n\<rparr>)" for n
    using Get_answered [OF example_no_faults(1), of "?w\<lparr>tick := n\<rparr>" ?t 1] by (simp add: example_world_inv)
  have "task_race_step example_env ?s (?w, ?th TStart TStart) (?w\<lparr>tick := 1\<rparr>, (?th TStart TStart)(0 := (example_calls 0, TChecked ?t)))"
    using get [of 0] example_world_tick by (intro task_race_step.thread [where pc = TStart])
      (simp_all add: example_calls_def TaskStatus_Valid_def TaskStatusDone_def)
  moreover have "task_race_step example_env ?s (?w\<lparr>tick := 1\<rparr>, ?th (TChecked ?t) TStart)
      (?w\<lparr>tick := 2\<rparr>, (?th (TChecked ?t) TStart)(1 := (DeleteTask 1 1, TChecked ?t)))"
    using get [of 1] by (intro task_race_step.thread [where pc = TStart]) (simp_all add: eval_nat_numeral)
  moreover have "taskRepository_Delete example_env 1 (?w\<lparr>tick := 2\<rparr>) = (Inr (), ?w\<lparr>tick := 3, tasks := [example_task 2 2]\<rparr>)"
    by (simp add: repo_defs db_call_answered sql_defs affected_def)
  then have "task_race_step example_env ?s (?w\<lparr>tick := 2\<rparr>, ?th (TChecked ?t) (TChecked ?t))
      (?w\<lparr>tick := 3, tasks := [example_task 2 2]\<rparr>, (?th (TChecked ?t) (TChecked ?t))(1 := (DeleteTask 1 1, TDone (Inr None))))"
    by (intro task_race_step.thread [where pc = "TChecked ?t"]) simp_all
  ultimately have "(task_race_step example_env ?s)\<^sup>*\<^sup>* (?w, ?th TStart TStart)
      (?w\<lparr>tick := 3, tasks := [example_task 2 2]\<rparr>, ?th (TChecked ?t) (TDone (Inr None)))"
    unfolding th by (meson converse_rtranclp_into_rtranclp rtranclp.rtrancl_refl)
  then show ?thesis
    unfolding start .
qed

theorem task_check_holds_witness:
  "others_kept 1 ((example_world [])\<lparr>tick := 3, tasks := [example_task 2 2]\<rparr>)
     (snd (task_call_step example_env (taskService example_env) (example_calls 0) (TChecked (example_task 1 1),
        (example_world [])\<lparr>tick := 3, tasks := [example_task 2 2]\<rparr>)))"
  using task_check_holds [OF example_world_inv(1) _ example_task_race, of 0] by (simp add: example_calls_def split: prod.splits)

theorem task_calls_linearizable_witness:
  "fst (task_call_step example_env (taskService example_env) (example_calls 0) (TChecked (example_task 1 1),
     (example_world [])\<lparr>tick := 3, tasks := [example_task 2 2]\<rparr>)) = TDone (Inl ErrNotFound)"
proof -
  let ?w = "(example_world [])\<lparr>tick := 3, tasks := [example_task 2 2]\<rparr>"
  have "fst (perform example_env (taskService example_env) (example_calls 0) (?w\<lparr>tick := tick ?w - 1\<rparr>)) = Inl ErrNotFound"
    by (simp add: example_calls_def TaskService_Update_def Get_missing)
  then show ?thesis
    using task_calls_linearizable [OF example_no_faults(1) example_world_inv(1) _ example_task_race, of 0 "example_calls 0" "example_task 1 1"]
    by (cases "task_call_step example_env (taskService example_env) (example_calls 0) (TChecked (example_task 1 1), ?w)") 
      (auto split: prod.splits)
qed

end
