(* ===== verification/Http.thy ===== *)
theory Http
  imports System "HOL-Library.AList" "HOL-Library.Signed_Division"
begin

text \<open>
  What the HTTP layer is made of: requests with their context, response writers with the
  recorders wrapped around them, the state of a server process, handlers, and the packages
  \<open>internal/httpapi/response\<close> and \<open>internal/httpapi/reqctx\<close>.

  A handler takes a request, a writer and the server state and returns them, with the way it
  ended: a Go handler is passed pointers, so what it does to the request (the mux stores the
  matched pattern there) and to the writer is seen by its caller; \<open>r.WithContext\<close> makes a copy, and
  what happens to the copy is not seen.  A panic is a value that unwinds to the middleware that
  recovers it.
\<close>

subsection \<open>Headers\<close>

text \<open>\<open>textproto.CanonicalMIMEHeaderKey\<close>: upper case after a hyphen, lower case elsewhere.\<close>

definition ascii_upper :: "char \<Rightarrow> char" where
  "ascii_upper c = (if 97 \<le> ord c \<and> ord c \<le> (122::nat) then chr (ord c - 32) else c)"

fun canonical_from :: "bool \<Rightarrow> string \<Rightarrow> string" where
  "canonical_from up [] = []"
| "canonical_from up (c # cs) = (if up then ascii_upper c else ascii_lower c) # canonical_from (c = CHR ''-'') cs"

definition CanonicalHeaderKey :: "string \<Rightarrow> string" where
  "CanonicalHeaderKey = canonical_from True"

type_synonym Header = "(string \<times> string) list"

text \<open>\<open>Header.Get\<close>: the first value, or the empty string; \<open>Header.Set\<close> replaces all values.\<close>

definition Header_Get :: "Header \<Rightarrow> string \<Rightarrow> string" where
  "Header_Get h k = (case map_of h (CanonicalHeaderKey k) of None \<Rightarrow> '''' | Some v \<Rightarrow> v)"

definition Header_Set :: "string \<Rightarrow> string \<Rightarrow> Header \<Rightarrow> Header" where
  "Header_Set k v h = (CanonicalHeaderKey k, v) # filter (\<lambda>(k', _). k' \<noteq> CanonicalHeaderKey k) h"

subsection \<open>Requests\<close>

text \<open>
  The context values the program stores: request id and logger (package \<open>reqctx\<close>) and user id
  (middleware \<open>Auth\<close>).  A logger is the list of attributes it was tagged with; \<open>slog.Default()\<close> has
  none here.
\<close>

record Context =
  ctx_requestID :: "string option"
  ctx_logger :: "(string \<times> string) list option"
  ctx_userID :: "int64 option"

text \<open>
  \<open>rq_Path\<close> is the escaped path, \<open>rq_Query\<close> the parsed query, \<open>rq_Body\<close> the bytes the client sends and
  \<open>rq_BodyComplete\<close> whether they end with a clean end of file; \<open>rq_BodyLimit\<close> is the limit of a
  \<open>MaxBytesReader\<close> around the body.
\<close>

record Request =
  rq_Method :: string
  rq_Path :: string
  rq_Query :: "(string \<times> string) list"
  rq_Header :: Header
  rq_Body :: string
  rq_BodyComplete :: bool
  rq_BodyLimit :: "int64 option"
  rq_RemoteAddr :: string
  rq_Pattern :: string
  rq_PathValues :: "(string \<times> string) list"
  rq_Context :: Context

text \<open>Percent-decoding of a path; a text with a malformed escape is taken as it is.\<close>

definition hex_value :: "char \<Rightarrow> nat option" where
  "hex_value c =
     (if 48 \<le> ord c \<and> ord c \<le> (57::nat) then Some (ord c - 48)
      else if 97 \<le> ord c \<and> ord c \<le> (102::nat) then Some (ord c - 87)
      else if 65 \<le> ord c \<and> ord c \<le> (70::nat) then Some (ord c - 55)
      else None)"

fun unescape :: "string \<Rightarrow> string option" where
  "unescape [] = Some []"
| "unescape (c # cs) =
     (if c = CHR ''%'' then
        (case cs of
           a # b # rest \<Rightarrow>
             (case (hex_value a, hex_value b) of
                (Some x, Some y) \<Rightarrow> map_option (\<lambda>t. chr (16 * x + y) # t) (unescape rest)
              | _ \<Rightarrow> None)
         | _ \<Rightarrow> None)
      else map_option (\<lambda>t. c # t) (unescape cs))"

definition pathUnescape :: "string \<Rightarrow> string" where
  "pathUnescape s = (case unescape s of None \<Rightarrow> s | Some t \<Rightarrow> t)"

definition Query_Get :: "Request \<Rightarrow> string \<Rightarrow> string" where
  "Query_Get r k = (case map_of (rq_Query r) k of None \<Rightarrow> '''' | Some v \<Rightarrow> v)"

definition PathValue :: "Request \<Rightarrow> string \<Rightarrow> string" where
  "PathValue r k = (case map_of (rq_PathValues r) k of None \<Rightarrow> '''' | Some v \<Rightarrow> v)"

subsection \<open>Package reqctx\<close>

definition WithRequestID :: "string \<Rightarrow> Context \<Rightarrow> Context" where
  "WithRequestID i ctx = ctx\<lparr>ctx_requestID := Some i\<rparr>"

definition RequestID_of :: "Context \<Rightarrow> string" where
  "RequestID_of ctx = (case ctx_requestID ctx of None \<Rightarrow> '''' | Some i \<Rightarrow> i)"

definition WithLogger :: "(string \<times> string) list \<Rightarrow> Context \<Rightarrow> Context" where
  "WithLogger logger ctx = ctx\<lparr>ctx_logger := Some logger\<rparr>"

definition Logger_of :: "Context \<Rightarrow> (string \<times> string) list" where
  "Logger_of ctx = (case ctx_logger ctx of None \<Rightarrow> [] | Some logger \<Rightarrow> logger)"

subsection \<open>Response bodies\<close>

record errorBody =
  eb_Error :: string
  eb_Code :: string
  eb_RequestID :: string

record UserResponse =
  ures_ID :: int64
  ures_Email :: string

record AuthResponse =
  ares_Token :: string
  ares_RefreshToken :: string
  ares_User :: UserResponse

record TokenResponse =
  tkres_Token :: string
  tkres_RefreshToken :: string

record TaskResponse =
  tres_ID :: int64
  tres_Title :: string
  tres_Description :: string
  tres_Status :: string
  tres_DueDate :: "time option"
  tres_CreatedAt :: time
  tres_UpdatedAt :: time

record TaskListResponse =
  lres_Data :: "TaskResponse list"
  lres_Total :: int
  lres_Limit :: int
  lres_Offset :: int

datatype payload =
    P_Error errorBody
  | P_Auth AuthResponse
  | P_Token TokenResponse
  | P_Task TaskResponse
  | P_TaskList TaskListResponse
  | P_Map "(string \<times> string) list"
  | P_Text string

subsection \<open>The server process\<close>

text \<open>A line of the log: the attributes of the call, and those the logger was tagged with.\<close>

record log_line =
  log_level :: string
  log_msg :: string
  log_attrs :: "(string \<times> string) list"
  log_tags :: "(string \<times> string) list"

text \<open>A client of the in-memory limiter: the moments at which its limiter was asked, newest first.\<close>

record visitor =
  vs_history :: "time list"
  vs_lastSeen :: time

text \<open>
  The state of one process and of the stores it shares with others: the database, the visitors of
  the in-memory limiter, the counters in Redis with their expiry, the log, the increments of
  \<open>http_requests_total\<close> by label, the observations of \<open>http_request_duration_seconds\<close> by label, and the
  draining flag (\<open>None\<close> for a nil pointer).
\<close>

record server =
  sv_world :: world
  sv_visitors :: "(string \<times> visitor) list"
  sv_redis :: "(string \<times> int \<times> time) list"
  sv_log :: "log_line list"
  sv_requests :: "(string \<times> string \<times> string) list"
  sv_durations :: "(string \<times> string \<times> duration) list"
  sv_draining :: "bool option"

text \<open>Run an operation on the store.\<close>

definition with_world :: "(world \<Rightarrow> 'a \<times> world) \<Rightarrow> server \<Rightarrow> 'a \<times> server" where
  "with_world f sv = (case f (sv_world sv) of (r, w) \<Rightarrow> (r, sv\<lparr>sv_world := w\<rparr>))"

definition log_at :: "string \<Rightarrow> Context \<Rightarrow> string \<Rightarrow> (string \<times> string) list \<Rightarrow> server \<Rightarrow> server" where
  "log_at level ctx msg attrs sv =
     sv\<lparr>sv_log := sv_log sv @ [\<lparr>log_level = level, log_msg = msg, log_attrs = attrs, log_tags = Logger_of ctx\<rparr>]\<rparr>"

abbreviation log_Error :: "Context \<Rightarrow> string \<Rightarrow> (string \<times> string) list \<Rightarrow> server \<Rightarrow> server" where
  "log_Error \<equiv> log_at ''ERROR''"

subsection \<open>Response writers\<close>

text \<open>
  \<open>statusRecorder\<close> of \<open>middleware/logging.go\<close>: what it has noted of the calls that went through it.
  A writer is the underlying writer of \<open>net/http\<close> with the recorders around it, outermost last.
  The underlying writer sends its header once: a second \<open>WriteHeader\<close> is ignored by it, but not by
  the recorders, which note every call.
\<close>

record statusRecorder =
  sr_status :: int
  sr_bytes :: int

record ResponseWriter =
  rw_Header :: Header
  rw_sent :: "(int \<times> Header) option"
  rw_body :: "payload list"
  rw_recorders :: "statusRecorder list"

definition new_writer :: ResponseWriter where
  "new_writer = \<lparr>rw_Header = [], rw_sent = None, rw_body = [], rw_recorders = []\<rparr>"

definition set_header :: "string \<Rightarrow> string \<Rightarrow> ResponseWriter \<Rightarrow> ResponseWriter" where
  "set_header k v w = w\<lparr>rw_Header := Header_Set k v (rw_Header w)\<rparr>"

definition send_header :: "int \<Rightarrow> ResponseWriter \<Rightarrow> ResponseWriter" where
  "send_header status w =
     (case rw_sent w of None \<Rightarrow> w\<lparr>rw_sent := Some (status, rw_Header w)\<rparr> | Some _ \<Rightarrow> w)"

definition WriteHeader :: "int \<Rightarrow> ResponseWriter \<Rightarrow> ResponseWriter" where
  "WriteHeader status w =
     send_header status (w\<lparr>rw_recorders := map (\<lambda>rec. rec\<lparr>sr_status := status\<rparr>) (rw_recorders w)\<rparr>)"

text \<open>
  \<open>Write\<close> sends status 200 first when no status was sent; a status that allows no body makes it
  return an error with nothing written.
\<close>

definition body_allowed :: "ResponseWriter \<Rightarrow> bool" where
  "body_allowed w \<longleftrightarrow> (case rw_sent w of None \<Rightarrow> True | Some (status, _) \<Rightarrow> status \<noteq> 204 \<and> status \<noteq> 304)"

definition Write :: "(payload \<Rightarrow> string) \<Rightarrow> payload \<Rightarrow> ResponseWriter \<Rightarrow> ResponseWriter" where
  "Write encode p w =
     (let w1 = send_header 200 w
      in if body_allowed w1
         then w1\<lparr>rw_body := rw_body w1 @ [p],
                 rw_recorders := map (\<lambda>rec. rec\<lparr>sr_bytes := sr_bytes rec + int (length (encode p))\<rparr>) (rw_recorders w1)\<rparr>
         else w1)"

definition push_recorder :: "ResponseWriter \<Rightarrow> ResponseWriter" where
  "push_recorder w = w\<lparr>rw_recorders := \<lparr>sr_status = 200, sr_bytes = 0\<rparr> # rw_recorders w\<rparr>"

definition pop_recorder :: "ResponseWriter \<Rightarrow> statusRecorder \<times> ResponseWriter" where
  "pop_recorder w =
     (case rw_recorders w of
        [] \<Rightarrow> (\<lparr>sr_status = 200, sr_bytes = 0\<rparr>, w)
      | rec # rest \<Rightarrow> (rec, w\<lparr>rw_recorders := rest\<rparr>))"

subsection \<open>Handlers\<close>

datatype outcome = Returned | Panicked string

type_synonym handler = "Request \<times> ResponseWriter \<times> server \<Rightarrow> outcome \<times> Request \<times> ResponseWriter \<times> server"
type_synonym middleware = "handler \<Rightarrow> handler"

text \<open>What the source reads as JSON: raw and decoded text of a string are kept apart.\<close>

datatype json =
    JNull
  | JBool bool
  | JNum string
  | JStr (js_raw: string) (js_value: string)
  | JArr "json list"
  | JObj "(string \<times> json) list"

datatype deadline = InTime | DeadlineExceeded | Cancelled

text \<open>
  The environment of the HTTP layer.  \<open>he_ReadJSON eof text\<close> is the first JSON value of the text
  (\<open>None\<close> for a syntax error or an unfinished value; \<open>eof\<close> tells whether the text ends there or the
  reader fails after it), \<open>he_ParseTime\<close> the reading of an RFC 3339 time, \<open>he_Encode\<close> the text of a
  response body, \<open>he_deadline\<close> whether a handler under a deadline finished, \<open>he_Allow\<close> the token
  bucket of \<open>golang.org/x/time/rate\<close> as a function of its rate, its burst and the moments it was
  asked before, \<open>he_redis\<close> and \<open>he_redis_now\<close> the answers and the clock of Redis, \<open>he_traceID\<close> the
  trace of the span around a request, \<open>he_promhttp\<close> and \<open>he_otelhttp\<close> the handlers of the Prometheus
  and OpenTelemetry libraries, \<open>he_redirect\<close> the status \<open>ServeMux\<close> redirects with, which depends on
  the Go release.
\<close>

record henv =
  he_env :: env
  he_ReadJSON :: "bool \<Rightarrow> string \<Rightarrow> json option"
  he_ParseTime :: "string \<Rightarrow> time option"
  he_Encode :: "payload \<Rightarrow> string"
  he_deadline :: "nat \<Rightarrow> duration \<Rightarrow> deadline"
  he_Allow :: "float64 \<Rightarrow> int \<Rightarrow> time list \<Rightarrow> time \<Rightarrow> bool"
  he_redis :: "nat \<Rightarrow> answer"
  he_redis_now :: "nat \<Rightarrow> time"
  he_traceID :: "nat \<Rightarrow> string option"
  he_promhttp :: handler
  he_otelhttp :: "handler \<Rightarrow> handler"
  he_redirect :: int

subsection \<open>Package response\<close>

definition CodeBadRequest :: string where "CodeBadRequest = ''BAD_REQUEST''"
definition CodeValidation :: string where "CodeValidation = ''VALIDATION_ERROR''"
definition CodeUnauthorized :: string where "CodeUnauthorized = ''UNAUTHORIZED''"
definition CodeForbidden :: string where "CodeForbidden = ''FORBIDDEN''"
definition CodeNotFound :: string where "CodeNotFound = ''NOT_FOUND''"
definition CodeAlreadyExists :: string where "CodeAlreadyExists = ''ALREADY_EXISTS''"
definition CodeRateLimited :: string where "CodeRateLimited = ''RATE_LIMITED''"
definition CodeTimeout :: string where "CodeTimeout = ''TIMEOUT''"
definition CodeInternal :: string where "CodeInternal = ''INTERNAL_ERROR''"

text \<open>\<open>response.JSON\<close>; a nil payload is \<open>None\<close>.  The encoder does not fail on the types used here.\<close>

definition response_JSON :: "henv \<Rightarrow> int \<Rightarrow> payload option \<Rightarrow> ResponseWriter \<Rightarrow> ResponseWriter" where
  "response_JSON HE status p w =
     (let w1 = WriteHeader status (set_header ''Content-Type'' ''application/json'' w)
      in case p of None \<Rightarrow> w1 | Some body \<Rightarrow> Write (he_Encode HE) body w1)"

definition response_Error :: "henv \<Rightarrow> Request \<Rightarrow> int \<Rightarrow> string \<Rightarrow> string \<Rightarrow> ResponseWriter \<Rightarrow> ResponseWriter" where
  "response_Error HE r status code message w =
     response_JSON HE status
       (Some (P_Error \<lparr>eb_Error = message, eb_Code = code, eb_RequestID = RequestID_of (rq_Context r)\<rparr>)) w"

subsection \<open>Facts about writers\<close>

text \<open>The status a client sees; 200 when the handler wrote nothing.\<close>

definition status_of :: "ResponseWriter \<Rightarrow> int" where
  "status_of w = (case rw_sent w of None \<Rightarrow> 200 | Some (status, _) \<Rightarrow> status)"

lemma set_header_sel [simp]:
  "rw_sent (set_header k v w) = rw_sent w" "rw_body (set_header k v w) = rw_body w"
  "rw_recorders (set_header k v w) = rw_recorders w"
  "rw_Header (set_header k v w) = Header_Set k v (rw_Header w)"
  by (simp_all add: set_header_def)

lemma send_header_sel [simp]:
  "rw_Header (send_header s w) = rw_Header w" "rw_body (send_header s w) = rw_body w"
  "rw_recorders (send_header s w) = rw_recorders w"
  "rw_sent (send_header s w) = Some (case rw_sent w of None \<Rightarrow> (s, rw_Header w) | Some x \<Rightarrow> x)"
  by (simp_all add: send_header_def split: option.splits)

lemma WriteHeader_sel [simp]:
  "rw_Header (WriteHeader s w) = rw_Header w" "rw_body (WriteHeader s w) = rw_body w"
  "rw_recorders (WriteHeader s w) = map (\<lambda>rec. rec\<lparr>sr_status := s\<rparr>) (rw_recorders w)"
  "rw_sent (WriteHeader s w) = Some (case rw_sent w of None \<Rightarrow> (s, rw_Header w) | Some x \<Rightarrow> x)"
  by (simp_all add: WriteHeader_def split: option.splits)

lemma Write_sel [simp]:
  "rw_Header (Write f p w) = rw_Header w"
  "rw_sent (Write f p w) = Some (case rw_sent w of None \<Rightarrow> (200, rw_Header w) | Some x \<Rightarrow> x)"
  "length (rw_recorders (Write f p w)) = length (rw_recorders w)"
  "map sr_status (rw_recorders (Write f p w)) = map sr_status (rw_recorders w)"
  by (simp_all add: Write_def Let_def)

lemma Write_body:
  "rw_body (Write f p w) = (if body_allowed (send_header 200 w) then rw_body w @ [p] else rw_body w)"
  by (simp add: Write_def Let_def)

lemma response_JSON_sel [simp]:
  "rw_Header (response_JSON HE s p w) = Header_Set ''Content-Type'' ''application/json'' (rw_Header w)"
  "rw_sent (response_JSON HE s p w) =
     Some (case rw_sent w of None \<Rightarrow> (s, Header_Set ''Content-Type'' ''application/json'' (rw_Header w)) | Some x \<Rightarrow> x)"
  "length (rw_recorders (response_JSON HE s p w)) = length (rw_recorders w)"
  "map sr_status (rw_recorders (response_JSON HE s p w)) = map (\<lambda>_. s) (rw_recorders w)"
  by (auto simp: response_JSON_def Let_def o_def split: option.splits)

lemma Header_Get_Set:
  "Header_Get (Header_Set k v h) k' = (if CanonicalHeaderKey k' = CanonicalHeaderKey k then v else Header_Get h k')"
proof (cases "CanonicalHeaderKey k' = CanonicalHeaderKey k")
  case False
  then have "map_of (filter (\<lambda>(x, _). x \<noteq> CanonicalHeaderKey k) h) (CanonicalHeaderKey k') =
      map_of h (CanonicalHeaderKey k')"
    by (induction h) auto
  then show ?thesis
    using False by (simp add: Header_Get_def Header_Set_def)
qed (simp add: Header_Get_def Header_Set_def)

end
