(* ===== verification/Dto.thy ===== *)
theory Dto
  imports Http
begin

text \<open>
  Package \<open>internal/httpapi/dto\<close>: the request bodies with their validation, the response bodies made
  from domain values, and the reading of a request body into a struct
  (\<open>json.NewDecoder(r.Body).Decode(&req)\<close>).
\<close>

subsection \<open>Reading a body into a struct\<close>

text \<open>
  The first JSON value of the body, read through the limit of a \<open>MaxBytesReader\<close>: the decoder sees
  the bytes up to the limit and then an error, and it succeeds when the value ends before.
\<close>

definition read_json :: "henv \<Rightarrow> Request \<Rightarrow> json option" where
  "read_json HE r =
     (case rq_BodyLimit r of
        None \<Rightarrow> he_ReadJSON HE (rq_BodyComplete r) (rq_Body r)
      | Some limit \<Rightarrow>
          if int (length (rq_Body r)) \<le> limit then he_ReadJSON HE (rq_BodyComplete r) (rq_Body r)
          else he_ReadJSON HE False (take (nat limit) (rq_Body r)))"

text \<open>
  Field names match exactly or up to case.  Of the characters outside ASCII only the long s and the
  Kelvin sign fold to ASCII letters.
\<close>

fun json_fold :: "string \<Rightarrow> string" where
  "json_fold (a # b # c # rest) =
     (if a = CHR 0xE2 \<and> b = CHR 0x84 \<and> c = CHR 0xAA then CHR ''K'' # json_fold rest
      else if a = CHR 0xC5 \<and> b = CHR 0xBF then CHR ''S'' # json_fold (c # rest)
      else ascii_upper a # json_fold (b # c # rest))"
| "json_fold [a, b] =
     (if a = CHR 0xC5 \<and> b = CHR 0xBF then ''S'' else [ascii_upper a, ascii_upper b])"
| "json_fold [a] = [ascii_upper a]"
| "json_fold [] = []"

text \<open>
  The fields of a struct as the decoder fills them: \<open>fs\<close> maps a JSON name to a setter, which
  fails on a value of the wrong type.  Fields are set in the order of the object, unknown names are
  skipped, and one failure makes the whole call fail (the decoder goes on, but returns the error).
\<close>

type_synonym 'a setter = "json \<Rightarrow> 'a \<Rightarrow> 'a option"

definition find_field :: "(string \<times> 'a setter) list \<Rightarrow> string \<Rightarrow> 'a setter option" where
  "find_field fs key =
     (case map_of fs key of
        Some f \<Rightarrow> Some f
      | None \<Rightarrow> map_option snd (find (\<lambda>(name, _). json_fold name = json_fold key) fs))"

fun set_fields :: "(string \<times> 'a setter) list \<Rightarrow> (string \<times> json) list \<Rightarrow> 'a \<Rightarrow> 'a option" where
  "set_fields fs [] x = Some x"
| "set_fields fs ((key, v) # kvs) x =
     (case find_field fs key of
        None \<Rightarrow> set_fields fs kvs x
      | Some f \<Rightarrow> (case f v x of None \<Rightarrow> None | Some y \<Rightarrow> set_fields fs kvs y))"

fun decode_struct :: "(string \<times> 'a setter) list \<Rightarrow> json \<Rightarrow> 'a \<Rightarrow> 'a option" where
  "decode_struct fs (JObj kvs) x = set_fields fs kvs x"
| "decode_struct fs JNull x = Some x"
| "decode_struct fs _ x = None"

definition json_Decode :: "henv \<Rightarrow> (string \<times> 'a setter) list \<Rightarrow> Request \<Rightarrow> 'a \<Rightarrow> 'a option" where
  "json_Decode HE fs r zero = Option.bind (read_json HE r) (\<lambda>v. decode_struct fs v zero)"

text \<open>Setters for a string and for a \<open>*time.Time\<close>; \<open>null\<close> leaves a string as it is.\<close>

fun string_field :: "((string \<Rightarrow> string) \<Rightarrow> 'a \<Rightarrow> 'a) \<Rightarrow> 'a setter" where
  "string_field upd (JStr raw s) x = Some (upd (\<lambda>_. s) x)"
| "string_field upd JNull x = Some x"
| "string_field upd _ x = None"

fun time_field :: "henv \<Rightarrow> ((time option \<Rightarrow> time option) \<Rightarrow> 'a \<Rightarrow> 'a) \<Rightarrow> 'a setter" where
  "time_field HE upd (JStr raw s) x = map_option (\<lambda>t. upd (\<lambda>_. Some t) x) (he_ParseTime HE raw)"
| "time_field HE upd JNull x = Some (upd (\<lambda>_. None) x)"
| "time_field HE upd _ x = None"

subsection \<open>Requests\<close>

definition validation_error :: "string \<Rightarrow> error" where
  "validation_error msg = Wrap '''' ErrValidation ('': '' @ msg)"

record SignupRequest =
  sq_Email :: string
  sq_Password :: string

definition SignupRequest_fields :: "(string \<times> SignupRequest setter) list" where
  "SignupRequest_fields = [(''email'', string_field sq_Email_update), (''password'', string_field sq_Password_update)]"

definition SignupRequest_Validate :: "SignupRequest \<Rightarrow> error option" where
  "SignupRequest_Validate r =
     (if \<not> strings_Contains (sq_Email r) ''@'' then Some (validation_error ''email must be valid'')
      else if length (sq_Password r) < 8 then Some (validation_error ''password must be at least 8 characters'')
      else None)"

record LoginRequest =
  lq_Email :: string
  lq_Password :: string

definition LoginRequest_fields :: "(string \<times> LoginRequest setter) list" where
  "LoginRequest_fields = [(''email'', string_field lq_Email_update), (''password'', string_field lq_Password_update)]"

definition LoginRequest_Validate :: "LoginRequest \<Rightarrow> error option" where
  "LoginRequest_Validate r =
     (if lq_Email r = '''' \<or> lq_Password r = ''''
      then Some (validation_error ''email and password are required'') else None)"

record RefreshRequest =
  rfq_RefreshToken :: string

definition RefreshRequest_fields :: "(string \<times> RefreshRequest setter) list" where
  "RefreshRequest_fields = [(''refresh_token'', string_field rfq_RefreshToken_update)]"

definition RefreshRequest_Validate :: "RefreshRequest \<Rightarrow> error option" where
  "RefreshRequest_Validate r =
     (if rfq_RefreshToken r = '''' then Some (validation_error ''refresh_token is required'') else None)"

record LogoutRequest =
  loq_RefreshToken :: string

definition LogoutRequest_fields :: "(string \<times> LogoutRequest setter) list" where
  "LogoutRequest_fields = [(''refresh_token'', string_field loq_RefreshToken_update)]"

definition LogoutRequest_Validate :: "LogoutRequest \<Rightarrow> error option" where
  "LogoutRequest_Validate r =
     (if loq_RefreshToken r = '''' then Some (validation_error ''refresh_token is required'') else None)"

record TaskRequest =
  tq_Title :: string
  tq_Description :: string
  tq_Status :: string
  tq_DueDate :: "time option"

definition TaskRequest_fields :: "henv \<Rightarrow> (string \<times> TaskRequest setter) list" where
  "TaskRequest_fields HE =
     [(''title'', string_field tq_Title_update), (''description'', string_field tq_Description_update),
      (''status'', string_field tq_Status_update), (''due_date'', time_field HE tq_DueDate_update)]"

definition TaskRequest_Validate :: "TaskRequest \<Rightarrow> error option" where
  "TaskRequest_Validate r =
     (if tq_Title r = '''' then Some (validation_error ''title is required'')
      else if tq_Status r \<noteq> '''' \<and> \<not> TaskStatus_Valid (tq_Status r)
      then Some (validation_error ''status must be one of pending, in_progress, done'')
      else None)"

subsection \<open>Responses\<close>

definition NewUserResponse :: "User \<Rightarrow> UserResponse" where
  "NewUserResponse u = \<lparr>ures_ID = u_ID u, ures_Email = u_Email u\<rparr>"

definition NewTaskResponse :: "Task \<Rightarrow> TaskResponse" where
  "NewTaskResponse t =
     \<lparr>tres_ID = t_ID t, tres_Title = t_Title t, tres_Description = t_Description t, tres_Status = t_Status t,
      tres_DueDate = t_DueDate t, tres_CreatedAt = t_CreatedAt t, tres_UpdatedAt = t_UpdatedAt t\<rparr>"

definition NewTaskListResponse :: "Task list \<Rightarrow> int \<Rightarrow> int \<Rightarrow> int \<Rightarrow> TaskListResponse" where
  "NewTaskListResponse ts total_rows limit offset =
     \<lparr>lres_Data = map NewTaskResponse ts, lres_Total = total_rows, lres_Limit = limit, lres_Offset = offset\<rparr>"

subsection \<open>Facts\<close>

lemma SignupRequest_Validate_None:
  "SignupRequest_Validate r = None \<longleftrightarrow> CHR ''@'' \<in> set (sq_Email r) \<and> 8 \<le> length (sq_Password r)"
  by (simp add: SignupRequest_Validate_def strings_Contains_char)

lemma validation_error_Is [simp]: "errors_Is (validation_error msg) ErrValidation"
  by (simp add: validation_error_def)

text \<open>
  A request body that has every field once, with a value of the right type, is read back field by
  field, in whatever order the fields come and whatever their case.
\<close>

lemma SignupRequest_decode:
  "decode_struct SignupRequest_fields (JObj [(''email'', JStr a e), (''password'', JStr b p)]) x =
     Some \<lparr>sq_Email = e, sq_Password = p\<rparr>"
  "decode_struct SignupRequest_fields (JObj [(''PASSWORD'', JStr b p), (''Email'', JStr a e)]) x =
     Some \<lparr>sq_Email = e, sq_Password = p\<rparr>"
proof -
  have fold: "json_fold ''email'' = ''EMAIL''" "json_fold ''password'' = ''PASSWORD''"
    "json_fold ''Email'' = ''EMAIL''" "json_fold ''PASSWORD'' = ''PASSWORD''"
    by code_simp+
  have names: "find_field SignupRequest_fields ''email'' = Some (string_field sq_Email_update)"
    "find_field SignupRequest_fields ''password'' = Some (string_field sq_Password_update)"
    "find_field SignupRequest_fields ''Email'' = Some (string_field sq_Email_update)"
    "find_field SignupRequest_fields ''PASSWORD'' = Some (string_field sq_Password_update)"
    by (simp_all add: find_field_def SignupRequest_fields_def fold del: json_fold.simps)
  show "decode_struct SignupRequest_fields (JObj [(''email'', JStr a e), (''password'', JStr b p)]) x =
      Some \<lparr>sq_Email = e, sq_Password = p\<rparr>"
    "decode_struct SignupRequest_fields (JObj [(''PASSWORD'', JStr b p), (''Email'', JStr a e)]) x =
      Some \<lparr>sq_Email = e, sq_Password = p\<rparr>"
    by (simp_all add: names)
qed

end
