(* ===== verification/Handlers.thy ===== *)
theory Handlers
  imports Dto
begin

text \<open>
  Package \<open>internal/httpapi/handler\<close>: the mapping of errors to responses, the handlers of sign-up,
  login, refresh and logout, of the tasks, and of the probes.
\<close>

abbreviation err_Error :: "henv \<Rightarrow> error \<Rightarrow> string" where
  "err_Error HE \<equiv> Error_text (env_Quote (he_env HE))"

definition writeDomainError :: "henv \<Rightarrow> Request \<Rightarrow> error \<Rightarrow> ResponseWriter \<times> server \<Rightarrow> ResponseWriter \<times> server" where
  [http_defs]: "writeDomainError HE r err = (\<lambda>(w, sv).
     if errors_Is err ErrNotFound then (response_Error HE r 404 CodeNotFound (err_Error HE err) w, sv)
     else if errors_Is err ErrAlreadyExists then (response_Error HE r 409 CodeAlreadyExists (err_Error HE err) w, sv)
     else if errors_Is err ErrInvalidCredentials then (response_Error HE r 401 CodeUnauthorized (err_Error HE err) w, sv)
     else if errors_Is err ErrTokenInvalid then (response_Error HE r 401 CodeUnauthorized (err_Error HE err) w, sv)
     else if errors_Is err ErrForbidden then (response_Error HE r 403 CodeForbidden (err_Error HE err) w, sv)
     else if errors_Is err ErrValidation then (response_Error HE r 400 CodeValidation (err_Error HE err) w, sv)
     else (response_Error HE r 500 CodeInternal ''internal server error'' w,
           log_Error (rq_Context r) ''unhandled error'' [(''error'', err_Error HE err)] sv))"

text \<open>How a handler ends: the request is as it was, nothing panicked.\<close>

abbreviation finish :: "Request \<Rightarrow> ResponseWriter \<times> server \<Rightarrow> outcome \<times> Request \<times> ResponseWriter \<times> server" where
  "finish r ws \<equiv> (Returned, r, ws)"

subsection \<open>Authentication\<close>

record AuthHandler =
  ah_auth :: AuthService

definition NewAuthHandler :: "AuthService \<Rightarrow> AuthHandler" where
  "NewAuthHandler auth = \<lparr>ah_auth = auth\<rparr>"

definition AuthHandler_Signup :: "henv \<Rightarrow> AuthHandler \<Rightarrow> handler" where
  [http_defs]: "AuthHandler_Signup HE h = (\<lambda>(r, w, sv).
     case json_Decode HE SignupRequest_fields r \<lparr>sq_Email = '''', sq_Password = ''''\<rparr> of
       None \<Rightarrow> finish r (response_Error HE r 400 CodeBadRequest ''invalid request body'' w, sv)
     | Some req \<Rightarrow>
         (case SignupRequest_Validate req of
            Some err \<Rightarrow> finish r (response_Error HE r 400 CodeValidation (err_Error HE err) w, sv)
          | None \<Rightarrow>
              (case with_world (AuthService_Signup (he_env HE) (ah_auth h) (sq_Email req) (sq_Password req)) sv of
                 (Inl err, sv1) \<Rightarrow> finish r (writeDomainError HE r err (w, sv1))
               | (Inr (user, accessToken, refreshToken), sv1) \<Rightarrow>
                   finish r (response_JSON HE 201 (Some (P_Auth
                     \<lparr>ares_Token = accessToken, ares_RefreshToken = refreshToken,
                      ares_User = NewUserResponse user\<rparr>)) w, sv1))))"

definition AuthHandler_Login :: "henv \<Rightarrow> AuthHandler \<Rightarrow> handler" where
  [http_defs]: "AuthHandler_Login HE h = (\<lambda>(r, w, sv).
     case json_Decode HE LoginRequest_fields r \<lparr>lq_Email = '''', lq_Password = ''''\<rparr> of
       None \<Rightarrow> finish r (response_Error HE r 400 CodeBadRequest ''invalid request body'' w, sv)
     | Some req \<Rightarrow>
         (case LoginRequest_Validate req of
            Some err \<Rightarrow> finish r (response_Error HE r 400 CodeValidation (err_Error HE err) w, sv)
          | None \<Rightarrow>
              (case with_world (AuthService_Login (he_env HE) (ah_auth h) (lq_Email req) (lq_Password req)) sv of
                 (Inl err, sv1) \<Rightarrow> finish r (writeDomainError HE r err (w, sv1))
               | (Inr (user, accessToken, refreshToken), sv1) \<Rightarrow>
                   finish r (response_JSON HE 200 (Some (P_Auth
                     \<lparr>ares_Token = accessToken, ares_RefreshToken = refreshToken,
                      ares_User = NewUserResponse user\<rparr>)) w, sv1))))"

definition AuthHandler_Refresh :: "henv \<Rightarrow> AuthHandler \<Rightarrow> handler" where
  [http_defs]: "AuthHandler_Refresh HE h = (\<lambda>(r, w, sv).
     case json_Decode HE RefreshRequest_fields r \<lparr>rfq_RefreshToken = ''''\<rparr> of
       None \<Rightarrow> finish r (response_Error HE r 400 CodeBadRequest ''invalid request body'' w, sv)
     | Some req \<Rightarrow>
         (case RefreshRequest_Validate req of
            Some err \<Rightarrow> finish r (response_Error HE r 400 CodeValidation (err_Error HE err) w, sv)
          | None \<Rightarrow>
              (case with_world (AuthService_Refresh (he_env HE) (ah_auth h) (rfq_RefreshToken req)) sv of
                 (Inl err, sv1) \<Rightarrow> finish r (writeDomainError HE r err (w, sv1))
               | (Inr (accessToken, refreshToken), sv1) \<Rightarrow>
                   finish r (response_JSON HE 200 (Some (P_Token
                     \<lparr>tkres_Token = accessToken, tkres_RefreshToken = refreshToken\<rparr>)) w, sv1))))"

definition AuthHandler_Logout :: "henv \<Rightarrow> AuthHandler \<Rightarrow> handler" where
  [http_defs]: "AuthHandler_Logout HE h = (\<lambda>(r, w, sv).
     case json_Decode HE LogoutRequest_fields r \<lparr>loq_RefreshToken = ''''\<rparr> of
       None \<Rightarrow> finish r (response_Error HE r 400 CodeBadRequest ''invalid request body'' w, sv)
     | Some req \<Rightarrow>
         (case LogoutRequest_Validate req of
            Some err \<Rightarrow> finish r (response_Error HE r 400 CodeValidation (err_Error HE err) w, sv)
          | None \<Rightarrow>
              (case with_world (AuthService_Logout (he_env HE) (ah_auth h) (loq_RefreshToken req)) sv of
                 (Inl err, sv1) \<Rightarrow> finish r (writeDomainError HE r err (w, sv1))
               | (Inr _, sv1) \<Rightarrow> finish r (response_JSON HE 204 None w, sv1))))"

subsection \<open>Tasks\<close>

record TaskHandler =
  th_tasks :: TaskService

definition NewTaskHandler :: "TaskService \<Rightarrow> TaskHandler" where
  "NewTaskHandler ts = \<lparr>th_tasks = ts\<rparr>"

definition UserIDFromContext :: "Context \<Rightarrow> int64 option" where
  "UserIDFromContext ctx = ctx_userID ctx"

text \<open>\<open>currentUserID\<close>: the user, or the response that was written when there is none.\<close>

definition currentUserID :: "henv \<Rightarrow> Request \<Rightarrow> ResponseWriter \<Rightarrow> ResponseWriter + int64" where
  [http_defs]: "currentUserID HE r w =
     (case UserIDFromContext (rq_Context r) of
        None \<Rightarrow> Inl (response_Error HE r 500 CodeInternal ''internal server error'' w)
      | Some userID \<Rightarrow> Inr userID)"

definition parseTaskID :: "Request \<Rightarrow> int64 option" where
  "parseTaskID r = (case ParseInt (PathValue r ''id'') of (i, None) \<Rightarrow> Some i | (i, Some err) \<Rightarrow> None)"

abbreviation empty_TaskRequest :: TaskRequest where
  "empty_TaskRequest \<equiv> \<lparr>tq_Title = '''', tq_Description = '''', tq_Status = '''', tq_DueDate = None\<rparr>"

definition TaskHandler_Create :: "henv \<Rightarrow> TaskHandler \<Rightarrow> handler" where
  [http_defs]: "TaskHandler_Create HE h = (\<lambda>(r, w, sv).
     case currentUserID HE r w of
       Inl w1 \<Rightarrow> finish r (w1, sv)
     | Inr userID \<Rightarrow>
         (case json_Decode HE (TaskRequest_fields HE) r empty_TaskRequest of
            None \<Rightarrow> finish r (response_Error HE r 400 CodeBadRequest ''invalid request body'' w, sv)
          | Some req \<Rightarrow>
              (case TaskRequest_Validate req of
                 Some err \<Rightarrow> finish r (response_Error HE r 400 CodeValidation (err_Error HE err) w, sv)
               | None \<Rightarrow>
                   (case with_world (TaskService_Create (th_tasks h) userID (tq_Title req) (tq_Description req)
                           (tq_DueDate req)) sv of
                      (Inl err, sv1) \<Rightarrow> finish r (writeDomainError HE r err (w, sv1))
                    | (Inr task, sv1) \<Rightarrow> finish r (response_JSON HE 201 (Some (P_Task (NewTaskResponse task))) w, sv1)))))"

definition TaskHandler_List :: "henv \<Rightarrow> TaskHandler \<Rightarrow> handler" where
  [http_defs]: "TaskHandler_List HE h = (\<lambda>(r, w, sv).
     case currentUserID HE r w of
       Inl w1 \<Rightarrow> finish r (w1, sv)
     | Inr userID \<Rightarrow>
         (let status = Query_Get r ''status''
          in if status \<noteq> '''' \<and> \<not> TaskStatus_Valid status
             then finish r (response_Error HE r 400 CodeValidation ''invalid status filter'' w, sv)
             else let limit = fst (Atoi (Query_Get r ''limit'')); offset = fst (Atoi (Query_Get r ''offset''))
                  in case with_world (TaskService_List (th_tasks h) userID status limit offset) sv of
                       (Inl err, sv1) \<Rightarrow> finish r (writeDomainError HE r err (w, sv1))
                     | (Inr (page, total_rows, effLimit, effOffset), sv1) \<Rightarrow>
                         finish r (response_JSON HE 200
                           (Some (P_TaskList (NewTaskListResponse page total_rows effLimit effOffset))) w, sv1)))"

definition TaskHandler_Get :: "henv \<Rightarrow> TaskHandler \<Rightarrow> handler" where
  [http_defs]: "TaskHandler_Get HE h = (\<lambda>(r, w, sv).
     case currentUserID HE r w of
       Inl w1 \<Rightarrow> finish r (w1, sv)
     | Inr userID \<Rightarrow>
         (case parseTaskID r of
            None \<Rightarrow> finish r (response_Error HE r 400 CodeBadRequest ''invalid task id'' w, sv)
          | Some taskID \<Rightarrow>
              (case with_world (TaskService_Get (th_tasks h) userID taskID) sv of
                 (Inl err, sv1) \<Rightarrow> finish r (writeDomainError HE r err (w, sv1))
               | (Inr task, sv1) \<Rightarrow> finish r (response_JSON HE 200 (Some (P_Task (NewTaskResponse task))) w, sv1))))"

definition TaskHandler_Update :: "henv \<Rightarrow> TaskHandler \<Rightarrow> handler" where
  [http_defs]: "TaskHandler_Update HE h = (\<lambda>(r, w, sv).
     case currentUserID HE r w of
       Inl w1 \<Rightarrow> finish r (w1, sv)
     | Inr userID \<Rightarrow>
         (case parseTaskID r of
            None \<Rightarrow> finish r (response_Error HE r 400 CodeBadRequest ''invalid task id'' w, sv)
          | Some taskID \<Rightarrow>
              (case json_Decode HE (TaskRequest_fields HE) r empty_TaskRequest of
                 None \<Rightarrow> finish r (response_Error HE r 400 CodeBadRequest ''invalid request body'' w, sv)
               | Some req \<Rightarrow>
                   (case TaskRequest_Validate req of
                      Some err \<Rightarrow> finish r (response_Error HE r 400 CodeValidation (err_Error HE err) w, sv)
                    | None \<Rightarrow>
                        (let status = (if tq_Status req = '''' then TaskStatusPending else tq_Status req)
                         in case with_world (TaskService_Update (he_env HE) (th_tasks h) userID taskID (tq_Title req)
                                   (tq_Description req) status (tq_DueDate req)) sv of
                              (Inl err, sv1) \<Rightarrow> finish r (writeDomainError HE r err (w, sv1))
                            | (Inr task, sv1) \<Rightarrow>
                                finish r (response_JSON HE 200 (Some (P_Task (NewTaskResponse task))) w, sv1))))))"

definition TaskHandler_Delete :: "henv \<Rightarrow> TaskHandler \<Rightarrow> handler" where
  [http_defs]: "TaskHandler_Delete HE h = (\<lambda>(r, w, sv).
     case currentUserID HE r w of
       Inl w1 \<Rightarrow> finish r (w1, sv)
     | Inr userID \<Rightarrow>
         (case parseTaskID r of
            None \<Rightarrow> finish r (response_Error HE r 400 CodeBadRequest ''invalid task id'' w, sv)
          | Some taskID \<Rightarrow>
              (case with_world (TaskService_Delete (th_tasks h) userID taskID) sv of
                 (Inl err, sv1) \<Rightarrow> finish r (writeDomainError HE r err (w, sv1))
               | (Inr _, sv1) \<Rightarrow> finish r (response_JSON HE 204 None w, sv1))))"

subsection \<open>Probes\<close>

definition Health :: "henv \<Rightarrow> string \<Rightarrow> handler" where
  [http_defs]: "Health HE version = (\<lambda>(r, w, sv).
     finish r (response_JSON HE 200 (Some (P_Map [(''status'', ''ok''), (''version'', version)])) w, sv))"

text \<open>A ping is a statement that reads nothing.\<close>

definition db_Ping :: "henv \<Rightarrow> unit op" where
  "db_Ping HE = db_call (he_env HE) (\<lambda>n w. (Inr (), w))"

definition Ready :: "henv \<Rightarrow> string \<Rightarrow> handler" where
  [http_defs]: "Ready HE version = (\<lambda>(r, w, sv).
     if sv_draining sv = Some True
     then finish r (response_JSON HE 503 (Some (P_Map [(''status'', ''draining''), (''version'', version)])) w, sv)
     else (case with_world (db_Ping HE) sv of
             (Inl err, sv1) \<Rightarrow>
               finish r (response_JSON HE 503 (Some (P_Map [(''status'', ''unavailable''),
                 (''error'', ''database unreachable''), (''version'', version)])) w, sv1)
           | (Inr _, sv1) \<Rightarrow>
               finish r (response_JSON HE 200 (Some (P_Map [(''status'', ''ready''), (''version'', version)])) w, sv1)))"

end
