(* ===== verification/RateLimit.thy ===== *)
theory RateLimit
  imports Handlers
begin

text \<open>
  The rate limiter: \<open>middleware/ratelimit_memory.go\<close>, \<open>middleware/ratelimit_redis.go\<close> and the choice
  between them in \<open>middleware/ratelimit.go\<close>.

  The token bucket of \<open>golang.org/x/time/rate\<close> is outside the repository.  Its answers are a function
  of its rate, its burst and the moments at which it was asked, so a visitor carries these moments.
  The Lua script that counts in Redis is part of the repository and is modelled on a store of
  counters with expiry times.
\<close>

datatype limiterBackend =
    inMemoryBackend (mb_rps: float64) (mb_burst: int)
  | redisBackend (rb_burst: int)

record RateLimiter =
  rl_backend :: limiterBackend

abbreviation sv_now :: "henv \<Rightarrow> server \<Rightarrow> time \<times> server" where
  "sv_now HE \<equiv> with_world (time_Now (he_env HE))"

subsection \<open>In memory\<close>

definition new_visitor :: visitor where
  "new_visitor = \<lparr>vs_history = [], vs_lastSeen = zero_time\<rparr>"

text \<open>The clock is read for \<open>lastSeen\<close> and again inside \<open>Allow\<close>.\<close>

definition inMemory_allow :: "henv \<Rightarrow> float64 \<Rightarrow> int \<Rightarrow> string \<Rightarrow> server \<Rightarrow> (error + bool) \<times> server" where
  [http_defs]: "inMemory_allow HE rps burst ip sv =
     (let v = (case map_of (sv_visitors sv) ip of None \<Rightarrow> new_visitor | Some v \<Rightarrow> v)
      in case sv_now HE sv of
           (seen, sv1) \<Rightarrow>
             (case sv_now HE sv1 of
                (now, sv2) \<Rightarrow>
                  (Inr (he_Allow HE rps burst (vs_history v) now),
                   sv2\<lparr>sv_visitors :=
                     AList.update ip \<lparr>vs_history = now # vs_history v, vs_lastSeen = seen\<rparr> (sv_visitors sv2)\<rparr>)))"

text \<open>One round of \<open>cleanupLoop\<close>; \<open>time.Since\<close> reads the clock for every visitor.\<close>

fun cleanup_loop :: "henv \<Rightarrow> (string \<times> visitor) list \<Rightarrow> server \<Rightarrow> server" where
  "cleanup_loop HE [] sv = sv"
| "cleanup_loop HE ((ip, v) # rest) sv =
     (case sv_now HE sv of
        (now, sv1) \<Rightarrow>
          cleanup_loop HE rest
            (if now - vs_lastSeen v > 180000000000 then sv1\<lparr>sv_visitors := AList.delete ip (sv_visitors sv1)\<rparr> else sv1))"

definition inMemory_cleanup :: "henv \<Rightarrow> server \<Rightarrow> server" where
  "inMemory_cleanup HE sv = cleanup_loop HE (sv_visitors sv) sv"

subsection \<open>Redis\<close>

definition windowMillis :: int where
  "windowMillis = 1000"

text \<open>
  The script \<open>incrAndExpire\<close>, run atomically at Redis' time \<open>now\<close> in nanoseconds: \<open>INCR\<close> on a key that is
  absent or expired starts at 1, and only that first increment sets the expiry.
\<close>

definition incrAndExpire :: "string \<Rightarrow> int \<Rightarrow> time \<Rightarrow> (string \<times> int \<times> time) list \<Rightarrow> int \<times> (string \<times> int \<times> time) list" where
  "incrAndExpire key window now store =
     (case map_of store key of
        Some (cnt, expiry) \<Rightarrow>
          if now < expiry then (cnt + 1, AList.update key (cnt + 1, expiry) store)
          else (1, AList.update key (1, now + window * 1000000) store)
      | None \<Rightarrow> (1, AList.update key (1, now + window * 1000000) store))"

definition run_script :: "henv \<Rightarrow> string \<Rightarrow> server \<Rightarrow> (error + int) \<times> server" where
  "run_script HE key sv =
     (let n = tick (sv_world sv);
          sv1 = sv\<lparr>sv_world := (sv_world sv)\<lparr>tick := Suc n\<rparr>\<rparr>;
          (cnt, store) = incrAndExpire key windowMillis (he_redis_now HE n) (sv_redis sv)
      in case he_redis HE n of
           Answered \<Rightarrow> (Inr cnt, sv1\<lparr>sv_redis := store\<rparr>)
         | NotApplied msg \<Rightarrow> (Inl (ErrDriver msg), sv1)
         | ReplyLost msg \<Rightarrow> (Inl (ErrDriver msg), sv1\<lparr>sv_redis := store\<rparr>))"

text \<open>The key holds the client and the second of the process' own clock.\<close>

definition redis_key :: "string \<Rightarrow> time \<Rightarrow> string" where
  "redis_key ip now = ''ratelimit:'' @ ip @ '':'' @ FormatInt (now div 1000000000)"

definition redis_allow :: "henv \<Rightarrow> int \<Rightarrow> string \<Rightarrow> server \<Rightarrow> (error + bool) \<times> server" where
  [http_defs]: "redis_allow HE burst ip sv =
     (case sv_now HE sv of
        (now, sv1) \<Rightarrow>
          (case run_script HE (redis_key ip now) sv1 of
             (Inl err, sv2) \<Rightarrow> (Inl (Wrap ''redis rate limit check: '' err ''''), sv2)
           | (Inr cnt, sv2) \<Rightarrow> (Inr (cnt \<le> burst), sv2)))"

definition backend_allow :: "henv \<Rightarrow> limiterBackend \<Rightarrow> string \<Rightarrow> server \<Rightarrow> (error + bool) \<times> server" where
  [http_defs]: "backend_allow HE b =
     (case b of
        inMemoryBackend rps burst \<Rightarrow> inMemory_allow HE rps burst
      | redisBackend burst \<Rightarrow> redis_allow HE burst)"

subsection \<open>The choice of the back end\<close>

text \<open>Lines of \<open>slog.Default()\<close>, which carries no attributes of a request.\<close>

definition slog :: "string \<Rightarrow> string \<Rightarrow> (string \<times> string) list \<Rightarrow> server \<Rightarrow> server" where
  "slog level = log_at level \<lparr>ctx_requestID = None, ctx_logger = None, ctx_userID = None\<rparr>"

fun answer_text :: "answer \<Rightarrow> string" where
  "answer_text Answered = ''''"
| "answer_text (NotApplied msg) = msg"
| "answer_text (ReplyLost msg) = msg"

definition newRedisBackend :: "int \<Rightarrow> limiterBackend" where
  "newRedisBackend burst = redisBackend burst"

text \<open>The map of visitors is part of the state of the server; a new back end starts with an empty one.\<close>

definition newInMemoryBackend :: "float64 \<Rightarrow> int \<Rightarrow> server \<Rightarrow> limiterBackend \<times> server" where
  "newInMemoryBackend rps burst sv = (inMemoryBackend rps burst, sv\<lparr>sv_visitors := []\<rparr>)"

text \<open>\<open>client\<close> tells whether a Redis client was configured; it is pinged once.\<close>

definition NewRateLimiter :: "henv \<Rightarrow> float64 \<Rightarrow> int \<Rightarrow> bool \<Rightarrow> server \<Rightarrow> RateLimiter \<times> server" where
  "NewRateLimiter HE rps burst client sv =
     (let n = tick (sv_world sv); sv1 = sv\<lparr>sv_world := (sv_world sv)\<lparr>tick := Suc n\<rparr>\<rparr>
      in if client \<and> he_redis HE n = Answered
         then (\<lparr>rl_backend = newRedisBackend burst\<rparr>, slog ''INFO'' ''rate limiting backed by redis'' [] sv1)
         else
           (let sv2 =
                  (if client
                   then slog ''WARN'' ''redis unreachable, falling back to in-memory rate limiting''
                          [(''error'', answer_text (he_redis HE n))] sv1
                   else sv);
                sv3 = slog ''INFO'' ''rate limiting backed by in-memory token bucket (single-instance only)'' [] sv2
            in case newInMemoryBackend rps burst sv3 of (b, sv4) \<Rightarrow> (\<lparr>rl_backend = b\<rparr>, sv4)))"

subsection \<open>The client's address\<close>

text \<open>
  \<open>net.SplitHostPort\<close>, of which the code uses the host; \<open>None\<close> is any of its errors.  \<open>last_colon\<close> is
  the index of the last colon.
\<close>

definition last_index :: "char \<Rightarrow> string \<Rightarrow> nat option" where
  "last_index c s = (let is = filter (\<lambda>i. s ! i = c) [0..<length s] in if is = [] then None else Some (last is))"

definition first_index :: "char \<Rightarrow> string \<Rightarrow> nat option" where
  "first_index c s = find (\<lambda>i. s ! i = c) [0..<length s]"

definition SplitHostPort :: "string \<Rightarrow> string option" where
  "SplitHostPort hp =
     (case last_index CHR '':'' hp of
        None \<Rightarrow> None
      | Some i \<Rightarrow>
          if hd hp = CHR ''['' then
            (case first_index CHR '']'' hp of
               None \<Rightarrow> None
             | Some e \<Rightarrow>
                 if e + 1 \<noteq> i then None
                 else if CHR ''['' \<in> set (drop 1 hp) \<or> CHR '']'' \<in> set (drop (e + 1) hp) then None
                 else Some (take (e - 1) (drop 1 hp)))
          else if CHR '':'' \<in> set (take i hp) then None
          else if CHR ''['' \<in> set hp \<or> CHR '']'' \<in> set hp then None
          else Some (take i hp))"

definition clientIP :: "Request \<Rightarrow> string" where
  [http_defs]: "clientIP r =
     (let fwd = Header_Get (rq_Header r) ''X-Forwarded-For''
      in if fwd \<noteq> '''' then fwd
         else (case SplitHostPort (rq_RemoteAddr r) of None \<Rightarrow> rq_RemoteAddr r | Some host \<Rightarrow> host))"

text \<open>\<open>RateLimiter.Middleware\<close>: an error of the back end lets the request pass.\<close>

definition RateLimiter_Middleware :: "henv \<Rightarrow> RateLimiter \<Rightarrow> middleware" where
  [http_defs]: "RateLimiter_Middleware HE rl next = (\<lambda>(r, w, sv).
     case backend_allow HE (rl_backend rl) (clientIP r) sv of
       (Inl err, sv1) \<Rightarrow>
         next (r, w, log_Error (rq_Context r) ''rate limiter backend error, allowing request''
                       [(''error'', err_Error HE err)] sv1)
     | (Inr allowed, sv1) \<Rightarrow>
         if \<not> allowed
         then (Returned, r, response_Error HE r 429 CodeRateLimited ''rate limit exceeded, slow down'' w, sv1)
         else next (r, w, sv1))"

end
