(* ===== verification/Middleware.thy ===== *)
theory Middleware
  imports RateLimit
begin

text \<open>
  Package \<open>internal/httpapi/middleware\<close>, each middleware as a function on handlers, and their
  composition.
\<close>

text \<open>The loop of \<open>Chain\<close> wraps the handler from the last middleware to the first.\<close>

definition Chain :: "middleware list \<Rightarrow> middleware" where
  "Chain mws final = fold (\<lambda>mw h. mw h) (rev mws) final"

subsection \<open>Authentication\<close>

definition Auth :: "henv \<Rightarrow> TokenManager \<Rightarrow> middleware" where
  [http_defs]: "Auth HE tokens next = (\<lambda>(r, w, sv).
     (let header = Header_Get (rq_Header r) ''Authorization'';
          parts = strings_SplitN2 CHR '' '' header
      in if length parts \<noteq> 2 \<or> \<not> strings_EqualFold (parts ! 0) ''Bearer''
         then (Returned, r,
               response_Error HE r 401 CodeUnauthorized ''missing or malformed Authorization header'' w, sv)
         else (case with_world (TokenManager_Validate (he_env HE) tokens (parts ! 1)) sv of
                 (Inl err, sv1) \<Rightarrow>
                   (Returned, r, response_Error HE r 401 CodeUnauthorized ''invalid or expired token'' w, sv1)
               | (Inr userID, sv1) \<Rightarrow>
                   (case next (r\<lparr>rq_Context := (rq_Context r)\<lparr>ctx_userID := Some userID\<rparr>\<rparr>, w, sv1) of
                      (out, _, w2, sv2) \<Rightarrow> (out, r, w2, sv2)))))"

subsection \<open>Cross-origin requests, body size, security headers\<close>

definition CORS :: "string list \<Rightarrow> middleware" where
  [http_defs]: "CORS allowedOrigins next = (\<lambda>(r, w, sv).
     (let allowAll = ''*'' \<in> set allowedOrigins;
          origin = Header_Get (rq_Header r) ''Origin'';
          w1 = (if origin \<noteq> '''' \<and> (allowAll \<or> origin \<in> set allowedOrigins)
                then set_header ''Access-Control-Max-Age'' ''600''
                      (set_header ''Access-Control-Allow-Headers'' ''Authorization, Content-Type''
                        (set_header ''Access-Control-Allow-Methods'' ''GET, POST, PUT, DELETE, OPTIONS''
                          (set_header ''Vary'' ''Origin''
                            (set_header ''Access-Control-Allow-Origin'' origin w))))
                else w)
      in if rq_Method r = ''OPTIONS'' then (Returned, r, WriteHeader 204 w1, sv)
         else next (r, w1, sv)))"

text \<open>The body is replaced in the request itself, so the caller sees the limited body too.\<close>

definition MaxBodyBytes :: "int64 \<Rightarrow> middleware" where
  [http_defs]: "MaxBodyBytes limit next = (\<lambda>(r, w, sv).
     next (r\<lparr>rq_BodyLimit := Some (case rq_BodyLimit r of None \<Rightarrow> max 0 limit | Some l \<Rightarrow> min l (max 0 limit))\<rparr>, w, sv))"

definition SecurityHeaders :: "middleware" where
  [http_defs]: "SecurityHeaders next = (\<lambda>(r, w, sv).
     next (r,
       set_header ''Cross-Origin-Resource-Policy'' ''same-origin''
        (set_header ''Referrer-Policy'' ''no-referrer''
         (set_header ''X-Frame-Options'' ''DENY''
          (set_header ''X-Content-Type-Options'' ''nosniff'' w))), sv))"

subsection \<open>Request ids\<close>

definition requestIDHeader :: string where
  "requestIDHeader = ''X-Request-ID''"

definition generateRequestID :: "henv \<Rightarrow> server \<Rightarrow> string \<times> server" where
  [http_defs]: "generateRequestID HE sv =
     (let n = tick (sv_world sv); sv1 = sv\<lparr>sv_world := (sv_world sv)\<lparr>tick := Suc n\<rparr>\<rparr>
      in case env_rand (he_env HE) n 8 of
           Inl err \<Rightarrow> (''unknown'', sv1)
         | Inr b \<Rightarrow> (hex_EncodeToString b, sv1))"

definition RequestID :: "henv \<Rightarrow> middleware" where
  [http_defs]: "RequestID HE next = (\<lambda>(r, w, sv).
     (let given = Header_Get (rq_Header r) requestIDHeader;
          (i, sv1) = (if given = '''' then generateRequestID HE sv else (given, sv));
          w1 = set_header requestIDHeader i w;
          ctx = WithRequestID i (rq_Context r);
          logger = [(''request_id'', i)] @
            (case he_traceID HE (tick (sv_world sv1)) of None \<Rightarrow> [] | Some t \<Rightarrow> [(''trace_id'', t)]);
          ctx1 = WithLogger logger ctx
      in case next (r\<lparr>rq_Context := ctx1\<rparr>, w1, sv1) of
           (out, _, w2, sv2) \<Rightarrow> (out, r, w2, sv2)))"

definition RequestIDFromContext :: "Context \<Rightarrow> string" where
  "RequestIDFromContext ctx = RequestID_of ctx"

subsection \<open>Access log, metrics, panics\<close>

definition level_of_status :: "int \<Rightarrow> string" where
  "level_of_status status = (if status \<ge> 500 then ''ERROR'' else if status \<ge> 400 then ''WARN'' else ''INFO'')"

text \<open>
  A panic unwinds through \<open>Logging\<close> and \<open>Metrics\<close>, which do nothing then; their recorders leave the
  writer with them.
\<close>

definition access_attrs :: "Request \<Rightarrow> statusRecorder \<Rightarrow> duration \<Rightarrow> (string \<times> string) list" where
  "access_attrs r rec elapsed =
     [(''method'', rq_Method r), (''path'', pathUnescape (rq_Path r)), (''status'', FormatInt (sr_status rec)),
      (''duration_ms'', FormatInt (elapsed sdiv 1000000)), (''bytes_written'', FormatInt (sr_bytes rec)),
      (''remote_addr'', rq_RemoteAddr r), (''user_agent'', Header_Get (rq_Header r) ''User-Agent'')]"

definition Logging :: "henv \<Rightarrow> middleware" where
  [http_defs]: "Logging HE next = (\<lambda>(r, w, sv).
     case sv_now HE sv of
       (start, sv1) \<Rightarrow>
         (case next (r, push_recorder w, sv1) of
            (out, r2, w2, sv2) \<Rightarrow>
              (case pop_recorder w2 of
                 (rec, w3) \<Rightarrow>
                   (case out of
                      Panicked p \<Rightarrow> (out, r2, w3, sv2)
                    | Returned \<Rightarrow>
                        (case sv_now HE sv2 of
                           (now, sv3) \<Rightarrow>
                             (Returned, r2, w3,
                              log_at (level_of_status (sr_status rec)) (rq_Context r2) ''request''
                                (access_attrs r2 rec (now - start)) sv3))))))"

definition Metrics :: "henv \<Rightarrow> middleware" where
  [http_defs]: "Metrics HE next = (\<lambda>(r, w, sv).
     case sv_now HE sv of
       (start, sv1) \<Rightarrow>
         (case next (r, push_recorder w, sv1) of
            (out, r2, w2, sv2) \<Rightarrow>
              (case pop_recorder w2 of
                 (rec, w3) \<Rightarrow>
                   (case out of
                      Panicked p \<Rightarrow> (out, r2, w3, sv2)
                    | Returned \<Rightarrow>
                        (let route = (if rq_Pattern r2 = '''' then ''unmatched'' else rq_Pattern r2)
                         in case sv_now HE sv2 of
                              (now, sv3) \<Rightarrow>
                                (Returned, r2, w3,
                                 sv3\<lparr>sv_requests := sv_requests sv3 @
                                   [(rq_Method r2, route, FormatInt (sr_status rec))],
                                   sv_durations := sv_durations sv3 @ [(rq_Method r2, route, now - start)]\<rparr>))))))"

definition Recover :: "henv \<Rightarrow> middleware" where
  [http_defs]: "Recover HE next = (\<lambda>(r, w, sv).
     case next (r, w, sv) of
       (Returned, r2, w2, sv2) \<Rightarrow> (Returned, r2, w2, sv2)
     | (Panicked p, r2, w2, sv2) \<Rightarrow>
         (Returned, r2, response_Error HE r2 500 CodeInternal ''internal server error'' w2,
          log_Error (rq_Context r2) ''panic recovered''
            [(''error'', p), (''path'', pathUnescape (rq_Path r2))] sv2))"

subsection \<open>Deadlines\<close>

text \<open>
  \<open>http.TimeoutHandler\<close>: the handler runs on a copy of the request and on a writer of its own.  When
  it finishes in time its headers are copied and its response is sent; when the deadline passes
  first, or the client goes away, 503 is sent and what the handler writes is dropped, though it
  runs on with a cancelled context (its statements may then fail at any point).
\<close>

definition timeout_body :: string where
  "timeout_body = ''{'' @ [CHR 0x22] @ ''error'' @ [CHR 0x22] @ '':'' @ [CHR 0x22] @ ''request timed out'' @ [CHR 0x22] @
     '','' @ [CHR 0x22] @ ''code'' @ [CHR 0x22] @ '':'' @ [CHR 0x22] @ ''TIMEOUT'' @ [CHR 0x22] @ ''}''"

definition copy_headers :: "Header \<Rightarrow> ResponseWriter \<Rightarrow> ResponseWriter" where
  "copy_headers h w = w\<lparr>rw_Header := foldr (\<lambda>(k, v) acc. (k, v) # filter (\<lambda>(k', _). k' \<noteq> k) acc) h (rw_Header w)\<rparr>"

definition Timeout :: "henv \<Rightarrow> duration \<Rightarrow> middleware" where
  [http_defs]: "Timeout HE d next = (\<lambda>(r, w, sv).
     (let n = tick (sv_world sv); sv1 = sv\<lparr>sv_world := (sv_world sv)\<lparr>tick := Suc n\<rparr>\<rparr>
      in case next (r, new_writer, sv1) of
           (out, _, tw, sv2) \<Rightarrow>
             (case he_deadline HE n d of
                InTime \<Rightarrow>
                  (case out of
                     Panicked p \<Rightarrow> (Panicked p, r, w, sv2)
                   | Returned \<Rightarrow>
                       (Returned, r,
                        fold (Write (he_Encode HE)) (rw_body tw)
                          (WriteHeader (status_of tw) (copy_headers (rw_Header tw) w)), sv2))
              | DeadlineExceeded \<Rightarrow>
                  (Returned, r, Write (he_Encode HE) (P_Text timeout_body) (WriteHeader 503 w), sv2)
              | Cancelled \<Rightarrow> (Returned, r, WriteHeader 503 w, sv2))))"

end
