(* ===== verification/Config.thy ===== *)
theory Config
  imports Domain
begin

text \<open>
  \<open>internal/config/config.go\<close>, and the parts of \<open>internal/logging\<close>, \<open>internal/tracing\<close> and
  \<open>internal/version\<close> that compute something: reading the settings from the environment, their
  validation, the log level, the export address of traces.
\<close>

text \<open>
  What the process is started with: the environment variables (\<open>''''\<close> for an unset one), the files,
  the readings of \<open>time.ParseDuration\<close> and \<open>strconv.ParseFloat\<close> (\<open>None\<close> is an error) and the machine's
  conversion of floating-point numbers that do not fit an \<open>int64\<close>.
\<close>

record penv =
  pe_Getenv :: "string \<Rightarrow> string"
  pe_ReadFile :: "string \<Rightarrow> string option"
  pe_ParseDuration :: "string \<Rightarrow> duration option"
  pe_ParseFloat :: "string \<Rightarrow> float64 option"
  pe_convert :: "float64 \<Rightarrow> int64"

record DBConfig =
  db_Host :: string
  db_Port :: string
  db_User :: string
  db_Password :: string
  db_Name :: string
  db_SSLMode :: string

record Config =
  cf_Env :: string
  cf_ServerPort :: string
  cf_LogLevel :: string
  cf_DB :: DBConfig
  cf_JWTSecret :: string
  cf_JWTExpiresIn :: duration
  cf_RefreshTokenTTL :: duration
  cf_AllowedOrigins :: "string list"
  cf_RateLimitRPS :: float64
  cf_RateLimitBurst :: int
  cf_RequestTimeout :: duration
  cf_MaxBodyBytes :: int64
  cf_RedisAddr :: string
  cf_TracingEndpoint :: string
  cf_ShutdownDrainDelay :: duration

definition DBConfig_DSN :: "DBConfig \<Rightarrow> string" where
  "DBConfig_DSN d =
     ''postgres://'' @ db_User d @ '':'' @ db_Password d @ ''@'' @ db_Host d @ '':'' @ db_Port d @ ''/'' @
     db_Name d @ ''?sslmode='' @ db_SSLMode d"

definition defaultJWTSecret :: string where
  "defaultJWTSecret = ''dev-secret-change-me''"

definition Second :: duration where "Second = 1000000000"
definition Minute :: duration where "Minute = 60 * Second"
definition Hour :: duration where "Hour = 60 * Minute"

definition getEnv :: "penv \<Rightarrow> string \<Rightarrow> string \<Rightarrow> string" where
  "getEnv P key fallback = (if pe_Getenv P key \<noteq> '''' then pe_Getenv P key else fallback)"

definition getEnvOrFile :: "penv \<Rightarrow> string \<Rightarrow> string \<Rightarrow> string" where
  "getEnvOrFile P key fallback =
     (let path = pe_Getenv P (key @ ''_FILE'')
      in if path \<noteq> '''' then
           (case pe_ReadFile P path of
              None \<Rightarrow> fallback
            | Some contents \<Rightarrow> strings_TrimSpace contents)
         else getEnv P key fallback)"

definition getEnvDuration :: "penv \<Rightarrow> string \<Rightarrow> duration \<Rightarrow> duration" where
  "getEnvDuration P key fallback =
     (let v = pe_Getenv P key
      in if v \<noteq> '''' then (case pe_ParseDuration P v of Some d \<Rightarrow> d | None \<Rightarrow> fallback) else fallback)"

definition getEnvFloat :: "penv \<Rightarrow> string \<Rightarrow> float64 \<Rightarrow> float64" where
  "getEnvFloat P key fallback =
     (let v = pe_Getenv P key
      in if v \<noteq> '''' then (case pe_ParseFloat P v of Some f \<Rightarrow> f | None \<Rightarrow> fallback) else fallback)"

definition getEnvList :: "penv \<Rightarrow> string \<Rightarrow> string list \<Rightarrow> string list" where
  "getEnvList P key fallback =
     (let v = pe_Getenv P key
      in if v = '''' then fallback
         else filter (\<lambda>p. p \<noteq> '''') (map strings_TrimSpace (strings_Split CHR '','' v)))"

definition read_Config :: "penv \<Rightarrow> Config" where
  "read_Config P =
     \<lparr>cf_Env = getEnv P ''ENV'' ''development'',
      cf_ServerPort = getEnv P ''SERVER_PORT'' ''8080'',
      cf_LogLevel = getEnv P ''LOG_LEVEL'' ''info'',
      cf_DB =
        \<lparr>db_Host = getEnv P ''DB_HOST'' ''localhost'',
         db_Port = getEnv P ''DB_PORT'' ''5432'',
         db_User = getEnv P ''DB_USER'' ''taskflow'',
         db_Password = getEnvOrFile P ''DB_PASSWORD'' ''taskflow'',
         db_Name = getEnv P ''DB_NAME'' ''taskflow'',
         db_SSLMode = getEnv P ''DB_SSLMODE'' ''disable''\<rparr>,
      cf_JWTSecret = getEnvOrFile P ''JWT_SECRET'' defaultJWTSecret,
      cf_JWTExpiresIn = getEnvDuration P ''JWT_EXPIRES_IN'' (15 * Minute),
      cf_RefreshTokenTTL = getEnvDuration P ''REFRESH_TOKEN_EXPIRES_IN'' (720 * Hour),
      cf_AllowedOrigins = getEnvList P ''CORS_ALLOWED_ORIGINS'' [''*''],
      cf_RateLimitRPS = getEnvFloat P ''RATE_LIMIT_RPS'' (Fin 5 0),
      cf_RateLimitBurst = float_to_int64 (pe_convert P) (getEnvFloat P ''RATE_LIMIT_BURST'' (Fin 10 0)),
      cf_RequestTimeout = getEnvDuration P ''REQUEST_TIMEOUT'' (15 * Second),
      cf_MaxBodyBytes = float_to_int64 (pe_convert P) (getEnvFloat P ''MAX_BODY_BYTES'' (Fin 1048576 0)),
      cf_RedisAddr = getEnv P ''REDIS_ADDR'' '''',
      cf_TracingEndpoint = getEnv P ''OTEL_EXPORTER_OTLP_ENDPOINT'' '''',
      cf_ShutdownDrainDelay = getEnvDuration P ''SHUTDOWN_DRAIN_DELAY'' (5 * Second)\<rparr>"

text \<open>The messages \<open>validate\<close> collects, in its order.\<close>

definition config_errors :: "Config \<Rightarrow> string list" where
  "config_errors c =
     (if cf_ServerPort c = '''' then [''SERVER_PORT must not be empty''] else []) @
     (if db_Host (cf_DB c) = '''' \<or> db_Port (cf_DB c) = '''' \<or> db_User (cf_DB c) = '''' \<or> db_Name (cf_DB c) = ''''
      then [''DB_HOST, DB_PORT, DB_USER, and DB_NAME must not be empty''] else []) @
     (if cf_JWTSecret c = '''' then [''JWT_SECRET must not be empty''] else []) @
     (if cf_Env c = ''production''
      then (if cf_JWTSecret c = defaultJWTSecret
            then [''JWT_SECRET must be overridden from its default value in production''] else []) @
           (if length (cf_JWTSecret c) < 32
            then [''JWT_SECRET must be at least 32 characters in production''] else [])
      else []) @
     (if float_le_zero (cf_RateLimitRPS c) then [''RATE_LIMIT_RPS must be positive''] else []) @
     (if cf_RateLimitBurst c \<le> 0 then [''RATE_LIMIT_BURST must be positive''] else []) @
     (if cf_RequestTimeout c \<le> 0 then [''REQUEST_TIMEOUT must be positive''] else []) @
     (if cf_MaxBodyBytes c \<le> 0 then [''MAX_BODY_BYTES must be positive''] else []) @
     (if cf_JWTExpiresIn c \<le> 0 then [''JWT_EXPIRES_IN must be positive''] else []) @
     (if cf_RefreshTokenTTL c \<le> 0 then [''REFRESH_TOKEN_EXPIRES_IN must be positive''] else []) @
     (if cf_RefreshTokenTTL c \<le> cf_JWTExpiresIn c
      then [''REFRESH_TOKEN_EXPIRES_IN must be longer than JWT_EXPIRES_IN''] else []) @
     (if cf_ShutdownDrainDelay c < 0 then [''SHUTDOWN_DRAIN_DELAY must not be negative''] else [])"

text \<open>\<open>errors.Join\<close>: nil for no error, otherwise the texts on lines of their own.\<close>

definition Config_validate :: "Config \<Rightarrow> error option" where
  "Config_validate c =
     (let errs = config_errors c
      in if errs = [] then None else Some (ErrText (strings_Join [CHR 0x0A] errs)))"

definition Load :: "penv \<Rightarrow> error + Config" where
  "Load P =
     (let cfg = read_Config P
      in case Config_validate cfg of Some err \<Rightarrow> Inl err | None \<Rightarrow> Inr cfg)"

subsection \<open>Logging, tracing, version\<close>

datatype log_format = JSONHandler | TextHandler

record logger_options =
  lo_format :: log_format
  lo_level :: string
  lo_AddSource :: bool

definition parseLevel :: "string \<Rightarrow> string" where
  "parseLevel level =
     (let l = strings_ToLower (strings_TrimSpace level)
      in if l = ''debug'' then ''DEBUG''
         else if l = ''warn'' \<or> l = ''warning'' then ''WARN''
         else if l = ''error'' then ''ERROR''
         else ''INFO'')"

definition logging_New :: "string \<Rightarrow> string \<Rightarrow> logger_options" where
  "logging_New env level =
     (let lvl = parseLevel level
      in \<lparr>lo_format = (if env = ''production'' then JSONHandler else TextHandler),
          lo_level = lvl, lo_AddSource = (lvl = ''DEBUG'')\<rparr>)"

text \<open>\<open>tracing.Init\<close>: the address spans are exported to, if any.\<close>

definition tracesURL :: "string \<Rightarrow> string option" where
  "tracesURL otlpEndpoint =
     (if otlpEndpoint \<noteq> '''' then Some (strings_TrimRight CHR ''/'' otlpEndpoint @ ''/v1/traces'') else None)"

definition Version :: string where
  "Version = ''dev''"

subsection \<open>Facts\<close>

lemma Config_validate_None: "Config_validate c = None \<longleftrightarrow> config_errors c = []"
  by (simp add: Config_validate_def Let_def)

lemma Load_Inr: "Load P = Inr c \<longleftrightarrow> c = read_Config P \<and> config_errors c = []"
  by (auto simp: Load_def Let_def Config_validate_None split: option.splits)
    (metis Config_validate_None option.distinct(1))

lemmas duration_defs = Second_def Minute_def Hour_def

subsection \<open>Properties\<close>

text \<open>C33: a configuration that \<open>Load\<close> accepts is usable: no required setting is empty, the durations
  and sizes are positive, a session outlives its access tokens, the drain delay is not negative, and
  in production the signing secret has at least 32 characters and is not the shipped one.  The rate
  is positive or not a number.\<close>

theorem Load_validates:
  assumes "Load P = Inr c"
  shows "cf_ServerPort c \<noteq> '''' \<and> db_Host (cf_DB c) \<noteq> '''' \<and> db_Port (cf_DB c) \<noteq> '''' \<and>
    db_User (cf_DB c) \<noteq> '''' \<and> db_Name (cf_DB c) \<noteq> '''' \<and> cf_JWTSecret c \<noteq> '''' \<and>
    (cf_Env c = ''production'' \<longrightarrow> cf_JWTSecret c \<noteq> defaultJWTSecret \<and> 32 \<le> length (cf_JWTSecret c)) \<and>
    0 < cf_RateLimitBurst c \<and> 0 < cf_RequestTimeout c \<and> 0 < cf_MaxBodyBytes c \<and>
    0 < cf_JWTExpiresIn c \<and> cf_JWTExpiresIn c < cf_RefreshTokenTTL c \<and> 0 \<le> cf_ShutdownDrainDelay c \<and>
    (cf_RateLimitRPS c = NaN \<or> cf_RateLimitRPS c = Inf True \<or> (\<exists>m e. cf_RateLimitRPS c = Fin m e \<and> 0 < m))"
proof -
  have "config_errors c = []"
    using iffD1 [OF Load_Inr assms] by blast
  then show ?thesis
    by (cases "cf_RateLimitRPS c") (auto simp: config_errors_def not_less not_le split: if_splits)
qed

text \<open>A process started with no settings at all, and one that asks for a rate of \<open>NaN\<close>.\<close>

definition empty_penv :: penv where
  "empty_penv =
     \<lparr>pe_Getenv = (\<lambda>_. ''''), pe_ReadFile = (\<lambda>_. None), pe_ParseDuration = (\<lambda>_. None),
      pe_ParseFloat = (\<lambda>_. None), pe_convert = (\<lambda>_. 0)\<rparr>"

definition nan_penv :: penv where
  "nan_penv = empty_penv\<lparr>pe_Getenv := (\<lambda>k. if k = ''RATE_LIMIT_RPS'' then ''NaN'' else ''''),
     pe_ParseFloat := (\<lambda>s. if s = ''NaN'' then Some NaN else None)\<rparr>"

lemmas penv_defs = getEnv_def getEnvOrFile_def getEnvDuration_def getEnvFloat_def getEnvList_def
  empty_penv_def nan_penv_def float_to_int64_def int64_ok_def duration_defs

theorem Load_validates_witness:
  "\<exists>c. Load empty_penv = Inr c \<and> cf_RequestTimeout c = 15 * Second \<and> 0 < cf_MaxBodyBytes c"
proof -
  have ok: "Load empty_penv = Inr (read_Config empty_penv)"
    by (simp add: Load_Inr config_errors_def read_Config_def penv_defs defaultJWTSecret_def)
  have "cf_RequestTimeout (read_Config empty_penv) = 15 * Second"
    by (simp add: read_Config_def penv_defs)
  then show ?thesis
    using ok Load_validates [OF ok] by blast
qed

text \<open>A rate that is not a number passes the validation, although it is not positive: the
  comparison with zero is false for it.\<close>

theorem nan_rate_accepted: "\<exists>c. Load nan_penv = Inr c \<and> cf_RateLimitRPS c = NaN"
  by (simp add: Load_Inr config_errors_def read_Config_def penv_defs defaultJWTSecret_def)

end
