(* ===== verification/Router.thy ===== *)
theory Router
  imports Middleware Config "HOL-Library.List_Lexorder" "HOL-Library.Char_ord"
begin

text \<open>
  \<open>internal/httpapi/router.go\<close> with the parts of \<open>net/http.ServeMux\<close> it uses: patterns with a method,
  literal segments, single wildcards and a trailing slash; cleaning of paths and the redirects that
  follow from it; the answers 404 and 405.
\<close>

subsection \<open>Paths\<close>

text \<open>The segments of a path that starts with a slash; a trailing slash leaves an empty last segment.\<close>

definition path_segs :: "string \<Rightarrow> string list" where
  "path_segs p = tl (strings_Split CHR ''/'' p)"

text \<open>\<open>path.Clean\<close> on a rooted path, segment by segment: the kept segments are stacked.\<close>

fun clean_segs :: "string list \<Rightarrow> string list \<Rightarrow> string list" where
  "clean_segs kept [] = rev kept"
| "clean_segs kept (s # ss) =
     (if s = '''' \<or> s = ''.'' then clean_segs kept ss
      else if s = ''..'' then clean_segs (tl kept) ss
      else clean_segs (s # kept) ss)"

definition join_segs :: "string list \<Rightarrow> string" where
  "join_segs segs = (if segs = [] then ''/'' else concat (map (\<lambda>s. CHR ''/'' # s) segs))"

definition cleanPath :: "string \<Rightarrow> string" where
  "cleanPath p =
     (if p = '''' then ''/''
      else let q = (if hd p = CHR ''/'' then p else CHR ''/'' # p);
               np = join_segs (clean_segs [] (path_segs q))
           in if last q = CHR ''/'' \<and> np \<noteq> ''/'' then np @ ''/'' else np)"

subsection \<open>Patterns\<close>

datatype seg = Lit string | Wild string

text \<open>\<open>pt_text\<close> is the pattern as registered; an empty method stands for every method.\<close>

record pattern =
  pt_text :: string
  pt_method :: string
  pt_segs :: "seg list"
  pt_subtree :: bool

text \<open>The bindings of a match; a wildcard does not match the empty segment after a trailing slash.\<close>

fun match_segs :: "seg list \<Rightarrow> bool \<Rightarrow> string list \<Rightarrow> (string \<times> string) list option" where
  "match_segs [] sub xs = (if sub then (if xs = [] then None else Some []) else if xs = [] then Some [] else None)"
| "match_segs (Lit s # ps) sub (x # xs) = (if pathUnescape x = s then match_segs ps sub xs else None)"
| "match_segs (Wild n # ps) sub (x # xs) =
     (if x = '''' then None else map_option (\<lambda>bs. (n, pathUnescape x) # bs) (match_segs ps sub xs))"
| "match_segs (p # ps) sub [] = None"

definition match_path :: "pattern \<Rightarrow> string \<Rightarrow> (string \<times> string) list option" where
  "match_path pt p = match_segs (pt_segs pt) (pt_subtree pt) (path_segs p)"

text \<open>A pattern for \<open>GET\<close> also matches \<open>HEAD\<close>.\<close>

definition match_method :: "pattern \<Rightarrow> string \<Rightarrow> bool" where
  "match_method pt m \<longleftrightarrow> pt_method pt = '''' \<or> pt_method pt = m \<or> pt_method pt = ''GET'' \<and> m = ''HEAD''"

type_synonym mux = "(pattern \<times> handler) list"

text \<open>
  In the tables of this program at most one pattern matches a request, so the order of the table
  does not matter (\<open>tables_apart\<close> in theory \<open>Routing\<close>).
\<close>

fun mux_find :: "mux \<Rightarrow> string \<Rightarrow> string \<Rightarrow> (pattern \<times> handler \<times> (string \<times> string) list) option" where
  "mux_find [] m p = None"
| "mux_find ((pt, h) # rest) m p =
     (case match_path pt p of
        Some bs \<Rightarrow> if match_method pt m then Some (pt, h, bs) else mux_find rest m p
      | None \<Rightarrow> mux_find rest m p)"

text \<open>A pattern with a trailing slash matches exactly when nothing follows the slash.\<close>

definition exact_match :: "pattern \<Rightarrow> string \<Rightarrow> bool" where
  "exact_match pt p \<longleftrightarrow> (pt_subtree pt \<longrightarrow> length (path_segs p) = length (pt_segs pt) + 1 \<and> last (path_segs p) = '''')"

text \<open>\<open>matchOrRedirect\<close>: whether the path with a slash added is registered as such.\<close>

definition needs_slash :: "mux \<Rightarrow> string \<Rightarrow> string \<Rightarrow> bool" where
  "needs_slash mx m p \<longleftrightarrow>
     \<not> (\<exists>x \<in> set_option (mux_find mx m p). exact_match (fst x) p) \<and> last p \<noteq> CHR ''/'' \<and>
     (\<exists>x \<in> set_option (mux_find mx m (p @ ''/'')). exact_match (fst x) (p @ ''/''))"

definition matching_methods :: "mux \<Rightarrow> string \<Rightarrow> string list" where
  "matching_methods mx p =
     (let pts = filter (\<lambda>pt. match_path pt p \<noteq> None \<or> last p \<noteq> CHR ''/'' \<and> match_path pt (p @ ''/'') \<noteq> None) (map fst mx);
          ms = filter (\<lambda>m. m \<noteq> '''') (map pt_method pts)
      in sort (remdups (if ''GET'' \<in> set ms then ''HEAD'' # ms else ms)))"

subsection \<open>Answers of the mux itself\<close>

text \<open>\<open>http.Error\<close> and \<open>http.Redirect\<close>; the text of the redirect is left out.\<close>

definition http_Error :: "henv \<Rightarrow> int \<Rightarrow> string \<Rightarrow> ResponseWriter \<Rightarrow> ResponseWriter" where
  "http_Error HE status msg w =
     Write (he_Encode HE) (P_Text (msg @ [CHR 0x0A]))
       (WriteHeader status
         (set_header ''X-Content-Type-Options'' ''nosniff''
           (set_header ''Content-Type'' ''text/plain; charset=utf-8'' w)))"

definition http_Redirect :: "henv \<Rightarrow> string \<Rightarrow> ResponseWriter \<Rightarrow> ResponseWriter" where
  "http_Redirect HE url w = WriteHeader (he_redirect HE) (set_header ''Location'' url w)"

text \<open>\<open>ServeMux.ServeHTTP\<close>: the matched pattern is stored in the request.\<close>

definition ServeMux :: "henv \<Rightarrow> mux \<Rightarrow> handler" where
  [http_defs]: "ServeMux HE mx = (\<lambda>(r, w, sv).
     (let p = (if rq_Method r = ''CONNECT'' then rq_Path r else cleanPath (rq_Path r));
          found = mux_find mx (rq_Method r) p;
          pat = (case found of None \<Rightarrow> '''' | Some (pt, _) \<Rightarrow> pt_text pt)
      in if needs_slash mx (rq_Method r) p
         then (Returned, r\<lparr>rq_Pattern := pat\<rparr>, http_Redirect HE (p @ ''/'') w, sv)
         else if p \<noteq> rq_Path r
         then (Returned, r\<lparr>rq_Pattern := pat\<rparr>, http_Redirect HE p w, sv)
         else (case found of
                 Some (pt, h, bs) \<Rightarrow> h (r\<lparr>rq_Pattern := pt_text pt, rq_PathValues := bs\<rparr>, w, sv)
               | None \<Rightarrow>
                   (let ms = matching_methods mx p
                    in if ms \<noteq> []
                       then (Returned, r\<lparr>rq_Pattern := ''''\<rparr>,
                             http_Error HE 405 ''Method Not Allowed'' (set_header ''Allow'' (strings_Join '', '' ms) w), sv)
                       else (Returned, r\<lparr>rq_Pattern := ''''\<rparr>, http_Error HE 404 ''404 page not found'' w, sv)))))"

subsection \<open>The route table\<close>

text \<open>
  \<open>Deps\<close>; its database and draining flag are part of the state of the server, and whether it has a Redis
  client is an argument of \<open>NewRouter\<close>.
\<close>

record Deps =
  dp_Auth :: AuthService
  dp_Task :: TaskService
  dp_Tokens :: TokenManager
  dp_Config :: Config
  dp_BuildVersion :: string

definition route :: "string \<Rightarrow> seg list \<Rightarrow> bool \<Rightarrow> string \<Rightarrow> handler \<Rightarrow> pattern \<times> handler" where
  "route m segs sub txt h = (\<lparr>pt_text = txt, pt_method = m, pt_segs = segs, pt_subtree = sub\<rparr>, h)"

abbreviation api_v1 :: "seg list \<Rightarrow> seg list" where
  "api_v1 segs \<equiv> Lit ''api'' # Lit ''v1'' # segs"

definition protected_routes :: "henv \<Rightarrow> Deps \<Rightarrow> mux" where
  "protected_routes HE d =
     (let taskHandler = NewTaskHandler (dp_Task d)
      in [route ''POST'' (api_v1 [Lit ''tasks'']) False ''POST /api/v1/tasks'' (TaskHandler_Create HE taskHandler),
          route ''GET'' (api_v1 [Lit ''tasks'']) False ''GET /api/v1/tasks'' (TaskHandler_List HE taskHandler),
          route ''GET'' (api_v1 [Lit ''tasks'', Wild ''id'']) False ''GET /api/v1/tasks/{id}''
            (TaskHandler_Get HE taskHandler),
          route ''PUT'' (api_v1 [Lit ''tasks'', Wild ''id'']) False ''PUT /api/v1/tasks/{id}''
            (TaskHandler_Update HE taskHandler),
          route ''DELETE'' (api_v1 [Lit ''tasks'', Wild ''id'']) False ''DELETE /api/v1/tasks/{id}''
            (TaskHandler_Delete HE taskHandler)])"

definition api_routes :: "henv \<Rightarrow> Deps \<Rightarrow> mux" where
  "api_routes HE d =
     (let authHandler = NewAuthHandler (dp_Auth d);
          protected = Auth HE (dp_Tokens d) (ServeMux HE (protected_routes HE d))
      in [route ''POST'' (api_v1 [Lit ''auth'', Lit ''signup'']) False ''POST /api/v1/auth/signup''
            (AuthHandler_Signup HE authHandler),
          route ''POST'' (api_v1 [Lit ''auth'', Lit ''login'']) False ''POST /api/v1/auth/login''
            (AuthHandler_Login HE authHandler),
          route ''POST'' (api_v1 [Lit ''auth'', Lit ''refresh'']) False ''POST /api/v1/auth/refresh''
            (AuthHandler_Refresh HE authHandler),
          route ''POST'' (api_v1 [Lit ''auth'', Lit ''logout'']) False ''POST /api/v1/auth/logout''
            (AuthHandler_Logout HE authHandler),
          route '''' (api_v1 [Lit ''tasks'']) False ''/api/v1/tasks'' protected,
          route '''' (api_v1 [Lit ''tasks'']) True ''/api/v1/tasks/'' protected])"

definition api_handler :: "henv \<Rightarrow> Deps \<Rightarrow> RateLimiter \<Rightarrow> handler" where
  "api_handler HE d rateLimiter =
     Chain [CORS (cf_AllowedOrigins (dp_Config d)),
            MaxBodyBytes (cf_MaxBodyBytes (dp_Config d)),
            RateLimiter_Middleware HE rateLimiter,
            Timeout HE (cf_RequestTimeout (dp_Config d))]
       (ServeMux HE (api_routes HE d))"

definition root_routes :: "henv \<Rightarrow> Deps \<Rightarrow> RateLimiter \<Rightarrow> mux" where
  "root_routes HE d rateLimiter =
     [route ''GET'' [Lit ''healthz''] False ''GET /healthz'' (Health HE (dp_BuildVersion d)),
      route ''GET'' [Lit ''readyz''] False ''GET /readyz'' (Ready HE (dp_BuildVersion d)),
      route ''GET'' [Lit ''metrics''] False ''GET /metrics'' (he_promhttp HE),
      route '''' (api_v1 []) True ''/api/v1/'' (api_handler HE d rateLimiter)]"

definition handler_chain :: "henv \<Rightarrow> Deps \<Rightarrow> RateLimiter \<Rightarrow> handler" where
  "handler_chain HE d rateLimiter =
     Chain [RequestID HE, Logging HE, Recover HE, Metrics HE, SecurityHeaders]
       (ServeMux HE (root_routes HE d rateLimiter))"

text \<open>\<open>client\<close> tells whether \<open>Deps.RedisClient\<close> is set; the limiter is chosen when the router is built.\<close>

definition NewRouter :: "henv \<Rightarrow> Deps \<Rightarrow> bool \<Rightarrow> server \<Rightarrow> handler \<times> server" where
  "NewRouter HE d client sv =
     (case NewRateLimiter HE (cf_RateLimitRPS (dp_Config d)) (cf_RateLimitBurst (dp_Config d)) client sv of
        (rateLimiter, sv1) \<Rightarrow> (he_otelhttp HE (handler_chain HE d rateLimiter), sv1))"

end
