(* ===== verification/Startup.thy ===== *)
theory Startup
  imports Router
begin

text \<open>
  \<open>internal/database/database.go\<close> (connecting with retries, migrations) and \<open>cmd/api/main.go\<close> (the
  start of the process and its shutdown), the latter as a transition system over phases.
\<close>

text \<open>
  What happens to the process while it starts: errors of the driver registration, of \<open>sql.Open\<close> on a
  data source name and of the tracing libraries (the resource, the exporter to an address), and
  whether the context is cancelled during the pause after the \<open>n\<close>-th interaction.
\<close>

record senv =
  se_register :: "error option"
  se_open :: "string \<Rightarrow> error option"
  se_resource :: "error option"
  se_exporter :: "string \<Rightarrow> error option"
  se_cancelled :: "nat \<Rightarrow> bool"

subsection \<open>Connect\<close>

definition maxAttempts :: nat where
  "maxAttempts = 10"

definition ctx_Err :: error where
  "ctx_Err = ErrText ''context canceled''"

text \<open>The loop over the attempts, with the last error of a ping.\<close>

function connect_loop :: "henv \<Rightarrow> senv \<Rightarrow> nat \<Rightarrow> error \<Rightarrow> world \<Rightarrow> (error + unit) \<times> world" where
  "connect_loop HE S attempt lastErr w =
     (if attempt \<le> maxAttempts then
        (case db_Ping HE w of
           (Inr _, w1) \<Rightarrow> (Inr (), w1)
         | (Inl err, w1) \<Rightarrow>
             if se_cancelled S (tick w1) then (Inl ctx_Err, w1\<lparr>tick := Suc (tick w1)\<rparr>)
             else connect_loop HE S (attempt + 1) err (w1\<lparr>tick := Suc (tick w1)\<rparr>))
      else (Inl (Wrap (''could not connect to database after '' @ FormatInt (int maxAttempts) @ '' attempts: '') lastErr ''''), w))"
  by pat_completeness auto
termination
  by (relation "measure (\<lambda>(HE, S, attempt, lastErr, w). maxAttempts + 1 - attempt)") auto

declare connect_loop.simps [simp del]

definition Connect :: "henv \<Rightarrow> senv \<Rightarrow> string \<Rightarrow> world \<Rightarrow> (error + unit) \<times> world" where
  "Connect HE S dsn w =
     (case se_register S of
        Some err \<Rightarrow> (Inl (Wrap ''register otel-instrumented driver: '' err ''''), w)
      | None \<Rightarrow>
          (case se_open S dsn of
             Some err \<Rightarrow> (Inl (Wrap ''open db: '' err ''''), w)
           | None \<Rightarrow> connect_loop HE S 1 (ErrText ''%!w(<nil>)'') w))"

subsection \<open>Migrate\<close>

text \<open>
  The statements of the migration files: \<open>CREATE TABLE\<close> and \<open>CREATE INDEX\<close>, each with or without
  \<open>IF NOT EXISTS\<close>, the name of the object and the tables it refers to.  A statement fails with
  \<open>duplicate_table\<close> (42P07) when the name is taken, unless it says \<open>IF NOT EXISTS\<close>, and with
  \<open>undefined_table\<close> (42P01) when a table it refers to is missing.  A file is executed as a whole or not
  at all.
\<close>

datatype ddl = CreateTable (ddl_if_not_exists: bool) (ddl_name: string) (ddl_refs: "string list")
  | CreateIndex (ddl_if_not_exists: bool) (ddl_name: string) (ddl_refs: "string list")

definition migration_files :: "(string \<times> ddl list) list" where
  "migration_files =
     [(''0001_init.sql'',
       [CreateTable True ''users'' [], CreateTable True ''tasks'' [''users''],
        CreateIndex True ''idx_tasks_user_id'' [''tasks'']]),
      (''0002_refresh_tokens.sql'',
       [CreateTable True ''refresh_tokens'' [''users''],
        CreateIndex True ''idx_refresh_tokens_user_id'' [''refresh_tokens'']])]"

text \<open>The result is the code of the error, or the objects there are afterwards.\<close>

fun exec_ddl :: "ddl list \<Rightarrow> string list \<Rightarrow> string + string list" where
  "exec_ddl [] objs = Inr objs"
| "exec_ddl (d # ds) objs =
     (if ddl_name d \<in> set objs then
        (if ddl_if_not_exists d then exec_ddl ds objs else Inl ''42P07'')
      else if set (ddl_refs d) \<subseteq> set objs then exec_ddl ds (objs @ [ddl_name d])
      else Inl ''42P01'')"

text \<open>The database with its catalogue of objects.  The files hold no statement that touches a row.\<close>

type_synonym catalogue = "string list \<times> world"

definition exec_file :: "henv \<Rightarrow> ddl list \<Rightarrow> catalogue \<Rightarrow> error option \<times> catalogue" where
  "exec_file HE ds c =
     (case c of (objs, w) \<Rightarrow>
        (let n = tick w; w1 = w\<lparr>tick := Suc n\<rparr>
         in case env_db (he_env HE) n of
              NotApplied msg \<Rightarrow> (Some (ErrDriver msg), objs, w1)
            | Answered \<Rightarrow>
                (case exec_ddl ds objs of
                   Inl code \<Rightarrow> (Some (PgError code (env_pgtext (he_env HE) code)), objs, w1)
                 | Inr objs1 \<Rightarrow> (None, objs1, w1))
            | ReplyLost msg \<Rightarrow>
                (Some (ErrDriver msg), (case exec_ddl ds objs of Inl code \<Rightarrow> objs | Inr objs1 \<Rightarrow> objs1), w1)))"

fun migrate_loop :: "henv \<Rightarrow> (string \<times> ddl list) list \<Rightarrow> string list \<Rightarrow> catalogue \<Rightarrow> error option \<times> catalogue" where
  "migrate_loop HE files [] c = (None, c)"
| "migrate_loop HE files (name # names) c =
     (case map_of files name of
        None \<Rightarrow> (Some (Wrap (''read migration '' @ name @ '': '') (ErrText ''file does not exist'') ''''), c)
      | Some contents \<Rightarrow>
          (case exec_file HE contents c of
             (Some err, c1) \<Rightarrow> (Some (Wrap (''apply migration '' @ name @ '': '') err ''''), c1)
           | (None, c1) \<Rightarrow> migrate_loop HE files names c1))"

definition Migrate :: "henv \<Rightarrow> catalogue \<Rightarrow> error option \<times> catalogue" where
  "Migrate HE c = migrate_loop HE migration_files (sort (map fst migration_files)) c"

subsection \<open>Tracing\<close>

text \<open>
  \<open>tracing.Init\<close>: its errors, and the provider it installs, with the attributes of its resource, the
  address it exports to, if any, and the formats in which a trace is propagated.  The exporter is only
  built when an address is set.
\<close>

record TracerProvider =
  tp_resource :: "(string \<times> string) list"
  tp_exporter :: "string option"
  tp_propagators :: "string list"

definition tracing_Init :: "senv \<Rightarrow> string \<Rightarrow> string \<Rightarrow> string \<Rightarrow> error + TracerProvider" where
  "tracing_Init S serviceName version otlpEndpoint =
     (case se_resource S of
        Some err \<Rightarrow> Inl (Wrap ''build otel resource: '' err '''')
      | None \<Rightarrow>
          (let res = [(''service.name'', serviceName), (''service.version'', version)];
               tp = (\<lambda>url. \<lparr>tp_resource = res, tp_exporter = url, tp_propagators = [''tracecontext'', ''baggage'']\<rparr>)
           in case tracesURL otlpEndpoint of
                None \<Rightarrow> Inr (tp None)
              | Some url \<Rightarrow>
                  (case se_exporter S url of
                     Some err \<Rightarrow> Inl (Wrap ''build otlp exporter: '' err '''')
                   | None \<Rightarrow> Inr (tp (Some url)))))"

subsection \<open>Starting the process\<close>

text \<open>
  The process: its configuration, the default logger with its attributes, the tracer, the catalogue of
  the database, the router as handler of the \<open>http.Server\<close>, and the state requests work on.
\<close>

record Server =
  srv_Addr :: string
  srv_ReadTimeout :: duration
  srv_ReadHeaderTimeout :: duration
  srv_WriteTimeout :: duration
  srv_IdleTimeout :: duration

record process =
  pr_config :: Config
  pr_logger :: "logger_options \<times> (string \<times> string) list"
  pr_tracer :: TracerProvider
  pr_objects :: "string list"
  pr_router :: handler
  pr_srv :: Server
  pr_server :: server

definition new_server :: "world \<Rightarrow> server" where
  "new_server w = \<lparr>sv_world = w, sv_visitors = [], sv_redis = [], sv_log = [], sv_requests = [], sv_durations = [],
     sv_draining = Some False\<rparr>"

definition new_deps :: "henv \<Rightarrow> Config \<Rightarrow> Deps" where
  "new_deps HE cfg =
     (let E = he_env HE; tokens = NewTokenManager (cf_JWTSecret cfg) (cf_JWTExpiresIn cfg)
      in \<lparr>dp_Auth = NewAuthService (NewUserRepository E) (NewRefreshTokenRepository E) tokens (cf_RefreshTokenTTL cfg),
          dp_Task = NewTaskService (NewTaskRepository E),
          dp_Tokens = tokens, dp_Config = cfg, dp_BuildVersion = Version\<rparr>)"

definition base_logger :: "Config \<Rightarrow> logger_options \<times> (string \<times> string) list" where
  "base_logger cfg =
     (logging_New (cf_Env cfg) (cf_LogLevel cfg),
      [(''service'', ''taskflow-api''), (''env'', cf_Env cfg), (''version'', Version)])"

definition http_Server :: "Config \<Rightarrow> Server" where
  "http_Server cfg =
     \<lparr>srv_Addr = '':'' @ cf_ServerPort cfg, srv_ReadTimeout = 10 * Second, srv_ReadHeaderTimeout = 5 * Second,
      srv_WriteTimeout = 10 * Second, srv_IdleTimeout = 60 * Second\<rparr>"

text \<open>
  \<open>main\<close> up to the start of the server.  \<open>Inl (code, msg, err)\<close> is \<open>os.Exit(code)\<close> after a line of the log
  with this message and error.
\<close>

definition start :: "penv \<Rightarrow> senv \<Rightarrow> henv \<Rightarrow> catalogue \<Rightarrow> (int \<times> string \<times> error) + process" where
  "start P S HE c =
     (case Load P of
        Inl err \<Rightarrow> Inl (1, ''invalid configuration'', err)
      | Inr cfg \<Rightarrow>
          (case tracing_Init S ''taskflow-api'' Version (cf_TracingEndpoint cfg) of
             Inl err \<Rightarrow> Inl (1, ''failed to initialize tracing'', err)
           | Inr tp \<Rightarrow>
               (case Connect HE S (DBConfig_DSN (cf_DB cfg)) (snd c) of
                  (Inl err, w1) \<Rightarrow> Inl (1, ''failed to connect to database'', err)
                | (Inr _, w1) \<Rightarrow>
                    (case Migrate HE (fst c, w1) of
                       (Some err, c2) \<Rightarrow> Inl (1, ''failed to run migrations'', err)
                     | (None, objs, w2) \<Rightarrow>
                         (case NewRouter HE (new_deps HE cfg) (cf_RedisAddr cfg \<noteq> '''') (new_server w2) of
                            (router, sv) \<Rightarrow>
                              Inr \<lparr>pr_config = cfg, pr_logger = base_logger cfg, pr_tracer = tp, pr_objects = objs,
                                   pr_router = router, pr_srv = http_Server cfg, pr_server = sv\<rparr>)))))"

subsection \<open>Serving and shutting down\<close>

text \<open>
  The phases of a running process, with the moments at which the signal came and the closing began.
  \<open>Exited code deferred\<close> tells whether the deferred calls of \<open>main\<close> ran, which flush the tracer and close
  the database: they do when \<open>main\<close> returns, not on \<open>os.Exit\<close>.
\<close>

datatype phase =
    Serving
  | Draining (signalled: time)
  | Closing (signalled: time) (closing: time)
  | Exited (exit_code: int) (deferred_ran: bool)

fun running :: "phase \<Rightarrow> bool" where
  "running (Exited _ _) = False"
| "running _ = True"

text \<open>
  The steps of a process, with the time on its clock.  Requests are served in every phase before the
  end.  After a signal the process is draining for \<open>ShutdownDrainDelay\<close>; then \<open>srv.Shutdown\<close> lets requests
  finish and \<open>main\<close> returns, or \<open>Shutdown\<close> fails, at the latest when its ten seconds are over.  A failing
  listener ends a process that has not yet begun to close.  The clean-up of the in-memory limiter runs
  beside all this.
\<close>

type_synonym lifecycle = "phase \<times> time \<times> server"

definition shutdownTimeout :: duration where
  "shutdownTimeout = 10 * Second"

inductive life_step :: "henv \<Rightarrow> duration \<Rightarrow> handler \<Rightarrow> lifecycle \<Rightarrow> lifecycle \<Rightarrow> bool" for HE delay router where
  clock: "running ph \<Longrightarrow> now \<le> now' \<Longrightarrow> life_step HE delay router (ph, now, sv) (ph, now', sv)"
| request: "running ph \<Longrightarrow> router (r, new_writer, sv) = (out, r', w', sv') \<Longrightarrow>
     life_step HE delay router (ph, now, sv) (ph, now, sv')"
| cleanup: "running ph \<Longrightarrow> life_step HE delay router (ph, now, sv) (ph, now, inMemory_cleanup HE sv)"
| signal: "life_step HE delay router (Serving, now, sv) (Draining now, now, sv\<lparr>sv_draining := Some True\<rparr>)"
| delay_over: "t + delay \<le> now \<Longrightarrow> life_step HE delay router (Draining t, now, sv) (Closing t now, now, sv)"
| shutdown_ok: "life_step HE delay router (Closing t u, now, sv) (Exited 0 True, now, sv)"
| shutdown_failed: "life_step HE delay router (Closing t u, now, sv) (Exited 1 False, now, sv)"
| listener_failed: "ph = Serving \<or> ph = Draining t \<Longrightarrow>
     life_step HE delay router (ph, now, sv) (Exited 1 False, now, sv)"

inductive_cases life_stepE: "life_step HE delay router (ph, now, sv) c"
inductive_simps life_step_exited: "life_step HE delay router (Exited code d, now, sv) c"

end
