(* ===== verification/Seed.thy ===== *)
theory Seed
  imports Startup TaskProperties
begin

text \<open>
  \<open>cmd/seed/main.go\<close>: the demo data and the command that loads it through the services.
\<close>

record seedUser =
  su_Email :: string
  su_Password :: string

definition seedUsers :: "seedUser list" where
  "seedUsers =
     [\<lparr>su_Email = ''alice@example.com'', su_Password = ''password123''\<rparr>,
      \<lparr>su_Email = ''bob@example.com'', su_Password = ''password123''\<rparr>,
      \<lparr>su_Email = ''carol@example.com'', su_Password = ''password123''\<rparr>]"

record seedTask =
  st_Title :: string
  st_Description :: string
  st_Status :: TaskStatus
  st_DueInDays :: "int option"

definition days :: "int \<Rightarrow> int option" where
  "days n = Some n"

definition seed_task :: "string \<Rightarrow> string \<Rightarrow> TaskStatus \<Rightarrow> int option \<Rightarrow> seedTask" where
  "seed_task title descr status due =
     \<lparr>st_Title = title, st_Description = descr, st_Status = status, st_DueInDays = due\<rparr>"

definition taskTemplates :: "seedTask list" where
  "taskTemplates =
     [seed_task ''Set up CI pipeline'' ''Configure GitHub Actions for lint/test/build'' TaskStatusDone None,
      seed_task ''Write API documentation'' ''Document all endpoints in the OpenAPI spec'' TaskStatusDone None,
      seed_task ''Add refresh token rotation'' ''Implement OAuth2-style rotation with reuse detection''
        TaskStatusInProgress (days 2),
      seed_task ''Review pull request #42'' ''Review the distributed tracing PR'' TaskStatusPending (days 1),
      seed_task ''Fix flaky integration test'' ''TestTaskRepository_ListByUser occasionally times out under load''
        TaskStatusPending (days 5),
      seed_task ''Plan Q3 roadmap'' ''Draft the roadmap doc for next quarter'' TaskStatusPending (days 14),
      seed_task ''Upgrade Postgres to v16'' ''Test compatibility and plan a migration window''
        TaskStatusInProgress (days 7),
      seed_task ''Onboard new team member'' ''Walk through architecture and local dev setup'' TaskStatusDone None,
      seed_task ''Investigate 500s on /api/v1/tasks'' (''Spiked briefly during last night'' @ [CHR 0x27] @ ''s deploy'')
        TaskStatusDone None,
      seed_task ''Buy birthday gift'' ''Something not work-related, for once'' TaskStatusPending (days 3)]"

definition getOrCreateUser :: "env \<Rightarrow> AuthService \<Rightarrow> UserRepository \<Rightarrow> seedUser \<Rightarrow> User op" where
  "getOrCreateUser E auth users_repo su w =
     (case AuthService_Signup E auth (su_Email su) (su_Password su) w of
        (Inr (user, _, _), w1) \<Rightarrow> (Inr user, w1)
      | (Inl err, w1) \<Rightarrow>
          if errors_Is err ErrAlreadyExists then ur_FindByEmail users_repo (su_Email su) w1
          else (Inl err, w1))"

text \<open>
  The loop over the window of templates.  \<open>add_days\<close> is \<open>Time.AddDate(0, 0, n)\<close>, which depends on the
  time zone; the counters are those of created and skipped tasks.
\<close>

fun seed_loop ::
  "env \<Rightarrow> (time \<Rightarrow> int \<Rightarrow> time) \<Rightarrow> TaskService \<Rightarrow> int64 \<Rightarrow> nat \<Rightarrow> string set \<Rightarrow> nat list \<Rightarrow> int \<times> int \<Rightarrow>
   world \<Rightarrow> (int \<times> int) \<times> world" where
  "seed_loop E add_days s userID offset titles [] counts w = (counts, w)"
| "seed_loop E add_days s userID offset titles (i # is) (created, skipped) w =
     (let tmpl = taskTemplates ! ((offset + i) mod length taskTemplates)
      in if st_Title tmpl \<in> titles
         then seed_loop E add_days s userID offset titles is (created, skipped + 1) w
         else
           (case (case st_DueInDays tmpl of
                    None \<Rightarrow> (None, w)
                  | Some n \<Rightarrow> (case time_Now E w of (now, w1) \<Rightarrow> (Some (add_days now n), w1))) of
              (dueDate, w1) \<Rightarrow>
                (case TaskService_Create s userID (st_Title tmpl) (st_Description tmpl) dueDate w1 of
                   (Inl err, w2) \<Rightarrow> seed_loop E add_days s userID offset titles is (created, skipped) w2
                 | (Inr task, w2) \<Rightarrow>
                     (case (if st_Status tmpl \<noteq> TaskStatusPending
                            then snd (TaskService_Update E s userID (t_ID task) (t_Title task) (t_Description task)
                                        (st_Status tmpl) (t_DueDate task) w2)
                            else w2) of
                        w3 \<Rightarrow> seed_loop E add_days s userID offset titles is (created + 1, skipped) w3))))"

definition perUser :: nat where
  "perUser = 5"

definition seedTasksForUser ::
  "env \<Rightarrow> (time \<Rightarrow> int \<Rightarrow> time) \<Rightarrow> TaskService \<Rightarrow> int64 \<Rightarrow> nat \<Rightarrow> world \<Rightarrow> (int \<times> int) \<times> world" where
  "seedTasksForUser E add_days s userID offset w =
     (case TaskService_List s userID '''' 100 0 w of
        (r, w1) \<Rightarrow>
          (let existing = (case r of Inl err \<Rightarrow> [] | Inr (page, _) \<Rightarrow> page)
           in seed_loop E add_days s userID offset (t_Title ` set existing) [0..<perUser] (0, 0) w1))"

text \<open>
  The loop of \<open>main\<close> over the users; \<open>Inl 1\<close> is \<open>os.Exit(1)\<close>.  The command runs under
  \<open>context.Background()\<close>, which is never cancelled.
\<close>

fun seed_users ::
  "env \<Rightarrow> (time \<Rightarrow> int \<Rightarrow> time) \<Rightarrow> AuthService \<Rightarrow> UserRepository \<Rightarrow> TaskService \<Rightarrow> nat \<Rightarrow> seedUser list \<Rightarrow>
   world \<Rightarrow> (int + unit) \<times> world" where
  "seed_users E add_days auth ur s i [] w = (Inr (), w)"
| "seed_users E add_days auth ur s i (su # sus) w =
     (case getOrCreateUser E auth ur su w of
        (Inl err, w1) \<Rightarrow> (Inl 1, w1)
      | (Inr user, w1) \<Rightarrow>
          seed_users E add_days auth ur s (i + 1) sus (snd (seedTasksForUser E add_days s (u_ID user) i w1)))"

definition seed_main ::
  "penv \<Rightarrow> senv \<Rightarrow> henv \<Rightarrow> (time \<Rightarrow> int \<Rightarrow> time) \<Rightarrow> catalogue \<Rightarrow> (int + unit) \<times> catalogue" where
  "seed_main P S HE add_days c =
     (case Load P of
        Inl err \<Rightarrow> (Inl 1, c)
      | Inr cfg \<Rightarrow>
          (case Connect HE (S\<lparr>se_cancelled := (\<lambda>_. False)\<rparr>) (DBConfig_DSN (cf_DB cfg)) (snd c) of
             (Inl err, w1) \<Rightarrow> (Inl 1, fst c, w1)
           | (Inr _, w1) \<Rightarrow>
               (case Migrate HE (fst c, w1) of
                  (Some err, c2) \<Rightarrow> (Inl 1, c2)
                | (None, objs, w2) \<Rightarrow>
                    (let d = new_deps HE cfg
                     in case seed_users (he_env HE) add_days (dp_Auth d) (NewUserRepository (he_env HE)) (dp_Task d)
                               0 seedUsers w2 of
                          (r, w3) \<Rightarrow> (r, objs, w3)))))"

end
