(* ===== verification/SeedProperties.thy ===== *)
theory SeedProperties
  imports Seed
begin

text \<open>
  Running the seed command again.  A run creates exactly those tasks of the user's window of templates
  whose titles are not in the listing it starts from, which holds the user's 100 newest tasks.  For a
  user who has at most 100 tasks afterwards the next run creates none; with more tasks a title
  beyond the listing is created a second time.
\<close>

definition user_titles :: "int64 \<Rightarrow> world \<Rightarrow> string list" where
  "user_titles uid w = map t_Title (filter (\<lambda>t. t_UserID t = uid) (tasks w))"

definition window_title :: "nat \<Rightarrow> nat \<Rightarrow> string" where
  "window_title offset i = st_Title (taskTemplates ! ((offset + i) mod length taskTemplates))"

text \<open>A creation adds one title.\<close>

lemma create_titles:
  assumes "no_faults E" and "db_inv w" and "uid \<in> u_ID ` set (users w)" and "tasks_id_seq w < 2 ^ 63 - 1"
  obtains t w' where "TaskService_Create (taskService E) uid title descr due w = (Inr t, w')"
    and "t_Title t = title" and "t_UserID t = uid" and "user_titles uid w' = user_titles uid w @ [title]"
    and "tasks_id_seq w' = tasks_id_seq w + 1" and "users w' = users w" and "db_inv w'"
    and "\<forall>row \<in> set (tasks w'). t_ID row = t_ID t \<longrightarrow> t_Title row = title"
proof -
  have seq: "nextval (tasks_id_seq w) = Some (tasks_id_seq w + 1)"
    using assms(4) by (simp add: nextval_def)
  obtain r w' where run: "TaskService_Create (taskService E) uid title descr due w = (r, w')"
    by fastforce
  let ?row = "created_task E (tasks_id_seq w + 1) (tick w) uid title descr due"
  have res: "r = Inr (?row\<lparr>t_DueDate := due\<rparr>)" "tasks w' = tasks w @ [?row]" "tasks_id_seq w' = tasks_id_seq w + 1"
      "users w' = users w"
    using assms(3) run seq db_inv_next(2) [OF assms(2) seq]
    by (auto simp: TaskService_Create_def repo_defs db_call_answered [OF assms(1)] sql_defs Let_def created_task_def)
  have inv: "db_inv w'"
    using pg_task.create_step [OF run] assms(2) by simp
  have "t_Title row = title" if "row \<in> set (tasks w')" "t_ID row = t_ID ?row" for row
    using unique_task [OF inv, of ?row row] that res(2) by (auto simp: created_task_def)
  then show ?thesis
    using run res inv by (intro that [of "?row\<lparr>t_DueDate := due\<rparr>" w']) (simp_all add: user_titles_def created_task_def)
qed

text \<open>An update that keeps the title leaves the titles alone.\<close>

lemma map_title_update:
  assumes "\<forall>row \<in> set rows. t_ID row = i \<longrightarrow> t_Title row = title"
    and "\<And>row. t_UserID (f row) = t_UserID row" and "\<And>row. t_Title (f row) = title"
  shows "map t_Title (filter (\<lambda>t. t_UserID t = uid) (update_where (\<lambda>row. t_ID row = i) f rows)) =
    map t_Title (filter (\<lambda>t. t_UserID t = uid) rows)"
  using assms by (induction rows) auto

lemma update_titles:
  assumes "no_faults E" and "db_inv w" and "\<forall>row \<in> set (tasks w). t_ID row = i \<longrightarrow> t_Title row = title"
    and "TaskService_Update E (taskService E) uid i title descr st due w = (r, w')"
  shows "user_titles uid w' = user_titles uid w" and "tasks_id_seq w' = tasks_id_seq w" and "users w' = users w" and "db_inv w'"
proof -
  have "(tasks w' = tasks w \<or> (\<exists>n x. t_Title x = title \<and>
        tasks w' = update_where (\<lambda>row. t_ID row = i) (set_task E n x) (tasks w))) \<and>
      tasks_id_seq w' = tasks_id_seq w \<and> users w' = users w"
  proof (cases "find (\<lambda>t. t_ID t = i) (tasks w)")
    case (Some t)
    then have "t_ID t = i" "t \<in> set (tasks w)"
      by (auto simp: find_Some_iff)
    then show ?thesis
      using Some assms(4) Update_answered [OF assms(1), of "t\<lparr>t_Title := title, t_Description := descr, t_Status := st, t_DueDate := due\<rparr>"
          "w\<lparr>tick := Suc (tick w)\<rparr>"]
      by (auto simp: TaskService_Update_def TaskService_Get_def task_FindByID_answered [OF assms(1)]
          split: if_splits intro!: exI [of _ "t\<lparr>t_Title := title, t_Description := descr, t_Status := st, t_DueDate := due\<rparr>"])
  qed (use assms(4) in \<open>auto simp: TaskService_Update_def TaskService_Get_def task_FindByID_answered [OF assms(1)]\<close>)
  then show "user_titles uid w' = user_titles uid w" "tasks_id_seq w' = tasks_id_seq w" "users w' = users w"
    using map_title_update [OF assms(3)] by (auto simp: user_titles_def set_task_def)
  show "db_inv w'"
    using pg_task.update_step [OF assms(4,2)] by simp
qed

lemma time_Now_frame: "time_Now E w = (t, w') \<Longrightarrow> db_inv w' = db_inv w \<and> user_titles uid w' = user_titles uid w \<and>
    tasks_id_seq w' = tasks_id_seq w \<and> users w' = users w"
  by (auto simp: time_Now_def user_titles_def)

text \<open>The loop adds the missing titles in order and counts them.\<close>

lemma seed_loop_titles:
  assumes "no_faults E"
  shows "db_inv w \<Longrightarrow> uid \<in> u_ID ` set (users w) \<Longrightarrow> tasks_id_seq w + int (length is) < 2 ^ 63 \<Longrightarrow>
    \<exists>w'. seed_loop E ad (taskService E) uid offset titles is (created, skipped) w =
        ((created + int (length (filter (\<lambda>i. window_title offset i \<notin> titles) is)),
          skipped + int (length (filter (\<lambda>i. window_title offset i \<in> titles) is))), w') \<and>
      user_titles uid w' = user_titles uid w @ map (window_title offset) (filter (\<lambda>i. window_title offset i \<notin> titles) is) \<and>
      db_inv w' \<and> users w' = users w"
proof (induction "is" arbitrary: created skipped w)
  case (Cons i "is")
  let ?tmpl = "taskTemplates ! ((offset + i) mod length taskTemplates)"
  show ?case
  proof (cases "window_title offset i \<in> titles")
    case True
    then show ?thesis
      using Cons.IH [of w created "skipped + 1"] Cons.prems by (auto simp: Let_def window_title_def)
  next
    case False
    obtain due w1 where now: "(case st_DueInDays ?tmpl of None \<Rightarrow> (None, w)
        | Some n \<Rightarrow> (case time_Now E w of (now, w1) \<Rightarrow> (Some (ad now n), w1))) = (due, w1)"
      by fastforce
    then have w1: "db_inv w1" "user_titles uid w1 = user_titles uid w" "tasks_id_seq w1 = tasks_id_seq w" "users w1 = users w"
      using Cons.prems(1) by (auto split: option.splits prod.splits dest!: time_Now_frame)
    have "uid \<in> u_ID ` set (users w1)" and "tasks_id_seq w1 < 2 ^ 63 - 1"
      using Cons.prems(2,3) w1(3,4) by simp_all
    from create_titles [OF assms w1(1) this, of "st_Title ?tmpl" "st_Description ?tmpl" due]
    obtain t w2 where made: "TaskService_Create (taskService E) uid (st_Title ?tmpl) (st_Description ?tmpl) due w1 = (Inr t, w2)"
        "t_Title t = st_Title ?tmpl" "user_titles uid w2 = user_titles uid w1 @ [st_Title ?tmpl]"
        "tasks_id_seq w2 = tasks_id_seq w1 + 1" "users w2 = users w1" "db_inv w2"
        "\<forall>row \<in> set (tasks w2). t_ID row = t_ID t \<longrightarrow> t_Title row = st_Title ?tmpl"
      by blast
    define w3 where "w3 = (if st_Status ?tmpl \<noteq> TaskStatusPending
      then snd (TaskService_Update E (taskService E) uid (t_ID t) (t_Title t) (t_Description t) (st_Status ?tmpl) (t_DueDate t) w2)
      else w2)"
    have w3: "user_titles uid w3 = user_titles uid w2" "tasks_id_seq w3 = tasks_id_seq w2" "users w3 = users w2" "db_inv w3"
      using update_titles [OF assms made(6) made(7) prod.collapse [symmetric], of uid] made(2,6) unfolding w3_def by auto
    have "seed_loop E ad (taskService E) uid offset titles (i # is) (created, skipped) w =
        seed_loop E ad (taskService E) uid offset titles is (created + 1, skipped) w3"
      using False now made(1) by (simp add: Let_def window_title_def w3_def)
    then show ?thesis
      using Cons.IH [of w3 "created + 1" skipped] Cons.prems False w1 made w3 by (auto simp: window_title_def)
  qed
qed (auto simp: user_titles_def)

text \<open>A loop that meets only titles that are present changes nothing.\<close>

lemma seed_loop_present:
  "list_all (\<lambda>i. window_title offset i \<in> titles) is \<Longrightarrow>
     seed_loop E ad s uid offset titles is (created, skipped) w = ((created, skipped + int (length is)), w)"
  by (induction "is" arbitrary: skipped) (auto simp: Let_def window_title_def)

text \<open>The titles the run sees: those of the first page of a listing.\<close>

definition listed_titles :: "env \<Rightarrow> int64 \<Rightarrow> world \<Rightarrow> string set" where
  "listed_titles E uid w = t_Title ` set (list_page E uid '''' 100 0 w)"

lemma seedTasksForUser_eq:
  obtains w1 where "seedTasksForUser E ad (taskService E) uid offset w =
      seed_loop E ad (taskService E) uid offset (listed_titles E uid w) [0..<5] (0, 0) w1"
    and "same_rows w w1" and "db_inv w \<longrightarrow> db_inv w1" and "tasks_id_seq w1 = tasks_id_seq w"
proof -
  obtain r w1 where list: "TaskService_List (taskService E) uid '''' 100 0 w = (r, w1)"
    by fastforce
  moreover have "tasks_id_seq w1 = tasks_id_seq w"
    using list_keeps_sequence [OF list] .
  ultimately show ?thesis
    using that pg_task.list_step [OF list]
    by (auto simp: seedTasksForUser_def perUser_def listed_titles_def list_page_def)
qed

lemma list_page_100: "no_faults E \<Longrightarrow> list_page E uid '''' 100 0 w = take 100 (newest_first E (tick w + 1) (list_where uid '''') (tasks w))"
  by (simp add: list_page_def List_answered effectiveLimit_def effectiveOffset_def maxPageLimit_def)

lemma list_where_all: "list_where uid '''' = (\<lambda>t. t_UserID t = uid)"
  by (simp add: list_where_def fun_eq_iff)

lemma listed_all: "no_faults E \<Longrightarrow> length (user_titles uid w) \<le> 100 \<Longrightarrow> listed_titles E uid w = set (user_titles uid w)"
  by (auto simp: listed_titles_def list_page_100 list_where_all user_titles_def)

lemma seed_run:
  assumes "no_faults E" and "db_inv w" and "uid \<in> u_ID ` set (users w)" and "tasks_id_seq w + 5 < 2 ^ 63"
    and "seedTasksForUser E ad (taskService E) uid offset w = ((created, skipped), w1)"
  defines "missing \<equiv> filter (\<lambda>title. title \<notin> listed_titles E uid w) (map (window_title offset) [0..<5])"
  shows "user_titles uid w1 = user_titles uid w @ missing" and "created = int (length missing)" and "created + skipped = 5"
proof -
  let ?titles = "listed_titles E uid w"
  obtain v where v: "seedTasksForUser E ad (taskService E) uid offset w =
      seed_loop E ad (taskService E) uid offset ?titles [0..<5] (0, 0) v"
      "same_rows w v" "db_inv v" "tasks_id_seq v = tasks_id_seq w"
    using seedTasksForUser_eq [of E ad uid offset w] assms(2) by auto
  have titles: "user_titles uid v = user_titles uid w"
    using same_rowsD(2) [OF v(2)] by (simp add: user_titles_def)
  have missing: "missing = map (window_title offset) (filter (\<lambda>i. window_title offset i \<notin> ?titles) [0..<5])"
    by (simp add: missing_def filter_map o_def)
  have run: "user_titles uid w1 = user_titles uid w @ missing" "created = int (length missing)"
      "skipped = int (length (filter (\<lambda>i. window_title offset i \<in> ?titles) [0..<5]))"
    using seed_loop_titles [OF assms(1) v(3), of uid "[0..<5]" ad offset ?titles 0 0]
      assms(3,4,5) v titles same_rowsD(1) [OF v(2)] missing by auto
  show "user_titles uid w1 = user_titles uid w @ missing" "created = int (length missing)"
    using run(1,2) .
  show "created + skipped = 5"
    using run(2,3) missing sum_length_filter_compl [of "\<lambda>i. window_title offset i \<notin> ?titles" "[0..<5]"] by simp
qed

text \<open>C37: running the seed again.  For an existing user, while the database answers and has ids left, a run
  creates exactly the tasks of the user's window of five templates whose titles it does not see among
  the user's 100 newest tasks, in order, and skips the others.  It sees all titles of a user with at
  most 100 tasks; if the user has at most 100 tasks after the run, the next run creates none, skips
  all five and changes no row.  (\<open>seed_duplicates\<close> shows what happens beyond that.)\<close>

theorem seed_idempotent:
  assumes "no_faults E" and "db_inv w" and "uid \<in> u_ID ` set (users w)" and "tasks_id_seq w + 5 < 2 ^ 63"
    and "seedTasksForUser E ad (taskService E) uid offset w = ((created, skipped), w1)"
  defines "seen \<equiv> t_Title ` set (list_page E uid '''' 100 0 w)"
  defines "missing \<equiv> filter (\<lambda>title. title \<notin> seen) (map (window_title offset) [0..<5])"
  shows "user_titles uid w1 = user_titles uid w @ missing \<and> created = int (length missing) \<and> created + skipped = 5 \<and>
    (length (user_titles uid w) \<le> 100 \<longrightarrow> seen = set (user_titles uid w)) \<and>
    (length (user_titles uid w1) \<le> 100 \<longrightarrow>
      (\<exists>w2. seedTasksForUser E ad (taskService E) uid offset w1 = ((0, 5), w2) \<and> same_rows w1 w2))"
proof -
  have seen: "seen = listed_titles E uid w"
    by (simp add: seen_def listed_titles_def)
  note run = seed_run [OF assms(1-5), folded seen, folded missing_def]
  have again: "\<exists>w2. seedTasksForUser E ad (taskService E) uid offset w1 = ((0, 5), w2) \<and> same_rows w1 w2"
    if "length (user_titles uid w1) \<le> 100"
  proof -
    have "seen = set (user_titles uid w)"
      using that run(1) listed_all [OF assms(1)] by (simp add: seen)
    then have "list_all (\<lambda>i. window_title offset i \<in> listed_titles E uid w1) [0..<5]"
      unfolding listed_all [OF assms(1) that] run(1) by (auto simp: list_all_iff missing_def)
    moreover obtain w2 where "seedTasksForUser E ad (taskService E) uid offset w1 =
        seed_loop E ad (taskService E) uid offset (listed_titles E uid w1) [0..<5] (0, 0) w2" "same_rows w1 w2"
      using seedTasksForUser_eq by blast
    ultimately show ?thesis
      using seed_loop_present [of offset "listed_titles E uid w1" "[0..<5]"] by simp
  qed
  show ?thesis
    using run again listed_all [OF assms(1)] by (simp add: seen)
qed

theorem seed_idempotent_witness:
  "\<exists>w1 w2. seedTasksForUser example_env (\<lambda>t n. t + n) (taskService example_env) 1 0 (example_world []) = ((5, 0), w1) \<and>
     seedTasksForUser example_env (\<lambda>t n. t + n) (taskService example_env) 1 0 w1 = ((0, 5), w2) \<and> same_rows w1 w2"
proof -
  obtain created skipped w1 where run: "seedTasksForUser example_env (\<lambda>t n. t + n) (taskService example_env) 1 0 (example_world []) =
      ((created, skipped), w1)"
    by (metis surj_pair)
  have titles: "user_titles 1 (example_world []) = [''title'']"
    by (simp add: user_titles_def example_task_def)
  have new: "filter (\<lambda>title. title \<notin> {''title''}) (map (window_title 0) [0..<5]) = map (window_title 0) [0..<5]"
    by (simp add: window_title_def taskTemplates_def seed_task_def upt_rec)
  note seed = seed_idempotent [OF example_no_faults(1) example_world_inv(1) _ _ run]
  have seen: "t_Title ` set (list_page example_env 1 '''' 100 0 (example_world [])) = {''title''}"
    using seed by (simp add: titles example_users_def)
  have made: "user_titles 1 w1 = ''title'' # map (window_title 0) [0..<5]" "created = 5" "created + skipped = 5"
    using seed [unfolded seen new] by (simp_all add: titles example_users_def)
  then have "length (user_titles 1 w1) \<le> 100" "skipped = 0"
    by simp_all
  then show ?thesis
    using seed made(2) run by (simp add: example_users_def)
qed

subsection \<open>More than a hundred tasks\<close>

text \<open>In a list that is sorted from new to old, the elements newer than the \<open>k\<close>-th come before it.\<close>

lemma newer_before:
  assumes "sorted_wrt (\<lambda>s t. t_CreatedAt t \<le> t_CreatedAt s) xs" and "k < length xs"
  shows "length (filter (\<lambda>s. t_CreatedAt (xs ! k) < t_CreatedAt s) xs) \<le> k"
proof -
  let ?p = "\<lambda>s. t_CreatedAt (xs ! k) < t_CreatedAt s"
  have "t_CreatedAt s \<le> t_CreatedAt (xs ! k)" if s: "s \<in> set (drop k xs)" for s
  proof -
    obtain m where m: "m < length (drop k xs)" "drop k xs ! m = s"
      using s unfolding in_set_conv_nth by blast
    have "k + m < length xs" and "s = xs ! (k + m)"
      using m assms(2) by auto
    then show ?thesis
      using sorted_wrt_nth_less [OF assms(1), of k "k + m"] by (cases m) auto
  qed
  then have "filter ?p (drop k xs) = []"
    by (auto simp: filter_empty_conv not_less)
  then have "filter ?p xs = filter ?p (take k xs)"
    by (metis append.right_neutral append_take_drop_id filter_append)
  then show ?thesis
    by (metis length_filter_le length_take min.boundedE)
qed

lemma hidden_title:
  assumes "no_faults E"
    and "\<forall>t \<in> set (tasks w). t_UserID t = uid \<and> t_Title t = title \<longrightarrow>
      100 \<le> length (filter (\<lambda>s. t_UserID s = uid \<and> t_CreatedAt t < t_CreatedAt s) (tasks w))"
  shows "title \<notin> listed_titles E uid w"
proof
  assume "title \<in> listed_titles E uid w"
  let ?xs = "newest_first E (tick w + 1) (list_where uid '''') (tasks w)"
  obtain k where k: "k < length ?xs" "k < 100" "t_Title (?xs ! k) = title"
    using \<open>title \<in> _\<close> by (auto simp: listed_titles_def list_page_100 [OF assms(1)] in_set_conv_nth)
  have "?xs ! k \<in> set ?xs"
    using k(1) by (rule nth_mem)
  then have "100 \<le> length (filter (\<lambda>s. t_UserID s = uid \<and> t_CreatedAt (?xs ! k) < t_CreatedAt s) (tasks w))"
    using assms(2) k(3) by (simp add: list_where_all)
  also have "\<dots> = length (filter (\<lambda>s. t_CreatedAt (?xs ! k) < t_CreatedAt s) ?xs)"
  proof -
    have "length (filter q ?xs) = length (filter q (filter (\<lambda>t. t_UserID t = uid) (tasks w)))" for q
      using mset_newest_first [of E "tick w + 1" "list_where uid ''''" "tasks w"]
      unfolding list_where_all by (metis mset_filter size_mset)
    then show ?thesis
      by (simp add: conj_commute)
  qed
  also have "\<dots> \<le> k"
    using newer_before [OF sorted_newest_first k(1)] .
  finally show False
    using k(2) by simp
qed

text \<open>A seed task that has a hundred newer tasks before it is created again, although the comment on
  \<open>seedTasksForUser\<close> promises that titles the user already has are skipped.\<close>

theorem seed_duplicates:
  assumes "no_faults E" and "db_inv w" and "uid \<in> u_ID ` set (users w)" and "tasks_id_seq w + 5 < 2 ^ 63"
    and "seedTasksForUser E ad (taskService E) uid offset w = (counts, w1)"
    and "i < 5" and "window_title offset i \<in> set (user_titles uid w)"
    and "\<forall>t \<in> set (tasks w). t_UserID t = uid \<and> t_Title t = window_title offset i \<longrightarrow>
      100 \<le> length (filter (\<lambda>s. t_UserID s = uid \<and> t_CreatedAt t < t_CreatedAt s) (tasks w))"
  shows "2 \<le> count_list (user_titles uid w1) (window_title offset i)"
proof -
  let ?title = "window_title offset i"
  let ?missing = "filter (\<lambda>title. title \<notin> listed_titles E uid w) (map (window_title offset) [0..<5])"
  have "user_titles uid w1 = user_titles uid w @ ?missing"
    using seed_run(1) [OF assms(1-4), of ad offset "fst counts" "snd counts" w1] assms(5) by simp
  moreover have "?title \<in> set ?missing"
    using hidden_title [OF assms(1,8)] assms(6) by auto
  ultimately show ?thesis
    using assms(7) count_list_0_iff [of "user_titles uid w" ?title] count_list_0_iff [of ?missing ?title] by simp
qed

text \<open>A user whose first task is a seed task and who has made a hundred tasks since.\<close>

definition busy_world :: world where
  "busy_world = (example_world [])\<lparr>tasks_id_seq := 101, tasks :=
     map (\<lambda>k. (example_task (int k) 1)\<lparr>t_Title := (if k = 1 then ''Set up CI pipeline'' else ''title''), t_CreatedAt := int k\<rparr>)
       [1..<102]\<rparr>"

lemma busy_inv: "db_inv busy_world"
proof -
  have "distinct (map int [1..<102])"
    by (simp add: distinct_map)
  then show ?thesis
    using example_world_inv(1)
    by (auto simp: db_inv_def busy_world_def ids_ok_def o_def TaskStatus_Valid_def example_users_def)
qed

theorem seed_duplicates_witness:
  "2 \<le> count_list (user_titles 1 (snd (seedTasksForUser example_env (\<lambda>t n. t + n) (taskService example_env) 1 0 busy_world)))
     ''Set up CI pipeline''"
proof -
  have title: "window_title 0 0 = ''Set up CI pipeline''"
    by (simp add: window_title_def taskTemplates_def seed_task_def)
  have "[1..<102] = 1 # [2..<102]"
    by (simp add: upt_conv_Cons numeral_2_eq_2)
  then have "filter (\<lambda>k. 1 < k) [1..<102] = [2..<102]"
    by (simp add: filter_id_conv)
  moreover have "length (filter (\<lambda>s. t_UserID s = 1 \<and> 1 < t_CreatedAt s) (tasks busy_world)) =
      length (filter (\<lambda>k. 1 < k) [1..<102])"
    by (simp add: busy_world_def filter_map o_def)
  ultimately have "100 \<le> length (filter (\<lambda>s. t_UserID s = 1 \<and> 1 < t_CreatedAt s) (tasks busy_world))"
    by simp
  then have old: "\<forall>t \<in> set (tasks busy_world). t_UserID t = 1 \<and> t_Title t = window_title 0 0 \<longrightarrow>
      100 \<le> length (filter (\<lambda>s. t_UserID s = 1 \<and> t_CreatedAt t < t_CreatedAt s) (tasks busy_world))"
    unfolding title by (auto simp: busy_world_def split: if_splits)
  have "window_title 0 0 \<in> set (user_titles 1 busy_world)"
    unfolding title by (force simp: user_titles_def busy_world_def)
  then show ?thesis
    using seed_duplicates [OF example_no_faults(1) busy_inv _ _ prod.collapse [symmetric] _ _ old]
    by (simp add: title busy_world_def example_users_def)
qed

end
