(* ===== verification/HttpFrame.thy ===== *)
theory HttpFrame
  imports Startup
begin

text \<open>
  What a request can do to the state of the server.  Whatever relation \<open>R\<close> between states is
  reflexive, transitive and holds when only the index of interactions, the log or the limiter's books
  change, the middleware keeps it when the handler below does, a mux keeps it when its handlers do,
  and a handler keeps it when the service operation it calls does.  This is proved once, in the
  locales \<open>server_relation\<close> and, for relations that also allow counting and logging the request,
  \<open>counting_relation\<close>; the interpretations below are the steps of the system, the effect one
  user's requests may have, the draining flag and the counters.
\<close>

text \<open>\<open>keeps U R h\<close>: on requests whose authenticated user satisfies \<open>U\<close>, \<open>h\<close> moves the state along \<open>R\<close>.\<close>

definition keeps :: "(int64 option \<Rightarrow> bool) \<Rightarrow> (server \<Rightarrow> server \<Rightarrow> bool) \<Rightarrow> handler \<Rightarrow> bool" where
  "keeps U R h \<longleftrightarrow>
     (\<forall>r w sv out r' w' sv'. h (r, w, sv) = (out, r', w', sv') \<longrightarrow> U (ctx_userID (rq_Context r)) \<longrightarrow> R sv sv')"

lemma keepsI:
  "(\<And>r w sv out r' w' sv'. h (r, w, sv) = (out, r', w', sv') \<Longrightarrow> U (ctx_userID (rq_Context r)) \<Longrightarrow> R sv sv') \<Longrightarrow>
     keeps U R h"
  by (simp add: keeps_def)

lemma keepsI_snd:
  "(\<And>r w sv. U (ctx_userID (rq_Context r)) \<Longrightarrow> R sv (snd (snd (snd (h (r, w, sv)))))) \<Longrightarrow> keeps U R h"
  by (rule keepsI) (metis snd_conv)

lemma keepsD:
  "keeps U R h \<Longrightarrow> h (r, w, sv) = (out, r', w', sv') \<Longrightarrow> U (ctx_userID (rq_Context r)) \<Longrightarrow> R sv sv'"
  by (auto simp: keeps_def)

subsection \<open>The state behind the building blocks\<close>

lemma sv_now_eq:
  "sv_now HE sv = (env_now (he_env HE) (tick (sv_world sv)), sv\<lparr>sv_world := (sv_world sv)\<lparr>tick := Suc (tick (sv_world sv))\<rparr>\<rparr>)"
  by (simp add: with_world_def time_Now_def)

lemma log_at_sel [simp]:
  "sv_world (log_at l ctx msg attrs sv) = sv_world sv" "sv_redis (log_at l ctx msg attrs sv) = sv_redis sv"
  "sv_requests (log_at l ctx msg attrs sv) = sv_requests sv" "sv_draining (log_at l ctx msg attrs sv) = sv_draining sv"
  "sv_durations (log_at l ctx msg attrs sv) = sv_durations sv"
  "sv_visitors (log_at l ctx msg attrs sv) = sv_visitors sv"
  by (simp_all add: log_at_def)

lemma with_worldD: "with_world f sv = (r, sv') \<Longrightarrow> f (sv_world sv) = (r, sv_world sv')"
  by (auto simp: with_world_def split: prod.splits)

lemma Chain_foldr: "Chain mws final = foldr (\<lambda>mw h. mw h) mws final"
  by (simp add: Chain_def foldr_conv_fold)

lemma Chain_simps [simp]: "Chain [] final = final" "Chain (mw # mws) final = mw (Chain mws final)"
  by (simp_all add: Chain_foldr)

lemma mux_find_in: "mux_find mx m p = Some (pt, h, bs) \<Longrightarrow> (pt, h) \<in> set mx"
  by (induction mx) (auto split: option.splits if_splits)

text \<open>Two stores that differ in the index of interactions at most.\<close>

definition only_ticks :: "world \<Rightarrow> world \<Rightarrow> bool" where
  "only_ticks w w' \<longleftrightarrow> w' = w\<lparr>tick := tick w'\<rparr>"

lemma only_ticks_simps [simp]: "only_ticks w w" "only_ticks w (w\<lparr>tick := k\<rparr>)"
  by (simp_all add: only_ticks_def)

lemma only_ticks_trans: "only_ticks w1 w2 \<Longrightarrow> only_ticks w2 w3 \<Longrightarrow> only_ticks w1 w3"
  unfolding only_ticks_def by (metis world.update_convs(7) world.surjective world.select_convs(7))

lemma only_ticks_rows: "only_ticks w w' \<Longrightarrow> same_rows w w' \<and> db_inv w' = db_inv w"
  unfolding only_ticks_def by (metis same_rows_tick db_inv_tick)

text \<open>A server at another index of interactions.\<close>

definition at_tick :: "nat \<Rightarrow> server \<Rightarrow> server" where
  "at_tick k sv = sv\<lparr>sv_world := (sv_world sv)\<lparr>tick := k\<rparr>\<rparr>"

lemma at_tick_sel [simp]:
  "sv_world (at_tick k sv) = (sv_world sv)\<lparr>tick := k\<rparr>" "sv_visitors (at_tick k sv) = sv_visitors sv"
  "sv_redis (at_tick k sv) = sv_redis sv" "sv_log (at_tick k sv) = sv_log sv" "at_tick j (at_tick k sv) = at_tick j sv"
  by (simp_all add: at_tick_def)

lemma at_tick_id: "at_tick (tick (sv_world sv)) sv = sv"
  by (simp add: at_tick_def)

lemma sv_now_tick: "sv_now HE sv = (env_now (he_env HE) (tick (sv_world sv)), at_tick (Suc (tick (sv_world sv))) sv)"
  by (simp add: sv_now_eq at_tick_def)

locale server_relation =
  fixes R :: "server \<Rightarrow> server \<Rightarrow> bool"
  assumes rel_refl: "R sv sv"
    and rel_trans: "R sv1 sv2 \<Longrightarrow> R sv2 sv3 \<Longrightarrow> R sv1 sv3"
    and rel_tick: "R sv (sv\<lparr>sv_world := (sv_world sv)\<lparr>tick := Suc (tick (sv_world sv))\<rparr>\<rparr>)"
    and rel_log: "msg \<noteq> ''request'' \<Longrightarrow> R sv (log_at l ctx msg attrs sv)"
    and rel_visitors: "R sv (sv\<lparr>sv_visitors := vs\<rparr>)"
    and rel_redis: "R sv (sv\<lparr>sv_redis := store\<rparr>)"
begin

lemma rel_now: "sv_now HE sv = (t, sv') \<Longrightarrow> R sv sv'"
  using rel_tick by (auto simp: sv_now_eq)

lemma rel_then_log: "R sv sv' \<Longrightarrow> msg \<noteq> ''request'' \<Longrightarrow> R sv (log_at l ctx msg attrs sv')"
  using rel_trans rel_log by blast

lemma rel_domain_error: "R sv sv' \<Longrightarrow> R sv (snd (writeDomainError HE r err (w, sv')))"
  by (simp add: writeDomainError_def rel_then_log)

subsubsection \<open>Middleware\<close>

lemma keeps_Recover:
  assumes "keeps U R next"
  shows "keeps U R (Recover HE next)"
  by (rule keepsI)
    (auto simp: Recover_def split: prod.splits outcome.splits dest: keepsD [OF assms] intro: rel_then_log)

lemma keeps_SecurityHeaders: "keeps U R next \<Longrightarrow> keeps U R (SecurityHeaders next)"
  by (rule keepsI) (auto simp: SecurityHeaders_def dest: keepsD)

lemma keeps_MaxBodyBytes: "keeps U R next \<Longrightarrow> keeps U R (MaxBodyBytes limit next)"
  by (rule keepsI) (auto simp: MaxBodyBytes_def dest: keepsD)

lemma keeps_CORS: "keeps U R next \<Longrightarrow> keeps U R (CORS origins next)"
  by (rule keepsI) (auto simp: CORS_def Let_def split: if_splits dest: keepsD intro: rel_refl)

lemma keeps_RequestID:
  assumes "keeps U R next"
  shows "keeps U R (RequestID HE next)"
proof (rule keepsI)
  fix r w sv out r' w' sv'
  assume run: "RequestID HE next (r, w, sv) = (out, r', w', sv')" and user: "U (ctx_userID (rq_Context r))"
  obtain i sv1 where gen:
      "(if Header_Get (rq_Header r) requestIDHeader = '''' then generateRequestID HE sv
        else (Header_Get (rq_Header r) requestIDHeader, sv)) = (i, sv1)"
    by (metis surj_pair)
  have "R sv sv1"
    using gen rel_refl rel_tick by (auto simp: generateRequestID_def Let_def split: if_splits sum.splits)
  moreover have "\<exists>r1 w1 out2 r2. next (r1, w1, sv1) = (out2, r2, w', sv') \<and> ctx_userID (rq_Context r1) = ctx_userID (rq_Context r)"
    using run gen
    by (auto simp: RequestID_def WithRequestID_def WithLogger_def Let_def split: prod.splits)
      (fastforce simp: WithRequestID_def WithLogger_def)+
  then have "R sv1 sv'"
    using keepsD [OF assms] user by metis
  ultimately show "R sv sv'"
    by (rule rel_trans)
qed

lemma keeps_Timeout:
  assumes "keeps U R next"
  shows "keeps U R (Timeout HE d next)"
proof (rule keepsI)
  fix r w sv out r' w' sv'
  assume run: "Timeout HE d next (r, w, sv) = (out, r', w', sv')" and user: "U (ctx_userID (rq_Context r))"
  let ?sv1 = "sv\<lparr>sv_world := (sv_world sv)\<lparr>tick := Suc (tick (sv_world sv))\<rparr>\<rparr>"
  obtain out2 r2 w2 sv2 where inner: "next (r, new_writer, ?sv1) = (out2, r2, w2, sv2)"
    by (metis surj_pair)
  have "R ?sv1 sv2"
    using keepsD [OF assms inner user] .
  moreover have "sv' = sv2"
    using run inner by (auto simp: Timeout_def Let_def split: deadline.splits outcome.splits)
  ultimately show "R sv sv'"
    using rel_tick rel_trans by fastforce
qed

lemma rel_script: "run_script HE key sv = (rc, sv') \<Longrightarrow> R sv sv'"
  using rel_tick rel_trans [OF rel_tick rel_redis, of sv]
  by (auto simp: run_script_def Let_def split: prod.splits answer.splits)

lemma rel_allow:
  assumes "backend_allow HE b ip sv = (ra, sv')"
  shows "R sv sv'"
proof (cases b)
  case (inMemoryBackend rps burst)
  obtain t1 sv1 t2 sv2 where now: "sv_now HE sv = (t1, sv1)" "sv_now HE sv1 = (t2, sv2)"
    by (metis surj_pair)
  moreover have "R sv2 sv'"
    using assms inMemoryBackend now rel_visitors
    by (auto simp: backend_allow_def inMemory_allow_def Let_def)
  ultimately show ?thesis
    using rel_now rel_trans by blast
next
  case (redisBackend burst)
  obtain t1 sv1 where now: "sv_now HE sv = (t1, sv1)"
    by (metis surj_pair)
  obtain rc sv2 where script: "run_script HE (redis_key ip t1) sv1 = (rc, sv2)"
    by (metis surj_pair)
  have "sv' = sv2"
    using assms redisBackend now script
    by (auto simp: backend_allow_def redis_allow_def split: sum.splits)
  then show ?thesis
    using rel_trans [OF rel_now [OF now] rel_script [OF script]] by simp
qed

lemma keeps_RateLimiter:
  assumes "keeps U R next"
  shows "keeps U R (RateLimiter_Middleware HE rl next)"
proof (rule keepsI)
  fix r w sv out r' w' sv'
  assume run: "RateLimiter_Middleware HE rl next (r, w, sv) = (out, r', w', sv')" and user: "U (ctx_userID (rq_Context r))"
  obtain ra sv1 where allow: "backend_allow HE (rl_backend rl) (clientIP r) sv = (ra, sv1)"
    by (metis surj_pair)
  consider "sv' = sv1" | sv2 where "R sv1 sv2" "next (r, w, sv2) = (out, r', w', sv')"
  proof (cases ra)
    case (Inl err)
    then show ?thesis
      using run allow rel_then_log [OF rel_refl, of "''rate limiter backend error, allowing request''" sv1] that(2)
      by (auto simp: RateLimiter_Middleware_def)
  next
    case (Inr allowed)
    then show ?thesis
      using run allow rel_refl that by (auto simp: RateLimiter_Middleware_def split: if_splits)
  qed
  then have "R sv1 sv'"
    using rel_refl rel_trans keepsD [OF assms _ user] by cases blast+
  then show "R sv sv'"
    using rel_trans rel_allow [OF allow] by blast
qed

lemma rel_Validate: "with_world (TokenManager_Validate E tm tok) sv = (ru, sv') \<Longrightarrow> R sv sv'"
  using rel_tick [of sv] by (auto simp: with_world_def split: prod.splits dest!: Validate_rows)

lemma keeps_Auth:
  assumes "\<And>uid. keeps (\<lambda>u. u = Some uid) R next"
  shows "keeps U R (Auth HE tm next)"
proof (rule keepsI)
  fix r w sv out r' w' sv'
  assume run: "Auth HE tm next (r, w, sv) = (out, r', w', sv')"
  let ?parts = "strings_SplitN2 CHR '' '' (Header_Get (rq_Header r) ''Authorization'')"
  obtain ru sv1 where val: "with_world (TokenManager_Validate (he_env HE) tm (?parts ! 1)) sv = (ru, sv1)"
    by (metis surj_pair)
  consider "sv' = sv" | "sv' = sv1" | uid r2 where
      "next (r\<lparr>rq_Context := (rq_Context r)\<lparr>ctx_userID := Some uid\<rparr>\<rparr>, w, sv1) = (out, r2, w', sv')"
    using run val by (auto simp: Auth_def Let_def split: if_splits sum.splits prod.splits)
  then show "R sv sv'"
  proof cases
    case 1
    then show ?thesis
      using rel_refl by simp
  next
    case 2
    then show ?thesis
      using rel_Validate [OF val] by simp
  next
    case 3
    then show ?thesis
      using rel_trans [OF rel_Validate [OF val]] keepsD [OF assms 3] by simp
  qed
qed

subsubsection \<open>The mux and the handlers\<close>

lemma keeps_ServeMux:
  assumes "\<And>pt h. (pt, h) \<in> set mx \<Longrightarrow> keeps U R h"
  shows "keeps U R (ServeMux HE mx)"
proof (rule keepsI)
  fix r w sv out r' w' sv'
  assume run: "ServeMux HE mx (r, w, sv) = (out, r', w', sv')" and user: "U (ctx_userID (rq_Context r))"
  consider "sv' = sv" | pt h bs m p where "mux_find mx m p = Some (pt, h, bs)"
      "h (r\<lparr>rq_Pattern := pt_text pt, rq_PathValues := bs\<rparr>, w, sv) = (out, r', w', sv')"
    using run by (auto simp: ServeMux_def Let_def split: if_splits option.splits)
  then show "R sv sv'"
  proof cases
    case 1
    then show ?thesis
      using rel_refl by simp
  next
    case 2
    then show ?thesis
      using keepsD [OF assms [OF mux_find_in [OF 2(1)]] 2(2)] user by simp
  qed
qed

lemma keeps_Health: "keeps U R (Health HE v)"
  by (rule keepsI) (auto simp: Health_def intro: rel_refl)

lemma rel_Ping: "with_world (db_Ping HE) sv = (y, sv') \<Longrightarrow> R sv sv'"
  using rel_tick by (auto simp: with_world_def db_Ping_def db_call_def Let_def split: answer.splits)

lemma keeps_Ready: "keeps U R (Ready HE v)"
proof (rule keepsI)
  fix r w sv out r' w' sv'
  assume run: "Ready HE v (r, w, sv) = (out, r', w', sv')"
  obtain x sv1 where ping: "with_world (db_Ping HE) sv = (x, sv1)"
    by (metis surj_pair)
  have "sv' = sv \<or> sv' = sv1"
    using run ping by (auto simp: Ready_def split: if_splits sum.splits)
  then show "R sv sv'"
    using rel_refl rel_Ping [OF ping] by auto
qed

text \<open>What the service operations do, the handlers do: each calls at most one of them.\<close>

lemma keeps_Signup:
  assumes "\<And>a b sv y v'. AuthService_Signup (he_env HE) (ah_auth h) a b (sv_world sv) = (y, v') \<Longrightarrow> R sv (sv\<lparr>sv_world := v'\<rparr>)"
  shows "keeps U R (AuthHandler_Signup HE h)"
  by (rule keepsI_snd)
    (auto simp: AuthHandler_Signup_def with_world_def intro: rel_refl assms intro!: rel_domain_error
      split: option.splits prod.splits sum.splits)

lemma keeps_Login:
  assumes "\<And>a b sv y v'. AuthService_Login (he_env HE) (ah_auth h) a b (sv_world sv) = (y, v') \<Longrightarrow> R sv (sv\<lparr>sv_world := v'\<rparr>)"
  shows "keeps U R (AuthHandler_Login HE h)"
  by (rule keepsI_snd)
    (auto simp: AuthHandler_Login_def with_world_def intro: rel_refl assms intro!: rel_domain_error
      split: option.splits prod.splits sum.splits)

lemma keeps_Refresh:
  assumes "\<And>a sv y v'. AuthService_Refresh (he_env HE) (ah_auth h) a (sv_world sv) = (y, v') \<Longrightarrow> R sv (sv\<lparr>sv_world := v'\<rparr>)"
  shows "keeps U R (AuthHandler_Refresh HE h)"
  by (rule keepsI_snd)
    (auto simp: AuthHandler_Refresh_def with_world_def intro: rel_refl assms intro!: rel_domain_error
      split: option.splits prod.splits sum.splits)

lemma keeps_Logout:
  assumes "\<And>a sv y v'. AuthService_Logout (he_env HE) (ah_auth h) a (sv_world sv) = (y, v') \<Longrightarrow> R sv (sv\<lparr>sv_world := v'\<rparr>)"
  shows "keeps U R (AuthHandler_Logout HE h)"
  by (rule keepsI_snd)
    (auto simp: AuthHandler_Logout_def with_world_def intro: rel_refl assms intro!: rel_domain_error
      split: option.splits prod.splits sum.splits)

lemma keeps_Create:
  assumes "\<And>uid a b c sv y v'. U (Some uid) \<Longrightarrow> TaskService_Create (th_tasks h) uid a b c (sv_world sv) = (y, v') \<Longrightarrow>
    R sv (sv\<lparr>sv_world := v'\<rparr>)"
  shows "keeps U R (TaskHandler_Create HE h)"
  by (rule keepsI_snd)
    (auto simp: TaskHandler_Create_def currentUserID_def UserIDFromContext_def with_world_def Let_def
      intro: rel_refl assms intro!: rel_domain_error split: option.splits prod.splits sum.splits)

lemma keeps_List:
  assumes "\<And>uid a b c sv y v'. U (Some uid) \<Longrightarrow> TaskService_List (th_tasks h) uid a b c (sv_world sv) = (y, v') \<Longrightarrow>
    R sv (sv\<lparr>sv_world := v'\<rparr>)"
  shows "keeps U R (TaskHandler_List HE h)"
  by (rule keepsI_snd)
    (auto simp: TaskHandler_List_def currentUserID_def UserIDFromContext_def with_world_def Let_def
      intro: rel_refl assms intro!: rel_domain_error split: option.splits prod.splits sum.splits)

lemma keeps_Get:
  assumes "\<And>uid a sv y v'. U (Some uid) \<Longrightarrow> TaskService_Get (th_tasks h) uid a (sv_world sv) = (y, v') \<Longrightarrow>
    R sv (sv\<lparr>sv_world := v'\<rparr>)"
  shows "keeps U R (TaskHandler_Get HE h)"
  by (rule keepsI_snd)
    (auto simp: TaskHandler_Get_def currentUserID_def UserIDFromContext_def with_world_def Let_def
      intro: rel_refl assms intro!: rel_domain_error split: option.splits prod.splits sum.splits)

lemma keeps_Update:
  assumes "\<And>uid i a b c e sv y v'. U (Some uid) \<Longrightarrow> TaskService_Update (he_env HE) (th_tasks h) uid i a b c e (sv_world sv) = (y, v') \<Longrightarrow>
    R sv (sv\<lparr>sv_world := v'\<rparr>)"
  shows "keeps U R (TaskHandler_Update HE h)"
  by (rule keepsI_snd)
    (auto simp: TaskHandler_Update_def currentUserID_def UserIDFromContext_def with_world_def Let_def
      intro: rel_refl assms intro!: rel_domain_error split: option.splits prod.splits sum.splits)

lemma keeps_Delete:
  assumes "\<And>uid a sv y v'. U (Some uid) \<Longrightarrow> TaskService_Delete (th_tasks h) uid a (sv_world sv) = (y, v') \<Longrightarrow>
    R sv (sv\<lparr>sv_world := v'\<rparr>)"
  shows "keeps U R (TaskHandler_Delete HE h)"
  by (rule keepsI_snd)
    (auto simp: TaskHandler_Delete_def currentUserID_def UserIDFromContext_def with_world_def Let_def
      intro: rel_refl assms intro!: rel_domain_error split: option.splits prod.splits sum.splits)

subsubsection \<open>The routes\<close>

text \<open>A request that has passed \<open>Auth\<close> as user \<open>uid\<close>, when the task service keeps \<open>R\<close> for that user.\<close>

lemma keeps_protected:
  assumes "\<And>uid a b c sv y v'. U (Some uid) \<Longrightarrow> TaskService_Create (dp_Task d) uid a b c (sv_world sv) = (y, v') \<Longrightarrow>
      R sv (sv\<lparr>sv_world := v'\<rparr>)"
    and "\<And>uid a b c sv y v'. U (Some uid) \<Longrightarrow> TaskService_List (dp_Task d) uid a b c (sv_world sv) = (y, v') \<Longrightarrow>
      R sv (sv\<lparr>sv_world := v'\<rparr>)"
    and "\<And>uid a sv y v'. U (Some uid) \<Longrightarrow> TaskService_Get (dp_Task d) uid a (sv_world sv) = (y, v') \<Longrightarrow>
      R sv (sv\<lparr>sv_world := v'\<rparr>)"
    and "\<And>uid i a b c e sv y v'. U (Some uid) \<Longrightarrow> TaskService_Update (he_env HE) (dp_Task d) uid i a b c e (sv_world sv) = (y, v') \<Longrightarrow>
      R sv (sv\<lparr>sv_world := v'\<rparr>)"
    and "\<And>uid a sv y v'. U (Some uid) \<Longrightarrow> TaskService_Delete (dp_Task d) uid a (sv_world sv) = (y, v') \<Longrightarrow>
      R sv (sv\<lparr>sv_world := v'\<rparr>)"
  shows "keeps U R (ServeMux HE (protected_routes HE d))"
proof (rule keeps_ServeMux)
  fix pt h
  assume "(pt, h) \<in> set (protected_routes HE d)"
  then consider "h = TaskHandler_Create HE (NewTaskHandler (dp_Task d))" | "h = TaskHandler_List HE (NewTaskHandler (dp_Task d))"
    | "h = TaskHandler_Get HE (NewTaskHandler (dp_Task d))" | "h = TaskHandler_Update HE (NewTaskHandler (dp_Task d))"
    | "h = TaskHandler_Delete HE (NewTaskHandler (dp_Task d))"
    by (auto simp: protected_routes_def route_def Let_def)
  then show "keeps U R h"
  proof cases
    case 1
    show ?thesis
      unfolding 1 by (rule keeps_Create) (use assms(1) in \<open>auto simp: NewTaskHandler_def\<close>)
  next
    case 2
    show ?thesis
      unfolding 2 by (rule keeps_List) (use assms(2) in \<open>auto simp: NewTaskHandler_def\<close>)
  next
    case 3
    show ?thesis
      unfolding 3 by (rule keeps_Get) (use assms(3) in \<open>auto simp: NewTaskHandler_def\<close>)
  next
    case 4
    show ?thesis
      unfolding 4 by (rule keeps_Update) (use assms(4) in \<open>auto simp: NewTaskHandler_def\<close>)
  next
    case 5
    show ?thesis
      unfolding 5 by (rule keeps_Delete) (use assms(5) in \<open>auto simp: NewTaskHandler_def\<close>)
  qed
qed

lemma keeps_api:
  assumes "\<And>a b sv y v'. AuthService_Signup (he_env HE) (dp_Auth d) a b (sv_world sv) = (y, v') \<Longrightarrow> R sv (sv\<lparr>sv_world := v'\<rparr>)"
    and "\<And>a b sv y v'. AuthService_Login (he_env HE) (dp_Auth d) a b (sv_world sv) = (y, v') \<Longrightarrow> R sv (sv\<lparr>sv_world := v'\<rparr>)"
    and "\<And>a sv y v'. AuthService_Refresh (he_env HE) (dp_Auth d) a (sv_world sv) = (y, v') \<Longrightarrow> R sv (sv\<lparr>sv_world := v'\<rparr>)"
    and "\<And>a sv y v'. AuthService_Logout (he_env HE) (dp_Auth d) a (sv_world sv) = (y, v') \<Longrightarrow> R sv (sv\<lparr>sv_world := v'\<rparr>)"
    and protected: "\<And>uid. keeps (\<lambda>u. u = Some uid) R (ServeMux HE (protected_routes HE d))"
  shows "keeps U R (api_handler HE d rl)"
proof -
  let ?ah = "NewAuthHandler (dp_Auth d)"
  have "keeps U R h" if "(pt, h) \<in> set (api_routes HE d)" for pt h
  proof -
    from that consider "h = AuthHandler_Signup HE ?ah" | "h = AuthHandler_Login HE ?ah"
      | "h = AuthHandler_Refresh HE ?ah" | "h = AuthHandler_Logout HE ?ah"
      | "h = Auth HE (dp_Tokens d) (ServeMux HE (protected_routes HE d))"
      by (auto simp: api_routes_def route_def Let_def)
    then show ?thesis
      using keeps_Signup [of HE ?ah U, OF assms(1)] keeps_Login [of HE ?ah U, OF assms(2)]
        keeps_Refresh [of HE ?ah U, OF assms(3)] keeps_Logout [of HE ?ah U, OF assms(4)] keeps_Auth [OF protected]
      by cases (simp_all add: NewAuthHandler_def)
  qed
  then have "keeps U R (ServeMux HE (api_routes HE d))"
    by (rule keeps_ServeMux)
  then show ?thesis
    by (simp add: api_handler_def keeps_CORS keeps_MaxBodyBytes keeps_RateLimiter keeps_Timeout)
qed

lemma keeps_root:
  assumes "keeps U R (api_handler HE d rl)" and "keeps U R (he_promhttp HE)"
  shows "keeps U R (ServeMux HE (root_routes HE d rl))"
proof (rule keeps_ServeMux)
  fix pt h
  assume "(pt, h) \<in> set (root_routes HE d rl)"
  then show "keeps U R h"
    using assms keeps_Health keeps_Ready by (auto simp: root_routes_def route_def)
qed

end

locale counting_relation = server_relation +
  assumes rel_count: "R sv (sv\<lparr>sv_requests := rqs, sv_durations := ds\<rparr>)"
    and rel_access: "R sv (log_at l ctx ''request'' attrs sv)"
begin

lemma keeps_Logging:
  assumes "keeps U R next"
  shows "keeps U R (Logging HE next)"
proof (rule keepsI)
  fix r w sv out r' w' sv'
  assume run: "Logging HE next (r, w, sv) = (out, r', w', sv')" and user: "U (ctx_userID (rq_Context r))"
  obtain t sv1 where now: "sv_now HE sv = (t, sv1)"
    by fastforce
  obtain out2 r2 w2 sv2 where inner: "next (r, push_recorder w, sv1) = (out2, r2, w2, sv2)"
    by (metis surj_pair)
  have "R sv sv2"
    using rel_trans [OF rel_now [OF now] keepsD [OF assms inner user]] .
  moreover have "R sv2 sv'"
    using run now inner rel_refl rel_tick
    by (auto simp: Logging_def sv_now_eq split: prod.splits outcome.splits intro: rel_trans [OF rel_tick rel_access])
  ultimately show "R sv sv'"
    by (rule rel_trans)
qed

lemma keeps_Metrics:
  assumes "keeps U R next"
  shows "keeps U R (Metrics HE next)"
proof (rule keepsI)
  fix r w sv out r' w' sv'
  assume run: "Metrics HE next (r, w, sv) = (out, r', w', sv')" and user: "U (ctx_userID (rq_Context r))"
  obtain t sv1 where now: "sv_now HE sv = (t, sv1)"
    by fastforce
  obtain out2 r2 w2 sv2 where inner: "next (r, push_recorder w, sv1) = (out2, r2, w2, sv2)"
    by (metis surj_pair)
  have "R sv sv2"
    using rel_trans [OF rel_now [OF now] keepsD [OF assms inner user]] .
  moreover have "R sv2 sv'"
    using run now inner rel_refl rel_trans [OF rel_tick rel_count]
    by (auto simp: Metrics_def sv_now_eq Let_def split: prod.splits outcome.splits)
  ultimately show "R sv sv'"
    by (rule rel_trans)
qed

lemma keeps_handler_chain:
  assumes "keeps U R (api_handler HE d rl)" and "keeps U R (he_promhttp HE)"
  shows "keeps U R (handler_chain HE d rl)"
  using keeps_root [OF assms]
  by (simp add: handler_chain_def keeps_RequestID keeps_Logging keeps_Recover keeps_Metrics keeps_SecurityHeaders)

end

subsection \<open>Relations\<close>

text \<open>The steps of the system.\<close>

interpretation steps: counting_relation "\<lambda>sv sv'. db_steps E (sv_world sv) (sv_world sv')" for E
  by unfold_locales (auto intro: db_step.outside)

text \<open>The services of a process are those of \<open>new_deps\<close>.\<close>

lemma new_deps_sel [simp]:
  "dp_Auth (new_deps HE cfg) =
     authService (he_env HE) (NewTokenManager (cf_JWTSecret cfg) (cf_JWTExpiresIn cfg)) (cf_RefreshTokenTTL cfg)"
  "dp_Task (new_deps HE cfg) = taskService (he_env HE)"
  "dp_Tokens (new_deps HE cfg) = NewTokenManager (cf_JWTSecret cfg) (cf_JWTExpiresIn cfg)"
  "dp_Config (new_deps HE cfg) = cfg" "dp_BuildVersion (new_deps HE cfg) = Version"
  by (simp_all add: new_deps_def Let_def)

abbreviation steps_of :: "henv \<Rightarrow> server \<Rightarrow> server \<Rightarrow> bool" where
  "steps_of HE sv sv' \<equiv> db_steps (he_env HE) (sv_world sv) (sv_world sv')"

lemma protected_are_steps: "keeps U (steps_of HE) (ServeMux HE (protected_routes HE (new_deps HE cfg)))"
  by (rule steps.keeps_protected)
    (use create_steps list_steps get_steps update_steps delete_steps in \<open>auto simp: r_into_rtranclp\<close>)

lemma handler_chain_steps:
  assumes "keeps U (steps_of HE) (he_promhttp HE)"
  shows "keeps U (steps_of HE) (handler_chain HE (new_deps HE cfg) rl)"
proof -
  have "keeps U (steps_of HE) (api_handler HE (new_deps HE cfg) rl)"
    by (rule steps.keeps_api)
      (use signup_steps login_steps refresh_steps logout_steps protected_are_steps in simp_all)
  then show ?thesis
    using assms by (rule steps.keeps_handler_chain)
qed

text \<open>What the requests of one user may do to a sound store.\<close>

definition confined :: "int64 \<Rightarrow> server \<Rightarrow> server \<Rightarrow> bool" where
  "confined uid sv sv' \<longleftrightarrow>
     (db_inv (sv_world sv) \<longrightarrow> db_inv (sv_world sv') \<and> others_kept uid (sv_world sv) (sv_world sv'))"

interpretation user: counting_relation "confined uid" for uid
  by unfold_locales (auto simp: confined_def others_kept_def)

lemma protected_confined_user:
  "keeps (\<lambda>u. u = Some uid) (confined uid) (ServeMux HE (protected_routes HE (new_deps HE cfg)))"
proof (rule user.keeps_protected)
  fix uid' a y v' and sv :: server
  assume "Some uid' = Some uid" and "TaskService_Get (dp_Task (new_deps HE cfg)) uid' a (sv_world sv) = (y, v')"
  then show "confined uid sv (sv\<lparr>sv_world := v'\<rparr>)"
    using pg_task.get_rows others_kept_same_rows by (fastforce simp: confined_def)
next
  fix uid' a b c y v' and sv :: server
  assume "Some uid' = Some uid" and "TaskService_List (dp_Task (new_deps HE cfg)) uid' a b c (sv_world sv) = (y, v')"
  then show "confined uid sv (sv\<lparr>sv_world := v'\<rparr>)"
    using pg_task.list_step others_kept_same_rows by (fastforce simp: confined_def)
qed (use pg_task.create_step pg_task.update_step pg_task.delete_step in \<open>auto simp: confined_def\<close>)

text \<open>No request changes the draining flag; below \<open>Metrics\<close> none is counted.\<close>

interpretation flag: counting_relation "\<lambda>sv sv'. sv_draining sv' = sv_draining sv"
  by unfold_locales auto

lemma handler_chain_draining:
  assumes "keeps U (\<lambda>sv sv'. sv_draining sv' = sv_draining sv) (he_promhttp HE)"
  shows "keeps U (\<lambda>sv sv'. sv_draining sv' = sv_draining sv) (handler_chain HE d rl)"
  by (rule flag.keeps_handler_chain [OF flag.keeps_api assms]) (simp_all add: flag.keeps_protected)

text \<open>Below \<open>Logging\<close> no access line is written.\<close>

definition no_access_line :: "server \<Rightarrow> server \<Rightarrow> bool" where
  "no_access_line sv sv' \<longleftrightarrow> (\<exists>ls. sv_log sv' = sv_log sv @ ls \<and> list_all (\<lambda>l. log_msg l \<noteq> ''request'') ls)"

interpretation quiet: server_relation no_access_line
proof (unfold_locales, goal_cases)
  case (2 sv1 sv2 sv3)
  then show ?case
    by (fastforce simp: no_access_line_def)
qed (auto simp: no_access_line_def log_at_def)

lemma root_quiet:
  assumes "keeps U no_access_line (he_promhttp HE)"
  shows "keeps U no_access_line (ServeMux HE (root_routes HE d rl))"
  by (rule quiet.keeps_root [OF quiet.keeps_api assms]) (auto simp: no_access_line_def intro!: quiet.keeps_protected)

definition same_counts :: "server \<Rightarrow> server \<Rightarrow> bool" where
  "same_counts sv sv' \<longleftrightarrow> sv_requests sv' = sv_requests sv \<and> sv_durations sv' = sv_durations sv"

lemma same_counts_refl [simp]: "same_counts sv sv"
  by (simp add: same_counts_def)

interpretation count: server_relation same_counts
  by unfold_locales (auto simp: same_counts_def)

lemma root_counts_nothing:
  assumes "keeps U same_counts (he_promhttp HE)"
  shows "keeps U same_counts (ServeMux HE (root_routes HE d rl))"
  by (rule count.keeps_root [OF count.keeps_api assms]) (auto simp: same_counts_def intro!: count.keeps_protected)

end
