(* ===== verification/Responses.thy ===== *)
theory Responses
  imports HttpFrame
begin

text \<open>
  What a handler writes.  \<open>answers Pre Post h\<close> says that \<open>h\<close>, given a writer that satisfies \<open>Pre\<close>, returns
  without panicking and leaves one that satisfies \<open>Post\<close>.  The
  locale \<open>responder\<close> collects what \<open>Pre\<close> and \<open>Post\<close> must satisfy for all handlers of the API to have this
  property, \<open>timed_responder\<close> what they must satisfy below \<open>TimeoutHandler\<close> and for the whole tree
  of routes; each is proved once and interpreted for several contracts: the headers every response
  carries, the status the recorders note, the bodies of server errors.
\<close>

definition answers :: "(ResponseWriter \<Rightarrow> bool) \<Rightarrow> (ResponseWriter \<Rightarrow> bool) \<Rightarrow> handler \<Rightarrow> bool" where
  "answers Pre Post h \<longleftrightarrow>
     (\<forall>r w sv out r' w' sv'. h (r, w, sv) = (out, r', w', sv') \<longrightarrow> Pre w \<longrightarrow>
        out = Returned \<and> Post w')"

lemma answersI:
  "(\<And>r w sv out r' w' sv'. h (r, w, sv) = (out, r', w', sv') \<Longrightarrow> Pre w \<Longrightarrow>
      out = Returned \<and> Post w') \<Longrightarrow> answers Pre Post h"
  by (auto simp: answers_def)

lemma answersD:
  "answers Pre Post h \<Longrightarrow> h (r, w, sv) = (out, r', w', sv') \<Longrightarrow> Pre w \<Longrightarrow>
     out = Returned \<and> Post w'"
  unfolding answers_def by blast

text \<open>For a handler that does not panic it is enough to look at the writer.\<close>

lemma answers_direct:
  "(\<And>r w sv. Pre w \<Longrightarrow> fst (h (r, w, sv)) = Returned \<and> Post (fst (snd (snd (h (r, w, sv)))))) \<Longrightarrow> answers Pre Post h"
proof (rule answersI)
  fix r w sv out r' w' sv'
  assume direct: "\<And>r w sv. Pre w \<Longrightarrow> fst (h (r, w, sv)) = Returned \<and> Post (fst (snd (snd (h (r, w, sv)))))"
    and "h (r, w, sv) = (out, r', w', sv')" and "Pre w"
  then have "out = Returned" and "Post w'"
    using direct [of w r sv] by simp_all
  then show "out = Returned \<and> Post w'"
    by simp
qed

locale responder =
  fixes HE :: henv and Pre Post :: "ResponseWriter \<Rightarrow> bool"
  assumes json: "s < 500 \<Longrightarrow> Pre w \<Longrightarrow> Post (response_JSON HE s p w)"
    and internal: "Pre w \<Longrightarrow> Post (response_Error HE r 500 CodeInternal ''internal server error'' w)"
    and plain: "s < 500 \<Longrightarrow> Pre w \<Longrightarrow> Post (http_Error HE s msg w)"
    and redirect: "Pre w \<Longrightarrow> Post (http_Redirect HE url w)"
    and allow: "Pre w \<Longrightarrow> Pre (set_header ''Allow'' ms w)"
begin

lemma error: "s < 500 \<Longrightarrow> Pre w \<Longrightarrow> Post (response_Error HE r s code msg w)"
  by (simp add: response_Error_def json)

lemma domain_error: "Pre w \<Longrightarrow> Post (fst (writeDomainError HE r err (w, sv)))"
  by (simp add: writeDomainError_def error internal)

lemmas written = json error internal domain_error

lemma answers_Signup: "answers Pre Post (AuthHandler_Signup HE h)"
  by (rule answers_direct)
    (auto simp: AuthHandler_Signup_def written split: option.splits prod.splits sum.splits)

lemma answers_Login: "answers Pre Post (AuthHandler_Login HE h)"
  by (rule answers_direct)
    (auto simp: AuthHandler_Login_def written split: option.splits prod.splits sum.splits)

lemma answers_Refresh: "answers Pre Post (AuthHandler_Refresh HE h)"
  by (rule answers_direct)
    (auto simp: AuthHandler_Refresh_def written split: option.splits prod.splits sum.splits)

lemma answers_Logout: "answers Pre Post (AuthHandler_Logout HE h)"
  by (rule answers_direct)
    (auto simp: AuthHandler_Logout_def written split: option.splits prod.splits sum.splits)

lemmas task_handler_defs = TaskHandler_Create_def TaskHandler_List_def TaskHandler_Get_def
  TaskHandler_Update_def TaskHandler_Delete_def currentUserID_def Let_def

lemma answers_Create: "answers Pre Post (TaskHandler_Create HE h)"
  by (rule answers_direct)
    (auto simp: task_handler_defs written split: option.splits prod.splits sum.splits)

lemma answers_List: "answers Pre Post (TaskHandler_List HE h)"
  by (rule answers_direct)
    (auto simp: task_handler_defs written split: option.splits prod.splits sum.splits)

lemma answers_Get: "answers Pre Post (TaskHandler_Get HE h)"
  by (rule answers_direct)
    (auto simp: task_handler_defs written split: option.splits prod.splits sum.splits)

lemma answers_Update: "answers Pre Post (TaskHandler_Update HE h)"
  by (rule answers_direct)
    (auto simp: task_handler_defs written split: option.splits prod.splits sum.splits)

lemma answers_Delete: "answers Pre Post (TaskHandler_Delete HE h)"
  by (rule answers_direct)
    (auto simp: task_handler_defs written split: option.splits prod.splits sum.splits)

lemma answers_ServeMux:
  assumes "\<And>pt h. (pt, h) \<in> set mx \<Longrightarrow> answers Pre Post h"
  shows "answers Pre Post (ServeMux HE mx)"
proof (rule answersI)
  fix r w sv out r' w' sv'
  assume run: "ServeMux HE mx (r, w, sv) = (out, r', w', sv')" and pre: "Pre w"
  consider (own) "out = Returned" "Post w'" | (handler) pt h bs m p where "mux_find mx m p = Some (pt, h, bs)"
      "h (r\<lparr>rq_Pattern := pt_text pt, rq_PathValues := bs\<rparr>, w, sv) = (out, r', w', sv')"
    using run redirect [OF pre] plain [of 405, OF _ allow [OF pre]] plain [of 404, OF _ pre]
    by (auto simp: ServeMux_def Let_def split: if_splits option.splits)
  then show "out = Returned \<and> Post w'"
  proof cases
    case handler
    then show ?thesis
      using answersD [OF assms [OF mux_find_in [OF handler(1)]] handler(2) pre] by simp
  qed simp
qed

lemma answers_Auth:
  assumes "answers Pre Post next"
  shows "answers Pre Post (Auth HE tm next)"
proof (rule answersI)
  fix r w sv out r' w' sv'
  assume run: "Auth HE tm next (r, w, sv) = (out, r', w', sv')" and pre: "Pre w"
  consider (own) "out = Returned" "Post w'" | (handler) r1 sv1 r2 where "next (r1, w, sv1) = (out, r2, w', sv')"
    using run error [OF _ pre] by (auto simp: Auth_def Let_def split: if_splits sum.splits prod.splits)
  then show "out = Returned \<and> Post w'"
    by cases (use answersD [OF assms _ pre] in auto)
qed

lemma answers_protected: "answers Pre Post (ServeMux HE (protected_routes HE d))"
  by (rule answers_ServeMux)
    (auto simp: protected_routes_def route_def Let_def answers_Create answers_List answers_Get answers_Update
      answers_Delete)

lemma answers_api: "answers Pre Post (ServeMux HE (api_routes HE d))"
  by (rule answers_ServeMux)
    (auto simp: api_routes_def route_def Let_def answers_Signup answers_Login answers_Refresh answers_Logout
      answers_Auth answers_protected)

end

text \<open>
  Around the API mux the response is copied from the writer of \<open>TimeoutHandler\<close>, for which the contract
  is \<open>PreI\<close> and \<open>PostI\<close>.
\<close>

locale timed_responder = responder HE Pre Post + inner: responder HE PreI PostI for HE Pre Post PreI PostI +
  assumes fresh: "PreI new_writer"
    and copied: "Pre w \<Longrightarrow> PostI tw \<Longrightarrow>
      Post (fold (Write (he_Encode HE)) (rw_body tw) (WriteHeader (status_of tw) (copy_headers (rw_Header tw) w)))"
    and timed_out: "Pre w \<Longrightarrow> Post (Write (he_Encode HE) (P_Text timeout_body) (WriteHeader 503 w))"
    and gone: "Pre w \<Longrightarrow> Post (WriteHeader 503 w)"
    and preflight: "Pre w \<Longrightarrow> Post (WriteHeader 204 w)"
    and cors: "k \<in> {''Access-Control-Max-Age'', ''Access-Control-Allow-Headers'', ''Access-Control-Allow-Methods'',
      ''Vary'', ''Access-Control-Allow-Origin''} \<Longrightarrow> Pre w \<Longrightarrow> Pre (set_header k v w)"
    and probe: "Pre w \<Longrightarrow> Post (response_JSON HE 503 (Some (P_Map m)) w)"
begin

lemma answers_Timeout:
  assumes "answers PreI PostI next"
  shows "answers Pre Post (Timeout HE d next)"
proof (rule answersI)
  fix r w sv out r' w' sv'
  assume run: "Timeout HE d next (r, w, sv) = (out, r', w', sv')" and pre: "Pre w"
  obtain out2 r2 tw sv2 where inner:
      "next (r, new_writer, sv\<lparr>sv_world := (sv_world sv)\<lparr>tick := Suc (tick (sv_world sv))\<rparr>\<rparr>) = (out2, r2, tw, sv2)"
    by (metis surj_pair)
  show "out = Returned \<and> Post w'"
    using run inner pre copied [OF pre, of tw] timed_out [OF pre] gone [OF pre] answersD [OF assms inner fresh]
    by (auto simp: Timeout_def Let_def split: deadline.splits outcome.splits)
qed

lemma answers_RateLimiter:
  assumes "answers Pre Post next"
  shows "answers Pre Post (RateLimiter_Middleware HE rl next)"
proof (rule answersI)
  fix r w sv out r' w' sv'
  assume run: "RateLimiter_Middleware HE rl next (r, w, sv) = (out, r', w', sv')" and pre: "Pre w"
  consider (own) "out = Returned" "Post w'" | (handler) sv1 where "next (r, w, sv1) = (out, r', w', sv')"
    using run error [OF _ pre] by (auto simp: RateLimiter_Middleware_def split: if_splits sum.splits prod.splits)
  then show "out = Returned \<and> Post w'"
    by cases (use answersD [OF assms _ pre] in auto)
qed

lemma answers_CORS:
  assumes "answers Pre Post next"
  shows "answers Pre Post (CORS origins next)"
proof (rule answersI)
  fix r w sv out r' w' sv'
  assume run: "CORS origins next (r, w, sv) = (out, r', w', sv')" and pre: "Pre w"
  have marked: "Pre (set_header ''Access-Control-Max-Age'' a
      (set_header ''Access-Control-Allow-Headers'' b (set_header ''Access-Control-Allow-Methods'' c
        (set_header ''Vary'' d (set_header ''Access-Control-Allow-Origin'' e w)))))" for a b c d e
    using pre by (intro cors) simp_all
  show "out = Returned \<and> Post w'"
    using run pre preflight marked answersD [OF assms]
    by (auto simp: CORS_def Let_def split: if_splits)
qed

lemma answers_MaxBodyBytes: "answers Pre Post next \<Longrightarrow> answers Pre Post (MaxBodyBytes limit next)"
  by (rule answersI) (auto simp: MaxBodyBytes_def dest: answersD)

lemma answers_api_handler: "answers Pre Post (api_handler HE d rl)"
  by (simp add: api_handler_def answers_CORS answers_MaxBodyBytes answers_RateLimiter answers_Timeout
      inner.answers_api)

lemma answers_Health: "answers Pre Post (Health HE v)"
  by (rule answers_direct) (simp add: Health_def json)

lemma answers_Ready: "answers Pre Post (Ready HE v)"
  by (rule answers_direct) (auto simp: Ready_def json probe split: prod.splits sum.splits)

lemma answers_root:
  assumes "answers Pre Post (he_promhttp HE)"
  shows "answers Pre Post (ServeMux HE (root_routes HE d rl))"
  by (rule answers_ServeMux)
    (use assms in \<open>auto simp: root_routes_def route_def answers_Health answers_Ready answers_api_handler\<close>)

end

subsection \<open>Headers that no handler takes away\<close>

definition other_headers :: "string set" where
  "other_headers = CanonicalHeaderKey ` {''Content-Type'', ''Allow'', ''Location'', ''Access-Control-Max-Age'',
     ''Access-Control-Allow-Headers'', ''Access-Control-Allow-Methods'', ''Vary'', ''Access-Control-Allow-Origin''}"

text \<open>Header \<open>K\<close> is set to \<open>v\<close>, also in what was sent; at most set to \<open>v\<close>.\<close>

definition has_header :: "string \<Rightarrow> string \<Rightarrow> ResponseWriter \<Rightarrow> bool" where
  "has_header K v w \<longleftrightarrow>
     map_of (rw_Header w) K = Some v \<and> (\<forall>status h. rw_sent w = Some (status, h) \<longrightarrow> map_of h K = Some v)"

definition no_other :: "string \<Rightarrow> string \<Rightarrow> ResponseWriter \<Rightarrow> bool" where
  "no_other K v w \<longleftrightarrow> (\<forall>x. map_of (rw_Header w) K = Some x \<longrightarrow> x = v)"

lemma map_of_Header_Set:
  "map_of (Header_Set k v h) K = (if K = CanonicalHeaderKey k then Some v else map_of h K)"
proof (cases "K = CanonicalHeaderKey k")
  case False
  then have "map_of (filter (\<lambda>(x, _). x \<noteq> CanonicalHeaderKey k) h) K = map_of h K"
    by (induction h) auto
  then show ?thesis
    using False by (simp add: Header_Set_def)
qed (simp add: Header_Set_def)

lemma has_header_set: "has_header K v w \<Longrightarrow> CanonicalHeaderKey k = K \<Longrightarrow> x = v \<Longrightarrow> has_header K v (set_header k x w)"
  "has_header K v w \<Longrightarrow> CanonicalHeaderKey k \<noteq> K \<Longrightarrow> has_header K v (set_header k x w)"
  by (auto simp: has_header_def map_of_Header_Set)

lemma has_header_written:
  "has_header K v w \<Longrightarrow> has_header K v (WriteHeader s w)"
  "has_header K v w \<Longrightarrow> has_header K v (Write f p w)"
  by (auto simp: has_header_def split: option.splits)

lemma has_header_writes: "has_header K v w \<Longrightarrow> has_header K v (fold (Write f) ps w)"
  by (induction ps arbitrary: w) (auto simp: has_header_written)

lemma no_other_written:
  "no_other K v (WriteHeader s w) = no_other K v w" "no_other K v (Write f p w) = no_other K v w"
  by (simp_all add: no_other_def)

lemma no_other_set: "no_other K v w \<Longrightarrow> CanonicalHeaderKey k \<noteq> K \<or> x = v \<Longrightarrow> no_other K v (set_header k x w)"
  by (auto simp: no_other_def map_of_Header_Set)

lemma map_of_copied:
  fixes h old :: Header
  shows "map_of (foldr (\<lambda>(k, v) acc. (k, v) # filter (\<lambda>(k', _). k' \<noteq> k) acc) h old) K =
     (case map_of h K of Some v \<Rightarrow> Some v | None \<Rightarrow> map_of old K)"
proof (induction h)
  case (Cons kv h)
  have kept: "map_of (filter (\<lambda>(k', _). k' \<noteq> k) xs) K = map_of xs K" if "k \<noteq> K" for k and xs :: Header
    using that by (induction xs) auto
  show ?case
    using Cons by (cases kv) (simp add: kept)
qed simp

lemma has_header_copied: "has_header K v w \<Longrightarrow> no_other K v tw \<Longrightarrow> has_header K v (copy_headers (rw_Header tw) w)"
  by (auto simp: has_header_def no_other_def copy_headers_def map_of_copied split: option.splits)

locale guarded_header =
  fixes HE :: henv and K v :: string
  assumes guarded: "K \<notin> other_headers"
    and nosniff: "K = CanonicalHeaderKey ''X-Content-Type-Options'' \<Longrightarrow> v = ''nosniff''"
begin

lemma has_other: "has_header K v w \<Longrightarrow> CanonicalHeaderKey k \<in> other_headers \<Longrightarrow> has_header K v (set_header k x w)"
  by (rule has_header_set(2), assumption) (use guarded in auto)

lemma no_other_other: "no_other K v w \<Longrightarrow> CanonicalHeaderKey k \<in> other_headers \<Longrightarrow> no_other K v (set_header k x w)"
  by (rule no_other_set, assumption) (use guarded in auto)

lemma has_nosniff: "has_header K v w \<Longrightarrow> has_header K v (set_header ''X-Content-Type-Options'' ''nosniff'' w)"
  using nosniff has_header_set by metis

lemma no_other_nosniff: "no_other K v w \<Longrightarrow> no_other K v (set_header ''X-Content-Type-Options'' ''nosniff'' w)"
  using nosniff by (intro no_other_set) auto

lemma other_keys [simp]:
  "CanonicalHeaderKey ''Content-Type'' \<in> other_headers" "CanonicalHeaderKey ''Allow'' \<in> other_headers"
  "CanonicalHeaderKey ''Location'' \<in> other_headers" "CanonicalHeaderKey ''Vary'' \<in> other_headers"
  "CanonicalHeaderKey ''Access-Control-Max-Age'' \<in> other_headers"
  "CanonicalHeaderKey ''Access-Control-Allow-Headers'' \<in> other_headers"
  "CanonicalHeaderKey ''Access-Control-Allow-Methods'' \<in> other_headers"
  "CanonicalHeaderKey ''Access-Control-Allow-Origin'' \<in> other_headers"
  by (simp_all add: other_headers_def)

lemma has_header_json: "has_header K v w \<Longrightarrow> has_header K v (response_JSON HE s p w)"
  by (auto simp: response_JSON_def Let_def has_header_written has_other split: option.splits)

lemma no_other_json: "no_other K v w \<Longrightarrow> no_other K v (response_JSON HE s p w)"
  by (auto simp: response_JSON_def Let_def no_other_written no_other_other split: option.splits)

end

sublocale guarded_header \<subseteq> timed_responder HE "has_header K v" "has_header K v" "no_other K v" "no_other K v"
  by unfold_locales
    (auto simp: response_Error_def http_Error_def http_Redirect_def has_header_json no_other_json
      has_header_written has_header_writes no_other_written has_other no_other_other has_nosniff no_other_nosniff
      has_header_copied, simp add: no_other_def new_writer_def)

text \<open>The request id and the security headers.\<close>

lemma canonical_keys:
  "CanonicalHeaderKey ''X-Request-ID'' = ''X-Request-Id''"
  "CanonicalHeaderKey ''X-Content-Type-Options'' = ''X-Content-Type-Options''"
  "CanonicalHeaderKey ''X-Frame-Options'' = ''X-Frame-Options''"
  "CanonicalHeaderKey ''Referrer-Policy'' = ''Referrer-Policy''"
  "CanonicalHeaderKey ''Cross-Origin-Resource-Policy'' = ''Cross-Origin-Resource-Policy''"
  "CanonicalHeaderKey ''Content-Type'' = ''Content-Type''"
  "CanonicalHeaderKey ''Allow'' = ''Allow''"
  "CanonicalHeaderKey ''Location'' = ''Location''"
  "CanonicalHeaderKey ''Vary'' = ''Vary''"
  "CanonicalHeaderKey ''Access-Control-Max-Age'' = ''Access-Control-Max-Age''"
  "CanonicalHeaderKey ''Access-Control-Allow-Headers'' = ''Access-Control-Allow-Headers''"
  "CanonicalHeaderKey ''Access-Control-Allow-Methods'' = ''Access-Control-Allow-Methods''"
  "CanonicalHeaderKey ''Access-Control-Allow-Origin'' = ''Access-Control-Allow-Origin''"
  by code_simp+

interpretation request_id: guarded_header HE "CanonicalHeaderKey ''X-Request-ID''" v for HE v
  by unfold_locales (simp_all add: other_headers_def canonical_keys)

interpretation nosniff: guarded_header HE "CanonicalHeaderKey ''X-Content-Type-Options''" "''nosniff''" for HE
  by unfold_locales (simp_all add: other_headers_def canonical_keys)

interpretation frame_options: guarded_header HE "CanonicalHeaderKey ''X-Frame-Options''" v for HE v
  by unfold_locales (simp_all add: other_headers_def canonical_keys)

interpretation referrer: guarded_header HE "CanonicalHeaderKey ''Referrer-Policy''" v for HE v
  by unfold_locales (simp_all add: other_headers_def canonical_keys)

interpretation resource_policy: guarded_header HE "CanonicalHeaderKey ''Cross-Origin-Resource-Policy''" v for HE v
  by unfold_locales (simp_all add: other_headers_def canonical_keys)

subsection \<open>Around the routes\<close>

text \<open>\<open>carries P K v h\<close>: however \<open>h\<close> ends, header \<open>K\<close> is \<open>v\<close>.\<close>

definition carries :: "(ResponseWriter \<Rightarrow> bool) \<Rightarrow> string \<Rightarrow> string \<Rightarrow> handler \<Rightarrow> bool" where
  "carries P K v h \<longleftrightarrow>
     (\<forall>r w sv out r' w' sv'. h (r, w, sv) = (out, r', w', sv') \<longrightarrow> P w \<longrightarrow> has_header K v w')"

lemma carriesI:
  "(\<And>r w sv out r' w' sv'. h (r, w, sv) = (out, r', w', sv') \<Longrightarrow> P w \<Longrightarrow> has_header K v w') \<Longrightarrow> carries P K v h"
  by (simp add: carries_def)

lemma carriesD: "carries P K v h \<Longrightarrow> h (r, w, sv) = (out, r', w', sv') \<Longrightarrow> P w \<Longrightarrow> has_header K v w'"
  unfolding carries_def by blast

lemma carries_answers: "answers (has_header K v) (has_header K v) h \<Longrightarrow> carries (has_header K v) K v h"
  by (rule carriesI) (auto dest!: answersD split: outcome.splits)

lemma has_header_recorder [simp]:
  "has_header K v (push_recorder w) = has_header K v w" "has_header K v (snd (pop_recorder w)) = has_header K v w"
  by (simp_all add: has_header_def push_recorder_def pop_recorder_def split: list.splits)

lemma pop_recorder_header: "pop_recorder w = (rec, w') \<Longrightarrow> has_header K v w' = has_header K v w"
  using has_header_recorder(2) by (metis snd_conv)

lemma carries_Logging:
  assumes "carries P K v next" and "\<And>w. P w \<Longrightarrow> P (push_recorder w)"
  shows "carries P K v (Logging HE next)"
proof (rule carriesI)
  fix r w sv out r' w' sv'
  assume run: "Logging HE next (r, w, sv) = (out, r', w', sv')" and "P w"
  obtain t sv1 where now: "sv_now HE sv = (t, sv1)"
    by fastforce
  obtain out2 r2 w2 sv2 where inner: "next (r, push_recorder w, sv1) = (out2, r2, w2, sv2)"
    by (metis surj_pair)
  obtain rec w3 where pop: "pop_recorder w2 = (rec, w3)"
    by fastforce
  have "w' = w3"
    using run now inner pop by (auto simp: Logging_def split: outcome.splits prod.splits)
  then show "has_header K v w'"
    using carriesD [OF assms(1) inner assms(2) [OF \<open>P w\<close>]] pop_recorder_header [OF pop] by simp
qed

lemma carries_Metrics:
  assumes "carries P K v next" and "\<And>w. P w \<Longrightarrow> P (push_recorder w)"
  shows "carries P K v (Metrics HE next)"
proof (rule carriesI)
  fix r w sv out r' w' sv'
  assume run: "Metrics HE next (r, w, sv) = (out, r', w', sv')" and "P w"
  obtain t sv1 where now: "sv_now HE sv = (t, sv1)"
    by fastforce
  obtain out2 r2 w2 sv2 where inner: "next (r, push_recorder w, sv1) = (out2, r2, w2, sv2)"
    by (metis surj_pair)
  obtain rec w3 where pop: "pop_recorder w2 = (rec, w3)"
    by fastforce
  have "w' = w3"
    using run now inner pop by (auto simp: Metrics_def Let_def split: outcome.splits prod.splits)
  then show "has_header K v w'"
    using carriesD [OF assms(1) inner assms(2) [OF \<open>P w\<close>]] pop_recorder_header [OF pop] by simp
qed

context guarded_header
begin

lemma carries_Recover:
  assumes "carries P K v next"
  shows "carries P K v (Recover HE next)"
  by (rule carriesI)
    (auto simp: Recover_def response_Error_def split: prod.splits outcome.splits
      dest: carriesD [OF assms] intro: has_header_json)

end

text \<open>What is assumed of \<open>promhttp.Handler()\<close>: it serves its page without panicking, touches neither the
  request nor the state of the program, and sends the headers it was given beside its own.\<close>

definition guarded_keys :: "string list" where
  "guarded_keys = map CanonicalHeaderKey [''X-Request-ID'', ''X-Content-Type-Options'', ''X-Frame-Options'',
     ''Referrer-Policy'', ''Cross-Origin-Resource-Policy'']"

definition serves_page :: "ResponseWriter \<Rightarrow> ResponseWriter \<Rightarrow> bool" where
  "serves_page w w' \<longleftrightarrow>
     list_all (\<lambda>K. map_of (rw_Header w') K = map_of (rw_Header w) K) guarded_keys \<and>
     (case rw_sent w of
        Some x \<Rightarrow> rw_sent w' = Some x
      | None \<Rightarrow>
          (\<exists>status h. rw_sent w' = Some (status, h) \<and>
             list_all (\<lambda>K. map_of h K = map_of (rw_Header w) K) guarded_keys \<and>
             map sr_status (rw_recorders w') =
               (if status = 200 then map sr_status (rw_recorders w) else map (\<lambda>_. status) (rw_recorders w))))"

definition promhttp_ok :: "henv \<Rightarrow> bool" where
  "promhttp_ok HE \<longleftrightarrow> (\<forall>r w sv. \<exists>w'. he_promhttp HE (r, w, sv) = (Returned, r, w', sv) \<and> serves_page w w')"

lemma promhttp_okD:
  assumes "promhttp_ok HE" and "he_promhttp HE (r, w, sv) = (out, r', w', sv')"
  shows "out = Returned" "r' = r" "sv' = sv" "serves_page w w'"
  using assms unfolding promhttp_ok_def by (metis prod.inject)+

lemma promhttp_keeps: "promhttp_ok HE \<Longrightarrow> (\<And>sv. R sv sv) \<Longrightarrow> keeps U R (he_promhttp HE)"
  by (rule keepsI) (metis promhttp_okD(3))

lemma promhttp_header:
  assumes "promhttp_ok HE" and "K \<in> set guarded_keys"
  shows "answers (has_header K v) (has_header K v) (he_promhttp HE)"
proof (rule answersI)
  fix r w sv out r' w' sv'
  assume run: "he_promhttp HE (r, w, sv) = (out, r', w', sv')" and "has_header K v w"
  then have "has_header K v w'"
    using promhttp_okD(4) [OF assms(1) run] assms(2)
    by (auto simp: serves_page_def has_header_def list_all_iff split: option.splits)
  then show "out = Returned \<and> has_header K v w'"
    using promhttp_okD(1) [OF assms(1) run] by simp
qed

subsection \<open>The status the recorders note\<close>

text \<open>Nothing was sent through \<open>n\<close> recorders; a status was sent, and every recorder noted it.\<close>

definition unwritten :: "nat \<Rightarrow> ResponseWriter \<Rightarrow> bool" where
  "unwritten n w \<longleftrightarrow> rw_sent w = None \<and> map sr_status (rw_recorders w) = replicate n 200"

definition recorded :: "nat \<Rightarrow> ResponseWriter \<Rightarrow> bool" where
  "recorded n w \<longleftrightarrow> (\<exists>status h. rw_sent w = Some (status, h) \<and> map sr_status (rw_recorders w) = replicate n status)"

lemma unwritten_length: "unwritten n w \<Longrightarrow> map (\<lambda>_. s) (rw_recorders w) = replicate n s"
  unfolding unwritten_def by (metis length_map length_replicate map_replicate_const)

lemma unwritten_WriteHeader: "unwritten n w \<Longrightarrow> recorded n (WriteHeader s w)"
  using unwritten_length [of n w s] by (auto simp: unwritten_def recorded_def o_def)

lemma recorded_Write: "recorded n w \<Longrightarrow> recorded n (Write f p w)"
  by (auto simp: recorded_def)

lemma recorded_writes: "recorded n w \<Longrightarrow> recorded n (fold (Write f) ps w)"
  by (induction ps arbitrary: w) (auto simp: recorded_Write)

lemma unwritten_headers [simp]:
  "unwritten n (set_header k v w) = unwritten n w" "unwritten n (copy_headers h w) = unwritten n w"
  by (simp_all add: unwritten_def copy_headers_def)

lemma unwritten_json: "unwritten n w \<Longrightarrow> recorded n (response_JSON HE s p w)"
  by (simp add: response_JSON_def Let_def unwritten_WriteHeader recorded_Write split: option.split)

interpretation status: timed_responder HE "unwritten n" "recorded n" "\<lambda>_. True" "\<lambda>_. True" for HE n
  by unfold_locales
    (simp_all add: response_Error_def http_Error_def http_Redirect_def unwritten_json unwritten_WriteHeader
      recorded_Write recorded_writes)

lemma promhttp_status:
  assumes "promhttp_ok HE"
  shows "answers (unwritten n) (recorded n) (he_promhttp HE)"
proof (rule answersI)
  fix r w sv out r' w' sv'
  assume run: "he_promhttp HE (r, w, sv) = (out, r', w', sv')" and pre: "unwritten n w"
  have "recorded n w'"
    using promhttp_okD(4) [OF assms run] pre unwritten_length [OF pre]
    by (fastforce simp: serves_page_def recorded_def unwritten_def split: if_splits)
  then show "out = Returned \<and> recorded n w'"
    using promhttp_okD(1) [OF assms run] by simp
qed

subsection \<open>The bodies of server errors\<close>

definition blank :: "ResponseWriter \<Rightarrow> bool" where
  "blank w \<longleftrightarrow> rw_sent w = None \<and> rw_body w = []"

definition opaque :: "henv \<Rightarrow> ResponseWriter \<Rightarrow> bool" where
  "opaque HE w \<longleftrightarrow>
     (he_redirect HE < 500 \<longrightarrow> 500 \<le> status_of w \<longrightarrow> status_of w = 500 \<and>
       (\<exists>rid. rw_body w = [P_Error \<lparr>eb_Error = ''internal server error'', eb_Code = CodeInternal, eb_RequestID = rid\<rparr>]))"

interpretation errors: responder HE blank "opaque HE" for HE
proof (unfold_locales, goal_cases)
  case (2 w r)
  then show ?case
    by (auto simp: opaque_def blank_def status_of_def response_Error_def response_JSON_def Write_body body_allowed_def
        send_header_def)
qed (auto simp: opaque_def blank_def status_of_def http_Error_def http_Redirect_def)

end
