(* ===== verification/Routing.thy ===== *)
theory Routing
  imports Router
begin

text \<open>
  Facts about paths and route tables: cleaning leaves plain paths alone, at most one pattern of
  each table of the program matches a request, and a request for a plain path reaches the handler
  registered for it.
\<close>

subsection \<open>Paths\<close>

lemma strings_Split_plain: "c \<notin> set s \<Longrightarrow> strings_Split c s = [s]"
  by (induction s) auto

lemma strings_Split_append: "c \<notin> set s \<Longrightarrow> strings_Split c (s @ c # t) = s # strings_Split c t"
  by (induction s) auto

definition plain_seg :: "string \<Rightarrow> bool" where
  "plain_seg s \<longleftrightarrow> s \<noteq> '''' \<and> s \<noteq> ''.'' \<and> s \<noteq> ''..'' \<and> CHR ''/'' \<notin> set s \<and> CHR ''%'' \<notin> set s"

lemma plain_segD: "plain_seg s \<Longrightarrow> CHR ''/'' \<notin> set s" "plain_seg s \<Longrightarrow> s \<noteq> ''''"
  by (simp_all add: plain_seg_def)

lemma split_segs:
  "list_all plain_seg (s # segs) \<Longrightarrow>
     strings_Split CHR ''/'' (s @ concat (map (\<lambda>s. CHR ''/'' # s) segs)) = s # segs"
  by (induction segs arbitrary: s) (simp_all add: strings_Split_plain strings_Split_append plain_segD)

lemma path_segs_join:
  assumes "list_all plain_seg segs" and "segs \<noteq> []"
  shows "path_segs (join_segs segs) = segs"
proof -
  obtain s ss where "segs = s # ss"
    using assms(2) by (cases segs) auto
  then show ?thesis
    using split_segs [of s ss] assms(1) by (simp add: path_segs_def join_segs_def)
qed

lemma clean_segs_plain: "list_all plain_seg segs \<Longrightarrow> clean_segs kept segs = rev kept @ segs"
  by (induction segs arbitrary: kept) (auto simp: plain_seg_def)

lemma cleanPath_plain:
  assumes "list_all plain_seg segs" and "segs \<noteq> []"
  shows "cleanPath (join_segs segs) = join_segs segs"
proof -
  have last: "last (concat (map (\<lambda>s. CHR ''/'' # s) segs)) \<noteq> CHR ''/''"
    using assms
  proof (induction segs)
    case (Cons s segs)
    then show ?case
      by (cases segs) (auto simp: plain_seg_def last_append dest: last_in_set)
  qed simp
  have "hd (join_segs segs) = CHR ''/''" "join_segs segs \<noteq> []" "last (join_segs segs) \<noteq> CHR ''/''"
    using assms(2) last by (cases segs; simp add: join_segs_def)+
  then show ?thesis
    using path_segs_join [OF assms] clean_segs_plain [OF assms(1), of "[]"]
    by (simp add: cleanPath_def Let_def)
qed

lemma unescape_plain: "CHR ''%'' \<notin> set s \<Longrightarrow> unescape s = Some s"
  by (induction s) auto

lemma pathUnescape_plain: "CHR ''%'' \<notin> set s \<Longrightarrow> pathUnescape s = s"
  by (simp add: pathUnescape_def unescape_plain)

lemma set_nat_digits: "c \<in> set (nat_digits n) \<Longrightarrow> 48 \<le> ord c \<and> ord c \<le> 57"
proof (induction n rule: nat_digits.induct)
  case (1 n)
  then show ?case
    by (cases "n < 10"; subst (asm) (2) nat_digits.simps) (auto simp: ord_chr)
qed

lemma plain_FormatInt: "plain_seg (FormatInt i)"
proof -
  have nots: "CHR ''/'' \<notin> set (nat_digits n)" "CHR ''%'' \<notin> set (nat_digits n)" "CHR ''.'' \<notin> set (nat_digits n)" for n
    using set_nat_digits [of _ n] by force+
  then have "nat_digits n \<noteq> ''.''" "nat_digits n \<noteq> ''..''" for n
    by (metis list.set_intros(1))+
  then show ?thesis
    using nots by (auto simp: plain_seg_def FormatInt_def)
qed

subsection \<open>Tables without ambiguity\<close>

definition pattern_matches :: "pattern \<Rightarrow> string \<Rightarrow> string \<Rightarrow> bool" where
  "pattern_matches pt m p \<longleftrightarrow> match_path pt p \<noteq> None \<and> match_method pt m"

fun segs_apart :: "seg list \<Rightarrow> bool \<Rightarrow> seg list \<Rightarrow> bool \<Rightarrow> bool" where
  "segs_apart (Lit a # ps) sp (Lit b # qs) sq = (a \<noteq> b \<or> segs_apart ps sp qs sq)"
| "segs_apart (Wild a # ps) sp (q # qs) sq = segs_apart ps sp qs sq"
| "segs_apart (Lit a # ps) sp (Wild b # qs) sq = segs_apart ps sp qs sq"
| "segs_apart [] sp (_ # qs) sq = (\<not> sp)"
| "segs_apart (_ # ps) sp [] sq = (\<not> sq)"
| "segs_apart [] sp [] sq = (sp \<noteq> sq)"

definition apart :: "pattern \<Rightarrow> pattern \<Rightarrow> bool" where
  "apart pt qt \<longleftrightarrow>
     pt_method pt \<noteq> pt_method qt \<and> pt_method pt \<notin> {'''', ''HEAD''} \<and> pt_method qt \<notin> {'''', ''HEAD''} \<or>
     segs_apart (pt_segs pt) (pt_subtree pt) (pt_segs qt) (pt_subtree qt)"

lemma segs_apart_sound:
  "segs_apart ps sp qs sq \<Longrightarrow> match_segs ps sp xs \<noteq> None \<Longrightarrow> match_segs qs sq xs = None"
proof (induction ps sp qs sq arbitrary: xs rule: segs_apart.induct)
  case (1 a ps sp b qs sq)
  then show ?case
    by (cases xs) (auto split: if_splits)
next
  case (2 a ps sp q qs sq)
  then show ?case
    by (cases xs; cases q) (auto split: if_splits)
next
  case (3 a ps sp b qs sq)
  then show ?case
    by (cases xs) (auto split: if_splits)
qed (auto split: if_splits elim!: match_segs.elims)

lemma apart_sound: "apart pt qt \<Longrightarrow> pattern_matches pt m p \<Longrightarrow> \<not> pattern_matches qt m p"
  using segs_apart_sound by (auto simp: apart_def pattern_matches_def match_path_def match_method_def)

text \<open>In the tables of the program the patterns are apart from each other.\<close>

lemma tables_apart:
  "sorted_wrt apart (map fst (protected_routes HE d))"
  "sorted_wrt apart (map fst (api_routes HE d))"
  "sorted_wrt apart (map fst (root_routes HE d rl))"
  by (simp_all add: protected_routes_def api_routes_def root_routes_def route_def Let_def apart_def)

lemma sorted_apart_unique:
  "sorted_wrt apart (map fst mx) \<Longrightarrow> x \<in> set mx \<Longrightarrow> y \<in> set mx \<Longrightarrow> pattern_matches (fst x) m p \<Longrightarrow>
     pattern_matches (fst y) m p \<Longrightarrow> x = y"
  by (induction mx) (auto dest: apart_sound)

lemma mux_find_matches: "mux_find mx m p = Some (pt, h, bs) \<Longrightarrow> pattern_matches pt m p"
  by (induction mx) (auto simp: pattern_matches_def split: option.splits if_splits)

subsection \<open>Dispatch\<close>

lemma ServeMux_plain:
  assumes "rq_Path r = join_segs segs" and "list_all plain_seg segs" and "segs \<noteq> []"
    and "mux_find mx (rq_Method r) (join_segs segs) = Some (pt, h, bs)" and "\<not> pt_subtree pt"
  shows "ServeMux HE mx (r, w, sv) = h (r\<lparr>rq_Pattern := pt_text pt, rq_PathValues := bs\<rparr>, w, sv)"
  using assms cleanPath_plain [OF assms(2,3)]
  by (simp add: ServeMux_def Let_def needs_slash_def exact_match_def)

end
