(* ===== verification/HttpProperties.thy ===== *)
theory HttpProperties
  imports Responses Routing TaskProperties
begin

text \<open>
  Properties of requests as clients send them: what a request may do to the store, what the
  middleware guarantees for every response, the access log and the metrics, the API for tasks from
  the Authorization header to the response.
\<close>

subsection \<open>An example\<close>

text \<open>An environment in which everything answers in time.\<close>

definition example_henv :: henv where
  "example_henv =
     \<lparr>he_env = example_env,
      he_ReadJSON = (\<lambda>eof s. if s = ''{}'' then Some (JObj []) else None),
      he_ParseTime = (\<lambda>s. None),
      he_Encode = (\<lambda>p. ''...''),
      he_deadline = (\<lambda>n d. InTime),
      he_Allow = (\<lambda>rps burst history now. int (length history) < burst),
      he_redis = (\<lambda>n. Answered),
      he_redis_now = (\<lambda>n. 1000000000 * int n),
      he_traceID = (\<lambda>n. None),
      he_promhttp = (\<lambda>(r, w, sv). (Returned, r, Write (\<lambda>p. '''') (P_Text ''metrics'') w, sv)),
      he_otelhttp = (\<lambda>h. h),
      he_redirect = 301\<rparr>"

lemma example_henv_sel [simp]:
  "he_env example_henv = example_env" "he_redirect example_henv = 301" "he_deadline example_henv n d = InTime"
  "he_redis example_henv n = Answered" "he_redis_now example_henv n = 1000000000 * int n"
  by (simp_all add: example_henv_def)

lemma example_promhttp_ok [simp]: "promhttp_ok example_henv"
  by (auto simp: promhttp_ok_def serves_page_def example_henv_def list_all_iff split: option.splits)

definition example_request :: "string \<Rightarrow> string \<Rightarrow> Header \<Rightarrow> Request" where
  "example_request m p h =
     \<lparr>rq_Method = m, rq_Path = p, rq_Query = [], rq_Header = h, rq_Body = ''{}'', rq_BodyComplete = True,
      rq_BodyLimit = None, rq_RemoteAddr = ''10.0.0.1:5000'', rq_Pattern = '''', rq_PathValues = [],
      rq_Context = \<lparr>ctx_requestID = None, ctx_logger = None, ctx_userID = None\<rparr>\<rparr>"

definition example_server :: server where
  "example_server = new_server (example_world [])"

definition example_config :: Config where
  "example_config = (read_Config empty_penv)\<lparr>cf_JWTSecret := ''secret'', cf_JWTExpiresIn := 60 * Second\<rparr>"

abbreviation example_limiter :: RateLimiter where
  "example_limiter \<equiv> \<lparr>rl_backend = inMemoryBackend (Fin 5 0) 10\<rparr>"

subsection \<open>Requests and the store\<close>

text \<open>C5: whatever a client sends, the request moves the database along the steps of the system: the
  whole HTTP stack refines the transition system, so every invariant of the steps (the invariant of
  the tables, the permanence of accounts and sessions) holds for requests over HTTP under every
  interleaving.\<close>

theorem http_requests_are_steps:
  assumes "promhttp_ok HE"
    and "handler_chain HE (new_deps HE cfg) rl (r, w, sv) = (out, r', w', sv')"
  shows "db_steps (he_env HE) (sv_world sv) (sv_world sv')"
proof -
  have "keeps (\<lambda>_. True) (steps_of HE) (he_promhttp HE)"
    using promhttp_keeps [OF assms(1)] by simp
  then show ?thesis
    using keepsD [OF handler_chain_steps assms(2)] by simp
qed

theorem http_requests_are_steps_witness:
  "db_steps example_env (example_world []) (sv_world (snd (snd (snd
     (handler_chain example_henv (new_deps example_henv example_config) example_limiter
       (example_request ''POST'' ''/api/v1/auth/login'' [], new_writer, example_server))))))"
  using http_requests_are_steps [OF example_promhttp_ok, of example_config example_limiter
      "example_request ''POST'' ''/api/v1/auth/login'' []" new_writer example_server]
  by (simp add: example_server_def new_server_def) (metis prod.collapse)

text \<open>The token of the Authorization header, when the header has the expected form.\<close>

definition bearer :: "Request \<Rightarrow> string option" where
  "bearer r =
     (let parts = strings_SplitN2 CHR '' '' (Header_Get (rq_Header r) ''Authorization'')
      in if length parts = 2 \<and> strings_EqualFold (parts ! 0) ''Bearer'' then Some (parts ! 1) else None)"

abbreviation validate :: "henv \<Rightarrow> Config \<Rightarrow> string \<Rightarrow> server \<Rightarrow> (error + int64) \<times> server" where
  "validate HE cfg tok \<equiv> with_world (TokenManager_Validate (he_env HE) (dp_Tokens (new_deps HE cfg)) tok)"

abbreviation task_routes :: "henv \<Rightarrow> Config \<Rightarrow> handler" where
  "task_routes HE cfg \<equiv>
     Auth HE (dp_Tokens (new_deps HE cfg)) (ServeMux HE (protected_routes HE (new_deps HE cfg)))"

lemma Auth_bearer:
  "Auth HE tm next (r, w, sv) =
     (case bearer r of
        None \<Rightarrow> (Returned, r, response_Error HE r 401 CodeUnauthorized ''missing or malformed Authorization header'' w, sv)
      | Some tok \<Rightarrow>
          (case with_world (TokenManager_Validate (he_env HE) tm tok) sv of
             (Inl err, sv1) \<Rightarrow> (Returned, r, response_Error HE r 401 CodeUnauthorized ''invalid or expired token'' w, sv1)
           | (Inr uid, sv1) \<Rightarrow>
               (case next (r\<lparr>rq_Context := (rq_Context r)\<lparr>ctx_userID := Some uid\<rparr>\<rparr>, w, sv1) of
                  (out, _, w2, sv2) \<Rightarrow> (out, r, w2, sv2))))"
  by (auto simp: Auth_def bearer_def Let_def)

lemma status_of_error: "blank w \<Longrightarrow> status_of (response_Error HE r s code msg w) = s"
  by (simp add: blank_def status_of_def response_Error_def)

lemma validate_rows: "validate HE cfg tok sv = (ru, sv1) \<Longrightarrow> sv_world sv1 = (sv_world sv)\<lparr>tick := Suc (tick (sv_world sv))\<rparr>"
  by (auto dest!: with_worldD Validate_rows)

text \<open>C4: the task routes.  A request that does not carry a valid token is answered with 401 and changes
  no row; a request with a valid token of user \<open>uid\<close> leaves the tasks of all other users, the users
  and the sessions as they were, whatever its path, method and body.\<close>

theorem task_routes_confined:
  assumes "db_inv (sv_world sv)" and "blank w" and "task_routes HE cfg (r, w, sv) = (out, r', w', sv')"
  shows "case Option.bind (bearer r) (\<lambda>tok. case validate HE cfg tok sv of (Inl _, _) \<Rightarrow> None | (Inr uid, _) \<Rightarrow> Some uid) of
      None \<Rightarrow> status_of w' = 401 \<and> same_rows (sv_world sv) (sv_world sv')
    | Some uid \<Rightarrow> db_inv (sv_world sv') \<and> others_kept uid (sv_world sv) (sv_world sv')"
proof (cases "bearer r")
  case None
  then show ?thesis
    using assms by (auto simp: Auth_bearer status_of_error)
next
  case (Some tok)
  obtain ru sv1 where val: "validate HE cfg tok sv = (ru, sv1)"
    by fastforce
  show ?thesis
  proof (cases ru)
    case (Inl err)
    then show ?thesis
      using assms Some val validate_rows [OF val] by (auto simp: Auth_bearer status_of_error)
  next
    case (Inr uid)
    then obtain r2 where
      "ServeMux HE (protected_routes HE (new_deps HE cfg)) (r\<lparr>rq_Context := (rq_Context r)\<lparr>ctx_userID := Some uid\<rparr>\<rparr>, w, sv1) =
         (out, r2, w', sv')"
      using assms(3) Some val by (auto simp: Auth_bearer split: prod.splits)
    from keepsD [OF protected_confined_user this] have "confined uid sv1 sv'"
      by simp
    then show ?thesis
      using assms(1) Some val Inr validate_rows [OF val] by (simp add: confined_def others_kept_def)
  qed
qed

subsubsection \<open>An example request with a token\<close>

definition authorized :: "string \<Rightarrow> string \<Rightarrow> int64 \<Rightarrow> Request" where
  "authorized m p uid =
     example_request m p [(''Authorization'', ''Bearer '' @ example_access_token ''secret'' uid)]"

lemma example_bearer [simp]: "bearer (authorized m p uid) = Some (example_access_token ''secret'' uid)"
proof -
  have "CanonicalHeaderKey ''Authorization'' = ''Authorization''"
    by code_simp
  then have "Header_Get (rq_Header (authorized m p uid)) ''Authorization'' =
      ''Bearer'' @ CHR '' '' # example_access_token ''secret'' uid"
    by (simp add: Header_Get_def authorized_def example_request_def)
  then show ?thesis
    by (simp add: bearer_def strings_SplitN2_Cons del: append_Cons) (simp add: strings_EqualFold_def)
qed

lemma example_server_sel [simp]: "sv_world example_server = example_world []" "sv_draining example_server = Some False"
  "sv_requests example_server = []" "sv_log example_server = []" "sv_redis example_server = []"
  by (simp_all add: example_server_def new_server_def)

lemma example_validate:
  assumes "int64_ok uid"
  shows "validate example_henv example_config (example_access_token ''secret'' uid) example_server =
    (Inr uid, example_server\<lparr>sv_world := (example_world [])\<lparr>tick := 1\<rparr>\<rparr>)"
  using example_Validate [of uid "example_world []" "NewTokenManager ''secret'' (60 * Second)"] assms
  by (simp add: with_world_def example_config_def NewTokenManager_def)

text \<open>The result of a handler by its components.\<close>

lemma quad: "x = (fst x, fst (snd x), fst (snd (snd x)), snd (snd (snd x)))"
  by simp

lemma blank_new_writer [simp]: "blank new_writer"
  by (simp add: blank_def new_writer_def)

theorem task_routes_confined_witness:
  "others_kept 1 (example_world []) (sv_world (snd (snd (snd
     (task_routes example_henv example_config (authorized ''DELETE'' ''/api/v1/tasks/1'' 1, new_writer, example_server))))))"
  using task_routes_confined [OF _ blank_new_writer quad, of example_server example_henv example_config
      "authorized ''DELETE'' ''/api/v1/tasks/1'' 1"]
  by (simp add: example_validate [simplified] int64_ok_def example_world_inv)

subsection \<open>Reading a task over HTTP\<close>

lemma task_path: "''/api/v1/tasks/'' @ FormatInt i = join_segs [''api'', ''v1'', ''tasks'', FormatInt i]"
  by (simp add: join_segs_def)

lemma task_path_plain: "list_all plain_seg [''api'', ''v1'', ''tasks'', FormatInt i]"
  using plain_FormatInt by (simp add: plain_seg_def)

lemma match_task_path:
  "match_segs [Lit ''api'', Lit ''v1'', Lit ''tasks'', Wild ''id''] False [''api'', ''v1'', ''tasks'', FormatInt i] =
     Some [(''id'', FormatInt i)]"
  "match_segs [Lit ''api'', Lit ''v1'', Lit ''tasks''] False [''api'', ''v1'', ''tasks'', FormatInt i] = None"
  using plain_FormatInt [of i] by (simp_all add: pathUnescape_plain plain_seg_def)

lemma find_task_route:
  "mux_find (protected_routes HE d) ''GET'' (''/api/v1/tasks/'' @ FormatInt i) =
     Some (fst (protected_routes HE d ! 2), TaskHandler_Get HE (NewTaskHandler (dp_Task d)), [(''id'', FormatInt i)])"
proof -
  have segs: "path_segs (''/api/v1/tasks/'' @ FormatInt i) = [''api'', ''v1'', ''tasks'', FormatInt i]"
    using path_segs_join [OF task_path_plain] by (simp add: task_path del: append_Cons)
  show ?thesis
    unfolding protected_routes_def route_def Let_def
    by (simp add: match_path_def segs match_task_path match_method_def del: match_segs.simps append_Cons)
qed

lemma GET_reaches_handler:
  assumes "rq_Method r = ''GET''" and "rq_Path r = ''/api/v1/tasks/'' @ FormatInt i"
  shows "ServeMux HE (protected_routes HE d) (r, w, sv) =
    TaskHandler_Get HE (NewTaskHandler (dp_Task d))
      (r\<lparr>rq_Pattern := ''GET /api/v1/tasks/{id}'', rq_PathValues := [(''id'', FormatInt i)]\<rparr>, w, sv)"
  using ServeMux_plain [of r "[''api'', ''v1'', ''tasks'', FormatInt i]" "protected_routes HE d"]
    assms task_path_plain [of i] find_task_route [of HE d i]
  by (simp add: task_path del: append_Cons) (simp add: protected_routes_def route_def Let_def)

text \<open>The answer to a read of task \<open>i\<close> by user \<open>uid\<close>.\<close>

definition task_answer :: "int64 \<Rightarrow> int64 \<Rightarrow> world \<Rightarrow> string \<Rightarrow> int \<times> payload" where
  "task_answer uid i w rid =
     (case find (\<lambda>t. t_ID t = i) (tasks w) of
        None \<Rightarrow> (404, P_Error \<lparr>eb_Error = ''resource not found'', eb_Code = CodeNotFound, eb_RequestID = rid\<rparr>)
      | Some t \<Rightarrow>
          if t_UserID t = uid then (200, P_Task (NewTaskResponse t))
          else (403, P_Error \<lparr>eb_Error = ''you do not have access to this resource'', eb_Code = CodeForbidden, eb_RequestID = rid\<rparr>))"

lemma Get_by_find:
  assumes "no_faults E"
  shows "TaskService_Get (taskService E) uid i w =
    (case find (\<lambda>t. t_ID t = i) (tasks w) of
       None \<Rightarrow> Inl ErrNotFound
     | Some t \<Rightarrow> if t_UserID t = uid then Inr t else Inl ErrForbidden, w\<lparr>tick := Suc (tick w)\<rparr>)"
  by (simp add: TaskService_Get_def task_FindByID_answered [OF assms] split: option.splits)

lemma json_blank:
  "blank w \<Longrightarrow> s \<noteq> 204 \<Longrightarrow> s \<noteq> 304 \<Longrightarrow>
     status_of (response_JSON HE s (Some p) w) = s \<and> rw_body (response_JSON HE s (Some p) w) = [p]"
  by (simp add: blank_def status_of_def response_JSON_def Write_body body_allowed_def send_header_def)

text \<open>A read by a client with a valid token, at the routes of the tasks.\<close>

lemma task_routes_get:
  assumes "no_faults (he_env HE)" and "blank w" and "int64_ok i"
    and "rq_Method r = ''GET''" and "rq_Path r = ''/api/v1/tasks/'' @ FormatInt i"
    and "bearer r = Some tok" and "validate HE cfg tok sv = (Inr uid, sv1)"
    and "task_routes HE cfg (r, w, sv) = (out, r', w', sv')"
  shows "out = Returned \<and> (status_of w', hd (rw_body w')) = task_answer uid i (sv_world sv) (RequestID_of (rq_Context r)) \<and>
    length (rw_body w') = 1 \<and> same_rows (sv_world sv) (sv_world sv')"
proof -
  let ?r = "r\<lparr>rq_Context := (rq_Context r)\<lparr>ctx_userID := Some uid\<rparr>, rq_Pattern := ''GET /api/v1/tasks/{id}'',
    rq_PathValues := [(''id'', FormatInt i)]\<rparr>"
  have rows: "sv_world sv1 = (sv_world sv)\<lparr>tick := Suc (tick (sv_world sv))\<rparr>"
    using validate_rows [OF assms(7)] .
  have "\<exists>r2. TaskHandler_Get HE (NewTaskHandler (taskService (he_env HE))) (?r, w, sv1) = (out, r2, w', sv')"
    using assms(8) GET_reaches_handler [of "r\<lparr>rq_Context := (rq_Context r)\<lparr>ctx_userID := Some uid\<rparr>\<rparr>" i HE "new_deps HE cfg"]
      assms(4-7)
    by (auto simp: Auth_bearer split: prod.splits)
  moreover have "parseTaskID ?r = Some i" and "currentUserID HE ?r w = Inr uid" and "RequestID_of (rq_Context ?r) = RequestID_of (rq_Context r)"
    using ParseInt_FormatInt [OF assms(3)]
    by (simp_all add: parseTaskID_def PathValue_def currentUserID_def UserIDFromContext_def RequestID_of_def)
  ultimately show ?thesis
    using rows json_blank [OF assms(2)]
    by (auto simp: TaskHandler_Get_def NewTaskHandler_def with_world_def Get_by_find [OF assms(1)] task_answer_def
        writeDomainError_def response_Error_def same_rows_def split: option.splits if_splits)
qed

end
