(* ===== verification/Observability.thy ===== *)
theory Observability
  imports HttpProperties
begin

text \<open>
  What operators and clients can rely on for every request: the headers of the response, the access
  log, the request counter, and what happens on a panic.
\<close>

subsection \<open>Headers\<close>

lemma carries_SecurityHeaders_set:
  assumes "carries (has_header K v) K v next"
    and "(K, v) \<in> {(CanonicalHeaderKey ''X-Content-Type-Options'', ''nosniff''), (CanonicalHeaderKey ''X-Frame-Options'', ''DENY''),
      (CanonicalHeaderKey ''Referrer-Policy'', ''no-referrer''), (CanonicalHeaderKey ''Cross-Origin-Resource-Policy'', ''same-origin'')}"
  shows "carries (\<lambda>w. rw_sent w = None) K v (SecurityHeaders next)"
proof (rule carriesI)
  fix r w sv out r' w' sv'
  assume "SecurityHeaders next (r, w, sv) = (out, r', w', sv')" and "rw_sent w = None"
  then obtain w1 where "next (r, w1, sv) = (out, r', w', sv')" and "has_header K v w1"
    using assms(2) by (fastforce simp: SecurityHeaders_def has_header_def map_of_Header_Set canonical_keys)
  then show "has_header K v w'"
    using carriesD [OF assms(1)] by blast
qed

lemma carries_SecurityHeaders_kept:
  assumes "carries (has_header K v) K v next" and "K = CanonicalHeaderKey ''X-Request-ID''"
  shows "carries (has_header K v) K v (SecurityHeaders next)"
proof (rule carriesI)
  fix r w sv out r' w' sv'
  assume "SecurityHeaders next (r, w, sv) = (out, r', w', sv')" and "has_header K v w"
  then obtain w1 where "next (r, w1, sv) = (out, r', w', sv')" and "has_header K v w1"
    using assms(2) by (fastforce simp: SecurityHeaders_def has_header_def map_of_Header_Set canonical_keys)
  then show "has_header K v w'"
    using carriesD [OF assms(1)] by blast
qed
lemma unsent_recorder: "rw_sent (push_recorder w) = rw_sent w"
  by (simp add: push_recorder_def)

text \<open>A security header survives the chain; so does the request id below \<open>RequestID\<close>.\<close>

lemma chain_security:
  assumes "guarded_header K v" and "carries (has_header K v) K v next"
    and "(K, v) \<in> {(CanonicalHeaderKey ''X-Content-Type-Options'', ''nosniff''), (CanonicalHeaderKey ''X-Frame-Options'', ''DENY''),
      (CanonicalHeaderKey ''Referrer-Policy'', ''no-referrer''), (CanonicalHeaderKey ''Cross-Origin-Resource-Policy'', ''same-origin'')}"
  shows "carries (\<lambda>w. rw_sent w = None) K v (Logging HE (Recover HE (Metrics HE (SecurityHeaders next))))"
  by (intro carries_Logging guarded_header.carries_Recover carries_Metrics carries_SecurityHeaders_set assms)
    (simp_all add: unsent_recorder)

lemma chain_request_id:
  assumes "carries (has_header K v) K v next" and "K = CanonicalHeaderKey ''X-Request-ID''"
  shows "carries (has_header K v) K v (Logging HE (Recover HE (Metrics HE (SecurityHeaders next))))"
  using assms(1) unfolding assms(2)
  by (intro carries_Logging request_id.carries_Recover carries_Metrics carries_SecurityHeaders_kept) simp_all

text \<open>
  \<open>RequestID\<close> as seen from outside: the id it chose, the request and the state it passed on.
\<close>

definition id_for :: "henv \<Rightarrow> Request \<Rightarrow> string \<Rightarrow> bool" where
  "id_for HE r i \<longleftrightarrow>
     (if Header_Get (rq_Header r) requestIDHeader = ''''
      then i = ''unknown'' \<and> \<not> rand_ok (he_env HE) \<or> (\<exists>b. i = hex_EncodeToString b \<and> (rand_ok (he_env HE) \<longrightarrow> length b = 8))
      else i = Header_Get (rq_Header r) requestIDHeader)"

lemma rand_okD: "rand_ok E \<Longrightarrow> \<exists>buf. env_rand E n k = Inr buf \<and> length buf = k"
  by (simp add: rand_ok_def)

lemma generated_id: "generateRequestID HE sv = (i, sv1) \<Longrightarrow>
  (i = ''unknown'' \<and> \<not> rand_ok (he_env HE) \<or> (\<exists>b. i = hex_EncodeToString b \<and> (rand_ok (he_env HE) \<longrightarrow> length b = 8))) \<and>
  same_counts sv sv1 \<and> sv_log sv1 = sv_log sv"
  using rand_okD [of "he_env HE" "tick (sv_world sv)" 8]
  by (auto simp: generateRequestID_def same_counts_def Let_def split: sum.splits)

lemma RequestID_run:
  assumes "RequestID HE next (r, w, sv) = (out, r', w', sv')"
  shows "\<exists>i r1 sv1 r2. next (r1, set_header requestIDHeader i w, sv1) = (out, r2, w', sv') \<and> id_for HE r i \<and>
    RequestID_of (rq_Context r1) = i \<and> (''request_id'', i) \<in> set (Logger_of (rq_Context r1)) \<and>
    rq_Method r1 = rq_Method r \<and> rq_Path r1 = rq_Path r \<and> same_counts sv sv1 \<and> sv_log sv1 = sv_log sv"
proof -
  obtain i sv1 where gen:
      "(if Header_Get (rq_Header r) requestIDHeader = '''' then generateRequestID HE sv
        else (Header_Get (rq_Header r) requestIDHeader, sv)) = (i, sv1)"
    by (metis surj_pair)
  define tags where "tags = [(''request_id'', i)] @
    (case he_traceID HE (tick (sv_world sv1)) of None \<Rightarrow> [] | Some t \<Rightarrow> [(''trace_id'', t)])"
  let ?r1 = "r\<lparr>rq_Context := WithLogger tags (WithRequestID i (rq_Context r))\<rparr>"
  have "id_for HE r i" and "same_counts sv sv1" and "sv_log sv1 = sv_log sv"
    using gen generated_id [of HE sv i sv1] by (auto simp: id_for_def same_counts_def split: if_splits)
  moreover obtain r2 where "next (?r1, set_header requestIDHeader i w, sv1) = (out, r2, w', sv')"
    using assms gen by (auto simp: RequestID_def Let_def tags_def split: prod.splits)
  ultimately show ?thesis
    by (intro exI [of _ i] exI [of _ ?r1] exI [of _ sv1] exI [of _ r2])
      (simp add: WithLogger_def WithRequestID_def RequestID_of_def Logger_of_def tags_def)
qed

text \<open>The value of a header in the response the client gets.\<close>

definition response_header :: "ResponseWriter \<Rightarrow> string \<Rightarrow> string" where
  "response_header w k = Header_Get (case rw_sent w of None \<Rightarrow> rw_Header w | Some (status, h) \<Rightarrow> h) k"

lemma has_header_response: "has_header (CanonicalHeaderKey k) v w \<Longrightarrow> response_header w k = v"
  by (auto simp: has_header_def response_header_def Header_Get_def split: option.splits)

lemma guarded_key: "k \<in> {''X-Request-ID'', ''X-Content-Type-Options'', ''X-Frame-Options'', ''Referrer-Policy'',
    ''Cross-Origin-Resource-Policy''} \<Longrightarrow> CanonicalHeaderKey k \<in> set guarded_keys"
  by (auto simp: guarded_keys_def)

lemma root_carries:
  assumes "promhttp_ok HE"
  shows "carries (has_header (CanonicalHeaderKey ''X-Request-ID'') v) (CanonicalHeaderKey ''X-Request-ID'') v
      (ServeMux HE (root_routes HE d rl))"
    and "carries (has_header (CanonicalHeaderKey ''X-Content-Type-Options'') ''nosniff'')
      (CanonicalHeaderKey ''X-Content-Type-Options'') ''nosniff'' (ServeMux HE (root_routes HE d rl))"
    and "carries (has_header (CanonicalHeaderKey ''X-Frame-Options'') v) (CanonicalHeaderKey ''X-Frame-Options'') v
      (ServeMux HE (root_routes HE d rl))"
    and "carries (has_header (CanonicalHeaderKey ''Referrer-Policy'') v) (CanonicalHeaderKey ''Referrer-Policy'') v
      (ServeMux HE (root_routes HE d rl))"
    and "carries (has_header (CanonicalHeaderKey ''Cross-Origin-Resource-Policy'') v)
      (CanonicalHeaderKey ''Cross-Origin-Resource-Policy'') v (ServeMux HE (root_routes HE d rl))"
  using promhttp_header [OF assms guarded_key]
  by (auto intro!: carries_answers request_id.answers_root nosniff.answers_root frame_options.answers_root
      referrer.answers_root resource_policy.answers_root)

lemma handler_chain_unfold:
  "handler_chain HE d rl =
     RequestID HE (Logging HE (Recover HE (Metrics HE (SecurityHeaders (ServeMux HE (root_routes HE d rl))))))"
  by (simp add: handler_chain_def)

text \<open>C29: every response carries the request id, which is the one the client sent, or else 16 hex digits
  of random bytes, and the four security headers, on every route and every outcome: success,
  refusal, rate limit, timeout, redirect and 404.\<close>

theorem response_headers:
  assumes "promhttp_ok HE" and "rw_sent w = None"
    and "handler_chain HE d rl (r, w, sv) = (out, r', w', sv')"
  shows "id_for HE r (response_header w' ''X-Request-ID'') \<and>
    response_header w' ''X-Content-Type-Options'' = ''nosniff'' \<and> response_header w' ''X-Frame-Options'' = ''DENY'' \<and>
    response_header w' ''Referrer-Policy'' = ''no-referrer'' \<and>
    response_header w' ''Cross-Origin-Resource-Policy'' = ''same-origin''"
proof -
  let ?chain = "Logging HE (Recover HE (Metrics HE (SecurityHeaders (ServeMux HE (root_routes HE d rl)))))"
  obtain i r1 sv1 r2 where run: "?chain (r1, set_header requestIDHeader i w, sv1) = (out, r2, w', sv')" and i: "id_for HE r i"
    using RequestID_run [OF assms(3) [unfolded handler_chain_unfold]] by blast
  have sent: "rw_sent (set_header requestIDHeader i w) = None"
    using assms(2) by simp
  have rid: "has_header (CanonicalHeaderKey ''X-Request-ID'') i (set_header requestIDHeader i w)"
    using assms(2) by (simp add: has_header_def map_of_Header_Set requestIDHeader_def)
  note security = carriesD [OF chain_security run sent]
  have "response_header w' ''X-Request-ID'' = i"
    using carriesD [OF chain_request_id [OF root_carries(1) [OF assms(1)] refl] run rid] by (rule has_header_response)
  moreover have "response_header w' ''X-Content-Type-Options'' = ''nosniff''"
    using security [OF nosniff.guarded_header_axioms root_carries(2) [OF assms(1)]] by (simp add: has_header_response)
  moreover have "response_header w' ''X-Frame-Options'' = ''DENY''"
    using security [OF frame_options.guarded_header_axioms root_carries(3) [OF assms(1)]] by (simp add: has_header_response)
  moreover have "response_header w' ''Referrer-Policy'' = ''no-referrer''"
    using security [OF referrer.guarded_header_axioms root_carries(4) [OF assms(1)]] by (simp add: has_header_response)
  moreover have "response_header w' ''Cross-Origin-Resource-Policy'' = ''same-origin''"
    using security [OF resource_policy.guarded_header_axioms root_carries(5) [OF assms(1)]] by (simp add: has_header_response)
  ultimately show ?thesis
    using i by simp
qed

theorem response_headers_witness:
  "response_header (fst (snd (snd (handler_chain example_henv (new_deps example_henv example_config) example_limiter
     (example_request ''GET'' ''/nowhere'' [(''X-Request-Id'', ''abc'')], new_writer, example_server))))) ''X-Request-ID'' = ''abc''"
proof -
  have "Header_Get (rq_Header (example_request ''GET'' ''/nowhere'' [(''X-Request-Id'', ''abc'')])) requestIDHeader = ''abc''"
    by (simp add: example_request_def Header_Get_def requestIDHeader_def canonical_keys)
  then show ?thesis
    using response_headers [OF example_promhttp_ok _ quad, of new_writer
        "example_request ''GET'' ''/nowhere'' [(''X-Request-Id'', ''abc'')]" "new_deps example_henv example_config"
        example_limiter example_server]
    by (simp add: new_writer_def id_for_def)
qed

subsection \<open>Access log and request counter\<close>

text \<open>A recorder that was pushed and noted the status comes off with it.\<close>

lemma unwritten_push: "unwritten n w \<Longrightarrow> unwritten (Suc n) (push_recorder w)"
  by (simp add: unwritten_def push_recorder_def)

lemma recorded_pop:
  assumes "recorded (Suc n) w" and "pop_recorder w = (rec, w')"
  shows "recorded n w'" and "sr_status rec = status_of w'" and "status_of w' = status_of w"
  using assms by (auto simp: recorded_def pop_recorder_def status_of_def split: list.splits)

text \<open>One increment of the counter and one observation of the latency, under the same labels.\<close>

definition observed :: "string \<Rightarrow> string \<Rightarrow> int \<Rightarrow> server \<Rightarrow> server \<Rightarrow> bool" where
  "observed m label status sv sv' \<longleftrightarrow>
     sv_requests sv' = sv_requests sv @ [(m, label, FormatInt status)] \<and>
     (\<exists>d. sv_durations sv' = sv_durations sv @ [(m, label, d)])"

lemma observed_frame:
  "same_counts sv0 sv \<Longrightarrow> observed m label s sv sv' \<Longrightarrow> same_counts sv' sv1 \<Longrightarrow> observed m label s sv0 sv1"
  by (auto simp: observed_def same_counts_def)

lemma Metrics_counts:
  assumes "answers (unwritten (Suc n)) (recorded (Suc n)) next"
    and "keeps (\<lambda>_. True) same_counts next"
    and "unwritten n w" and "Metrics HE next (r, w, sv) = (out, r', w', sv')"
  shows "out = Returned \<and> recorded n w' \<and>
    observed (rq_Method r') (if rq_Pattern r' = '''' then ''unmatched'' else rq_Pattern r') (status_of w') sv sv' \<and>
    (\<exists>w2 sv1 sv2. next (r, push_recorder w, sv1) = (Returned, r', w2, sv2) \<and> sv_log sv1 = sv_log sv \<and> sv_log sv' = sv_log sv2)"
proof -
  obtain t sv1 where now: "sv_now HE sv = (t, sv1)"
    by fastforce
  obtain out2 r2 w2 sv2 where inner: "next (r, push_recorder w, sv1) = (out2, r2, w2, sv2)"
    by (metis surj_pair)
  obtain rec w3 where pop: "pop_recorder w2 = (rec, w3)"
    by fastforce
  have ok: "out2 = Returned" "recorded (Suc n) w2"
    using answersD [OF assms(1) inner unwritten_push [OF assms(3)]] by auto
  have "same_counts sv sv2"
    using keepsD [OF assms(2) inner] now by (auto simp: sv_now_eq same_counts_def)
  then show ?thesis
    using assms(4) now inner pop ok recorded_pop [OF ok(2) pop]
    by (intro conjI exI [of _ w2] exI [of _ sv1] exI [of _ sv2])
      (auto simp: Metrics_def sv_now_eq Let_def observed_def same_counts_def split: prod.splits)
qed

lemma Recover_returned:
  "next (r, w, sv) = (Returned, r', w', sv') \<Longrightarrow> Recover HE next (r, w, sv) = (Returned, r', w', sv')"
  by (simp add: Recover_def)

text \<open>The line \<open>Logging\<close> adds for a response.\<close>

definition access_line :: "Request \<Rightarrow> ResponseWriter \<Rightarrow> log_line \<Rightarrow> bool" where
  "access_line r w l \<longleftrightarrow>
     log_level l = level_of_status (status_of w) \<and> log_msg l = ''request'' \<and> log_tags l = Logger_of (rq_Context r) \<and>
     map_of (log_attrs l) ''method'' = Some (rq_Method r) \<and>
     map_of (log_attrs l) ''path'' = Some (pathUnescape (rq_Path r)) \<and>
     map_of (log_attrs l) ''status'' = Some (FormatInt (status_of w))"

lemma Logging_logs:
  assumes "next (r, push_recorder w, snd (sv_now HE sv)) = (Returned, r2, w2, sv2)" and "recorded (Suc n) w2"
    and "Logging HE next (r, w, sv) = (out, r', w', sv')"
  shows "out = Returned \<and> r' = r2 \<and> recorded n w' \<and> status_of w' = status_of w2 \<and> same_counts sv2 sv' \<and>
    (\<exists>l. sv_log sv' = sv_log sv2 @ [l] \<and> access_line r2 w' l)"
proof -
  obtain rec w3 where pop: "pop_recorder w2 = (rec, w3)"
    by fastforce
  show ?thesis
    using assms(1,3) pop recorded_pop [OF assms(2) pop]
    by (auto simp: Logging_def sv_now_eq log_at_def access_line_def access_attrs_def same_counts_def split: prod.splits)
qed

text \<open>What a handler leaves of the request it was given: method, path, context and matched pattern.\<close>

definition same_request :: "Request \<Rightarrow> Request \<Rightarrow> bool" where
  "same_request r r' \<longleftrightarrow>
     rq_Method r' = rq_Method r \<and> rq_Path r' = rq_Path r \<and> rq_Context r' = rq_Context r \<and> rq_Pattern r' = rq_Pattern r"

definition keeps_request :: "handler \<Rightarrow> bool" where
  "keeps_request h \<longleftrightarrow> (\<forall>r w sv. same_request r (fst (snd (h (r, w, sv)))))"

lemma keeps_requestD: "keeps_request h \<Longrightarrow> h (r, w, sv) = (out, r', w', sv') \<Longrightarrow> same_request r r'"
  unfolding keeps_request_def by (metis fst_conv snd_conv)

lemma keeps_request_api: "keeps_request (api_handler HE d rl)"
proof -
  have timeout: "keeps_request (Timeout HE t h)" for t h
    by (simp add: keeps_request_def same_request_def Timeout_def Let_def split: prod.splits deadline.splits outcome.splits)
  have limit: "keeps_request (RateLimiter_Middleware HE rl h)" if "keeps_request h" for h
    using that by (auto simp: keeps_request_def same_request_def RateLimiter_Middleware_def split: prod.splits sum.splits)
  have body: "keeps_request (MaxBodyBytes b h)" if "keeps_request h" for b h
    using that by (simp add: keeps_request_def same_request_def MaxBodyBytes_def)
  have cors: "keeps_request (CORS origins h)" if "keeps_request h" for origins h
    using that by (simp add: keeps_request_def same_request_def CORS_def Let_def)
  show ?thesis
    by (simp add: api_handler_def timeout limit body cors)
qed

lemma keeps_request_root:
  assumes "promhttp_ok HE" and "(pt, h) \<in> set (root_routes HE d rl)"
  shows "keeps_request h"
proof -
  have "keeps_request (he_promhttp HE)"
    unfolding keeps_request_def same_request_def using promhttp_okD(2) [OF assms(1) quad] by simp
  moreover have "keeps_request (Health HE v)" "keeps_request (Ready HE v)" for v
    by (auto simp: keeps_request_def same_request_def Health_def Ready_def split: prod.splits sum.splits)
  ultimately show ?thesis
    using assms(2) keeps_request_api by (auto simp: root_routes_def route_def)
qed

text \<open>The pattern the root mux matches.\<close>

definition root_pattern :: "henv \<Rightarrow> Deps \<Rightarrow> RateLimiter \<Rightarrow> Request \<Rightarrow> string" where
  "root_pattern HE d rl r =
     (case mux_find (root_routes HE d rl) (rq_Method r)
             (if rq_Method r = ''CONNECT'' then rq_Path r else cleanPath (rq_Path r)) of
        None \<Rightarrow> '''' | Some (pt, _) \<Rightarrow> pt_text pt)"

lemma root_request:
  assumes "promhttp_ok HE" and "ServeMux HE (root_routes HE d rl) (r, w, sv) = (out, r', w', sv')"
  shows "same_request (r\<lparr>rq_Pattern := root_pattern HE d rl r\<rparr>) r'"
proof -
  let ?mx = "root_routes HE d rl"
  let ?p = "if rq_Method r = ''CONNECT'' then rq_Path r else cleanPath (rq_Path r)"
  consider (own) "r' = r\<lparr>rq_Pattern := root_pattern HE d rl r\<rparr>" | (handler) pt h bs where
      "mux_find ?mx (rq_Method r) ?p = Some (pt, h, bs)"
      "h (r\<lparr>rq_Pattern := pt_text pt, rq_PathValues := bs\<rparr>, w, sv) = (out, r', w', sv')"
    using assms(2) unfolding ServeMux_def root_pattern_def Let_def
    by (auto split: if_splits option.splits prod.splits)
  then show ?thesis
  proof cases
    case own
    then show ?thesis
      by (simp add: same_request_def)
  next
    case handler
    then show ?thesis
      using keeps_requestD [OF keeps_request_root [OF assms(1) mux_find_in [OF handler(1)]] handler(2)]
      by (simp add: same_request_def root_pattern_def)
  qed
qed

lemma SecurityHeaders_run: "SecurityHeaders next (r, w, sv) = (out, r', w', sv') \<Longrightarrow>
    \<exists>w1. next (r, w1, sv) = (out, r', w', sv') \<and> rw_recorders w1 = rw_recorders w \<and> rw_sent w1 = rw_sent w"
  unfolding SecurityHeaders_def by (metis case_prod_conv set_header_sel(1,3))

lemma answers_SecurityHeaders:
  assumes "answers (unwritten n) (recorded n) next"
  shows "answers (unwritten n) (recorded n) (SecurityHeaders next)"
  by (rule answersI) (auto dest!: SecurityHeaders_run dest: answersD [OF assms] simp: unwritten_def)

lemma chain_accounted:
  assumes "promhttp_ok HE" and "unwritten 0 w"
    and "Logging HE (Recover HE (Metrics HE (SecurityHeaders (ServeMux HE (root_routes HE d rl))))) (r, w, sv) = (out, r', w', sv')"
  shows "out = Returned \<and> recorded 0 w' \<and>
    observed (rq_Method r) (if root_pattern HE d rl r = '''' then ''unmatched'' else root_pattern HE d rl r)
      (status_of w') sv sv' \<and>
    (\<exists>ls l r1. sv_log sv' = sv_log sv @ ls @ [l] \<and> list_all (\<lambda>l. log_msg l \<noteq> ''request'') ls \<and>
       access_line r1 w' l \<and> same_request (r\<lparr>rq_Pattern := root_pattern HE d rl r\<rparr>) r1)"
proof -
  let ?root = "ServeMux HE (root_routes HE d rl)"
  let ?metrics = "Metrics HE (SecurityHeaders ?root)"
  have fresh: "unwritten 1 (push_recorder w)"
    using unwritten_push [OF assms(2)] by simp
  obtain t sv2 where now: "sv_now HE sv = (t, sv2)"
    by fastforce
  obtain out3 r3 w3 sv3 where inner: "?metrics (r, push_recorder w, sv2) = (out3, r3, w3, sv3)"
    by (metis surj_pair)
  have kept: "keeps (\<lambda>_. True) R ?root \<Longrightarrow> keeps (\<lambda>_. True) R (SecurityHeaders ?root)" for R
    by (rule keepsI) (auto dest!: SecurityHeaders_run dest: keepsD)
  have counted: "out3 = Returned" "recorded 1 w3"
      "observed (rq_Method r3) (if rq_Pattern r3 = '''' then ''unmatched'' else rq_Pattern r3) (status_of w3) sv2 sv3"
    and "\<exists>w5 sv4 sv5. SecurityHeaders ?root (r, push_recorder (push_recorder w), sv4) = (Returned, r3, w5, sv5) \<and>
      sv_log sv4 = sv_log sv2 \<and> sv_log sv3 = sv_log sv5"
    using Metrics_counts [OF answers_SecurityHeaders [OF status.answers_root [OF promhttp_status [OF assms(1)]]]
        kept [OF root_counts_nothing [OF promhttp_keeps [OF assms(1)]]] fresh inner] by simp_all
  then obtain w5 sv4 sv5 where below: "SecurityHeaders ?root (r, push_recorder (push_recorder w), sv4) = (Returned, r3, w5, sv5)"
      "sv_log sv4 = sv_log sv2" "sv_log sv3 = sv_log sv5"
    by blast
  have "no_access_line sv4 sv5"
    using keepsD [OF kept [OF root_quiet [OF promhttp_keeps [OF assms(1)]]] below(1)] quiet.rel_refl by simp
  then obtain ls where ls: "sv_log sv3 = sv_log sv @ ls" "list_all (\<lambda>l. log_msg l \<noteq> ''request'') ls"
    using below(2,3) now by (auto simp: no_access_line_def sv_now_eq)
  have r3: "same_request (r\<lparr>rq_Pattern := root_pattern HE d rl r\<rparr>) r3"
    using SecurityHeaders_run [OF below(1)] root_request [OF assms(1)] by blast
  have "Recover HE ?metrics (r, push_recorder w, snd (sv_now HE sv)) = (Returned, r3, w3, sv3)"
    using Recover_returned [of ?metrics] inner counted(1) now by simp
  note logged = Logging_logs [OF this _ assms(3), of 0]
  have "observed (rq_Method r) (if root_pattern HE d rl r = '''' then ''unmatched'' else root_pattern HE d rl r)
      (status_of w') sv sv'"
    using observed_frame [OF _ counted(3), of sv sv'] logged counted(2) now r3
    by (auto simp: same_request_def sv_now_eq same_counts_def)
  then show ?thesis
    using logged counted(2) ls r3 now by (fastforce simp: same_request_def)
qed

text \<open>C12: every request is accounted for exactly once.  It is answered, its response status is the one the
  access log and the request counter show, the counter is incremented once and the latency observed
  once, under its method and the pattern of the root mux, and exactly one access line is written, at the end, tagged with the request id of the response.\<close>

theorem request_accounted:
  assumes "promhttp_ok HE" and "handler_chain HE d rl (r, new_writer, sv) = (out, r', w', sv')"
  shows "out = Returned \<and> rw_sent w' \<noteq> None \<and>
    observed (rq_Method r) (if root_pattern HE d rl r = '''' then ''unmatched'' else root_pattern HE d rl r)
      (status_of w') sv sv' \<and>
    (\<exists>ls l r1. sv_log sv' = sv_log sv @ ls @ [l] \<and> list_all (\<lambda>l. log_msg l \<noteq> ''request'') ls \<and>
       access_line r1 w' l \<and> rq_Method r1 = rq_Method r \<and> rq_Path r1 = rq_Path r \<and>
       (''request_id'', response_header w' ''X-Request-ID'') \<in> set (log_tags l))"
proof -
  obtain i r1 sv1 r2 where run: "Logging HE (Recover HE (Metrics HE (SecurityHeaders (ServeMux HE (root_routes HE d rl)))))
      (r1, set_header requestIDHeader i new_writer, sv1) = (out, r2, w', sv')"
    and r1: "(''request_id'', i) \<in> set (Logger_of (rq_Context r1))" "rq_Method r1 = rq_Method r" "rq_Path r1 = rq_Path r"
      "same_counts sv sv1" "sv_log sv1 = sv_log sv"
    using RequestID_run [OF assms(2) [unfolded handler_chain_unfold]] by blast
  have fresh: "unwritten 0 (set_header requestIDHeader i new_writer)"
    by (simp add: unwritten_def new_writer_def)
  have "has_header (CanonicalHeaderKey ''X-Request-ID'') i (set_header requestIDHeader i new_writer)"
    by (simp add: has_header_def map_of_Header_Set requestIDHeader_def new_writer_def)
  from carriesD [OF chain_request_id [OF root_carries(1) [OF assms(1)] refl] run this]
  have "response_header w' ''X-Request-ID'' = i"
    by (rule has_header_response)
  moreover have "root_pattern HE d rl r1 = root_pattern HE d rl r"
    using r1(2,3) by (simp add: root_pattern_def)
  ultimately show ?thesis
    using chain_accounted [OF assms(1) fresh run] r1 observed_frame [OF r1(4)]
    by (fastforce simp: recorded_def same_request_def access_line_def same_counts_def)
qed

theorem request_accounted_witness:
  "let (out, r', w', sv') = handler_chain example_henv (new_deps example_henv example_config) example_limiter
         (example_request ''GET'' ''/nowhere'' [], new_writer, example_server)
   in out = Returned \<and> length (sv_requests sv') = 1"
  using request_accounted [OF example_promhttp_ok quad, of "new_deps example_henv example_config" example_limiter
      "example_request ''GET'' ''/nowhere'' []" example_server]
  by (simp add: split_beta Let_def example_server_def new_server_def observed_def)

subsection \<open>The route label\<close>

lemma api_path_segs: "path_segs (''/api/v1/'' @ rest) = ''api'' # ''v1'' # strings_Split CHR ''/'' rest"
  by (simp add: path_segs_def)

lemma strings_Split_nonempty: "strings_Split c s \<noteq> []"
  by (induction s) (auto split: list.splits)

lemma api_root_pattern:
  assumes "rq_Path r = ''/api/v1/'' @ rest" and "cleanPath (rq_Path r) = rq_Path r"
  shows "root_pattern HE d rl r = ''/api/v1/''"
proof -
  have "mux_find (root_routes HE d rl) (rq_Method r) (''/api/v1/'' @ rest) =
      Some (fst (root_routes HE d rl ! 3), api_handler HE d rl, [])"
    unfolding root_routes_def route_def
    by (simp add: match_path_def match_method_def api_path_segs pathUnescape_plain strings_Split_nonempty del: append_Cons)
  moreover have "(if rq_Method r = ''CONNECT'' then rq_Path r else cleanPath (rq_Path r)) = ''/api/v1/'' @ rest"
    using assms by simp
  ultimately have "root_pattern HE d rl r = pt_text (fst (root_routes HE d rl ! 3))"
    unfolding root_pattern_def by simp
  then show ?thesis
    by (simp add: root_routes_def route_def)
qed

text \<open>Every request of the API is counted under the one route \<open>/api/v1/\<close>, whatever the endpoint: the
  pattern the inner muxes match is stored in the copy of the request that \<open>TimeoutHandler\<close> makes.\<close>

theorem metrics_route_label:
  assumes "promhttp_ok HE" and "rq_Path r = ''/api/v1/'' @ rest" and "cleanPath (rq_Path r) = rq_Path r"
    and "handler_chain HE d rl (r, new_writer, sv) = (out, r', w', sv')"
  shows "sv_requests sv' = sv_requests sv @ [(rq_Method r, ''/api/v1/'', FormatInt (status_of w'))]"
proof -
  obtain i r1 sv1 r2 where run: "Logging HE (Recover HE (Metrics HE (SecurityHeaders (ServeMux HE (root_routes HE d rl)))))
      (r1, set_header requestIDHeader i new_writer, sv1) = (out, r2, w', sv')"
    and r1: "rq_Method r1 = rq_Method r" "rq_Path r1 = rq_Path r" "same_counts sv sv1"
    using RequestID_run [OF assms(4) [unfolded handler_chain_unfold]] by blast
  have "unwritten 0 (set_header requestIDHeader i new_writer)"
    by (simp add: unwritten_def new_writer_def)
  then show ?thesis
    using chain_accounted [OF assms(1) _ run] api_root_pattern [of r1 rest HE d rl] assms(2,3) r1
    by (simp add: observed_def same_counts_def)
qed

theorem metrics_route_label_witness:
  "map (fst \<circ> snd) (sv_requests (snd (snd (snd (handler_chain example_henv (new_deps example_henv example_config) example_limiter
     (authorized ''GET'' (''/api/v1/tasks/'' @ FormatInt 2) 1, new_writer, example_server)))))) = [''/api/v1/'']"
proof -
  let ?r = "authorized ''GET'' (''/api/v1/tasks/'' @ FormatInt 2) 1"
  have "rq_Path ?r = ''/api/v1/'' @ ''tasks/'' @ FormatInt 2" and "cleanPath (rq_Path ?r) = rq_Path ?r"
    using cleanPath_plain [OF task_path_plain [of 2]]
    by (simp_all add: authorized_def example_request_def task_path del: append_Cons) (simp add: join_segs_def)
  then show ?thesis
    using metrics_route_label [OF example_promhttp_ok _ _ quad, of ?r "''tasks/'' @ FormatInt 2"
        "new_deps example_henv example_config" example_limiter example_server]
    by (simp add: example_server_def new_server_def)
qed

subsection \<open>Panics\<close>

text \<open>C38: a panic below \<open>Metrics\<close> does not end the process: the client gets 500 with the fixed body, the
  panic and the request are logged, but the request is not counted.\<close>

theorem panic_recovered:
  assumes "next (r, push_recorder (push_recorder w), snd (sv_now HE (snd (sv_now HE sv)))) = (Panicked p, r2, w2, sv2)"
    and "unwritten 2 w2" and "rw_body w2 = []"
    and "Logging HE (Recover HE (Metrics HE next)) (r, w, sv) = (out, r', w', sv')"
  shows "out = Returned \<and> status_of w' = 500 \<and>
    rw_body w' = [P_Error \<lparr>eb_Error = ''internal server error'', eb_Code = CodeInternal,
      eb_RequestID = RequestID_of (rq_Context r2)\<rparr>] \<and>
    same_counts sv2 sv' \<and>
    (\<exists>l. sv_log sv' = sv_log sv2 @
       [\<lparr>log_level = ''ERROR'', log_msg = ''panic recovered'',
         log_attrs = [(''error'', p), (''path'', pathUnescape (rq_Path r2))], log_tags = Logger_of (rq_Context r2)\<rparr>, l] \<and>
       access_line r2 w' l \<and> log_level l = ''ERROR'')"
proof -
  obtain rec w3 where pop: "pop_recorder w2 = (rec, w3)"
    by fastforce
  have w3: "unwritten 1 w3" "rw_body w3 = []"
    using assms(2,3) pop by (auto simp: unwritten_def pop_recorder_def numeral_2_eq_2 split: list.splits)
  let ?w = "response_Error HE r2 500 CodeInternal ''internal server error'' w3"
  let ?sv = "log_Error (rq_Context r2) ''panic recovered'' [(''error'', p), (''path'', pathUnescape (rq_Path r2))] sv2"
  have sent: "recorded 1 ?w" "status_of ?w = 500" "rw_body ?w = [P_Error \<lparr>eb_Error = ''internal server error'',
      eb_Code = CodeInternal, eb_RequestID = RequestID_of (rq_Context r2)\<rparr>]"
    using w3 unwritten_json [OF w3(1)] json_blank [of w3 500]
    by (simp_all add: response_Error_def blank_def unwritten_def)
  have run: "Recover HE (Metrics HE next) (r, push_recorder w, snd (sv_now HE sv)) = (Returned, r2, ?w, ?sv)"
    using assms(1) pop by (simp add: Recover_def Metrics_def sv_now_eq)
  have "rw_body w' = rw_body ?w"
    using run assms(4) by (auto simp: Logging_def sv_now_eq pop_recorder_def split: prod.splits list.splits)
  then show ?thesis
    using Logging_logs [OF run _ assms(4), of 0] sent
    by (auto simp: log_at_def access_line_def level_of_status_def same_counts_def)
qed

theorem panic_recovered_witness:
  "let (out, r', w', sv') = Logging example_henv (Recover example_henv (Metrics example_henv
         (\<lambda>(r, w, sv). (Panicked ''nil pointer'', r, w, sv)))) (example_request ''GET'' ''/'' [], new_writer, example_server)
   in out = Returned \<and> status_of w' = 500 \<and> sv_requests sv' = []"
proof -
  have "unwritten 2 (push_recorder (push_recorder new_writer))" and "rw_body (push_recorder (push_recorder new_writer)) = []"
    by (simp_all add: unwritten_def push_recorder_def new_writer_def numeral_2_eq_2)
  then show ?thesis
    using panic_recovered [of "\<lambda>(r, w, sv). (Panicked ''nil pointer'', r, w, sv)" "example_request ''GET'' ''/'' []"
        new_writer example_henv example_server, OF _ _ _ quad]
    by (simp add: split_beta Let_def with_world_def time_Now_def same_counts_def)
qed

end
