(* ===== verification/Limits.thy ===== *)
theory Limits
  imports Observability
begin

text \<open>
  Bounds: the budget the shared limiter grants, connecting with retries, migrations that can be
  repeated.
\<close>

subsection \<open>Keys of the shared limiter\<close>

lemma nat_digits_value: "foldl (\<lambda>n c. 10 * n + (ord c - 48)) 0 (nat_digits n) = n"
proof (induction n rule: nat_digits.induct)
  case (1 n)
  then show ?case
    by (cases "n < 10"; subst nat_digits.simps) (auto simp: ord_chr)
qed

lemma FormatInt_inj: "FormatInt x = FormatInt y \<Longrightarrow> x = y"
proof -
  have inj: "nat_digits m = nat_digits n \<Longrightarrow> m = n" for m n
    by (metis nat_digits_value)
  have "CHR ''-'' # s \<noteq> nat_digits n" for s n
    using nat_digits_hd_sign [of n] by (metis list.sel(1))
  then show "FormatInt x = FormatInt y \<Longrightarrow> x = y"
    using inj [of "nat x" "nat y"] inj [of "nat (- x)" "nat (- y)"]
    by (auto simp: FormatInt_def split: if_splits) (metis)
qed

lemma colon_FormatInt: "CHR '':'' \<notin> set (FormatInt t)"
proof -
  have "CHR '':'' \<notin> set (nat_digits n)" for n
    using set_nat_digits [of "CHR '':''" n] by auto
  then show ?thesis
    by (simp add: FormatInt_def)
qed

lemma split_last:
  "xs @ c # ys = xs' @ c # ys' \<Longrightarrow> c \<notin> set ys \<Longrightarrow> c \<notin> set ys' \<Longrightarrow> xs = xs' \<and> ys = ys'"
  by (auto simp: append_eq_append_conv2 Cons_eq_append_conv append_eq_Cons_conv)

text \<open>Clients do not share counters: the part after the last colon of a key is the second.\<close>

lemma redis_key_inj: "redis_key ip t = redis_key ip' t' \<longleftrightarrow> ip = ip' \<and> t div 1000000000 = t' div 1000000000"
  using split_last [of ip "CHR '':''" "FormatInt (t div 1000000000)" ip' "FormatInt (t' div 1000000000)"]
    colon_FormatInt FormatInt_inj
  by (auto simp: redis_key_def)

subsection \<open>The budget of a client\<close>

text \<open>
  A run of the shared limiter: requests that reach \<open>RateLimiter.Middleware\<close> over the Redis back end, each
  noted with its client, the process' clock, whether the middleware let it in (it went on to \<open>next\<close>:
  nothing has been answered yet) and whether Redis failed to answer; in between anything that leaves the
  counters alone, the handlers of the requests that were let in included.
\<close>

definition limited_call :: "henv \<Rightarrow> int \<Rightarrow> handler" where
  "limited_call HE burst = RateLimiter_Middleware HE \<lparr>rl_backend = redisBackend burst\<rparr> (\<lambda>(r, w, sv). (Returned, r, w, sv))"

inductive limiter_run :: "henv \<Rightarrow> int \<Rightarrow> server \<Rightarrow> (string \<times> time \<times> bool \<times> bool) list \<Rightarrow> server \<Rightarrow> bool" for HE burst where
  finished: "limiter_run HE burst sv [] sv"
| call: "rw_sent w = None \<Longrightarrow> limited_call HE burst (r, w, sv) = (oc, r', w', sv1) \<Longrightarrow> limiter_run HE burst sv1 rs sv2 \<Longrightarrow>
    limiter_run HE burst sv
      ((clientIP r, env_now (he_env HE) (tick (sv_world sv)), rw_sent w' = None,
        he_redis HE (tick (sv_world sv) + 1) \<noteq> Answered) # rs) sv2"
| other: "sv_redis sv1 = sv_redis sv \<Longrightarrow> tick (sv_world sv) \<le> tick (sv_world sv1) \<Longrightarrow>
    limiter_run HE burst sv1 rs sv2 \<Longrightarrow> limiter_run HE burst sv rs sv2"

text \<open>How often client \<open>ip\<close> asked in a second, how often it was let in, and how often Redis failed it.\<close>

definition asked :: "string \<Rightarrow> int \<Rightarrow> (string \<times> time \<times> bool \<times> bool) list \<Rightarrow> nat" where
  "asked ip s rs = length (filter (\<lambda>(ip', t, _). ip' = ip \<and> t div 1000000000 = s) rs)"

definition let_in :: "string \<Rightarrow> int \<Rightarrow> (string \<times> time \<times> bool \<times> bool) list \<Rightarrow> nat" where
  "let_in ip s rs = length (filter (\<lambda>(ip', t, passed, _). ip' = ip \<and> t div 1000000000 = s \<and> passed) rs)"

definition unanswered :: "string \<Rightarrow> int \<Rightarrow> (string \<times> time \<times> bool \<times> bool) list \<Rightarrow> nat" where
  "unanswered ip s rs = length (filter (\<lambda>(ip', t, _, failed). ip' = ip \<and> t div 1000000000 = s \<and> failed) rs)"

definition counter :: "(string \<times> int \<times> time) list \<Rightarrow> string \<Rightarrow> int" where
  "counter store K = (case map_of store K of None \<Rightarrow> 0 | Some (cnt, _) \<Rightarrow> cnt)"

text \<open>A counter of the key outlives the window that starts at \<open>t0\<close>; the moments of the window.\<close>

definition outlives :: "(string \<times> int \<times> time) list \<Rightarrow> string \<Rightarrow> time \<Rightarrow> bool" where
  "outlives store K t0 \<longleftrightarrow> (\<forall>cnt expiry. map_of store K = Some (cnt, expiry) \<longrightarrow> t0 + windowMillis * 1000000 \<le> expiry)"

definition in_window :: "henv \<Rightarrow> time \<Rightarrow> nat \<Rightarrow> nat \<Rightarrow> bool" where
  "in_window HE t0 i j \<longleftrightarrow>
     (\<forall>n. i \<le> n \<and> n < j \<longrightarrow> t0 \<le> he_redis_now HE n \<and> he_redis_now HE n < t0 + windowMillis * 1000000)"

lemma incr_counter:
  assumes "incrAndExpire key windowMillis now store = (cnt, store')" and "outlives store K t0"
    and "t0 \<le> now" and "now < t0 + windowMillis * 1000000"
  shows "outlives store' K t0" and "key = K \<Longrightarrow> cnt = counter store K + 1 \<and> counter store' K = cnt"
    and "key \<noteq> K \<Longrightarrow> counter store' K = counter store K"
  using assms
  by (auto simp: incrAndExpire_def outlives_def counter_def update_conv' split: option.splits if_splits)

lemma allow_ticks: "redis_allow HE burst ip sv = (ra, sv1) \<Longrightarrow> tick (sv_world sv1) = tick (sv_world sv) + 2"
  by (auto simp: redis_allow_def run_script_def sv_now_eq Let_def split: answer.splits prod.splits)

text \<open>One call: the counter of the key moves by one or not at all, and the answer follows it.\<close>

lemma allow_counter:
  assumes "redis_allow HE burst ip sv = (ra, sv1)" and "outlives (sv_redis sv) K t0"
    and "in_window HE t0 (tick (sv_world sv)) (tick (sv_world sv1))"
  defines "key \<equiv> redis_key ip (env_now (he_env HE) (tick (sv_world sv)))"
  shows "outlives (sv_redis sv1) K t0" and "tick (sv_world sv1) = tick (sv_world sv) + 2"
    and "key \<noteq> K \<Longrightarrow> counter (sv_redis sv1) K = counter (sv_redis sv) K"
    and "key = K \<Longrightarrow> counter (sv_redis sv1) K = counter (sv_redis sv) K + 1 \<and>
        (ra = Inr (counter (sv_redis sv) K + 1 \<le> burst) \<or> isl ra \<and> he_redis HE (tick (sv_world sv) + 1) \<noteq> Answered) \<or>
      counter (sv_redis sv1) K = counter (sv_redis sv) K \<and> isl ra \<and> he_redis HE (tick (sv_world sv) + 1) \<noteq> Answered"
proof -
  let ?n = "tick (sv_world sv) + 1"
  obtain cnt store where incr: "incrAndExpire key windowMillis (he_redis_now HE ?n) (sv_redis sv) = (cnt, store)"
    by fastforce
  show ticks: "tick (sv_world sv1) = tick (sv_world sv) + 2"
    using allow_ticks [OF assms(1)] .
  then have "t0 \<le> he_redis_now HE ?n" "he_redis_now HE ?n < t0 + windowMillis * 1000000"
    using assms(3) by (simp_all add: in_window_def)
  note step = incr_counter [OF incr assms(2) this]
  have runs: "sv_redis sv1 = store \<and> ra = Inr (cnt \<le> burst) \<and> he_redis HE ?n = Answered \<or>
      sv_redis sv1 = store \<and> isl ra \<and> he_redis HE ?n \<noteq> Answered \<or>
      sv_redis sv1 = sv_redis sv \<and> isl ra \<and> he_redis HE ?n \<noteq> Answered"
    using assms(1) incr by (auto simp: redis_allow_def run_script_def sv_now_eq Let_def key_def split: answer.splits)
  show "outlives (sv_redis sv1) K t0"
    using runs step(1) assms(2) by auto
  show "key \<noteq> K \<Longrightarrow> counter (sv_redis sv1) K = counter (sv_redis sv) K"
    using runs step(3) by auto
  show "key = K \<Longrightarrow> counter (sv_redis sv1) K = counter (sv_redis sv) K + 1 \<and>
        (ra = Inr (counter (sv_redis sv) K + 1 \<le> burst) \<or> isl ra \<and> he_redis HE ?n \<noteq> Answered) \<or>
      counter (sv_redis sv1) K = counter (sv_redis sv) K \<and> isl ra \<and> he_redis HE ?n \<noteq> Answered"
    using runs step(2) by auto
qed

text \<open>One request at the middleware: a failure of Redis lets it in.\<close>

lemma limited_call_counter:
  assumes "limited_call HE burst (r, w, sv) = (oc, r', w', sv1)" and "rw_sent w = None" and "outlives (sv_redis sv) K t0"
    and "in_window HE t0 (tick (sv_world sv)) (tick (sv_world sv) + 2)"
  defines "key \<equiv> redis_key (clientIP r) (env_now (he_env HE) (tick (sv_world sv)))"
    and "failed \<equiv> he_redis HE (tick (sv_world sv) + 1) \<noteq> Answered"
  shows "outlives (sv_redis sv1) K t0" and "tick (sv_world sv1) = tick (sv_world sv) + 2"
    and "key \<noteq> K \<Longrightarrow> counter (sv_redis sv1) K = counter (sv_redis sv) K"
    and "key = K \<Longrightarrow>
      \<not> failed \<and> counter (sv_redis sv1) K = counter (sv_redis sv) K + 1 \<and>
        (rw_sent w' = None \<longleftrightarrow> counter (sv_redis sv) K + 1 \<le> burst) \<or>
      failed \<and> rw_sent w' = None \<and>
        counter (sv_redis sv1) K \<in> {counter (sv_redis sv) K, counter (sv_redis sv) K + 1}"
proof -
  obtain ra sv' where allow: "redis_allow HE burst (clientIP r) sv = (ra, sv')"
    by fastforce
  have "in_window HE t0 (tick (sv_world sv)) (tick (sv_world sv'))"
    using assms(4) allow_ticks [OF allow] by simp
  note step = allow_counter [OF allow assms(3) this]
  have answer: "isl ra \<longleftrightarrow> failed"
    using allow by (auto simp: redis_allow_def run_script_def sv_now_eq Let_def failed_def split: answer.splits prod.splits)
  have same: "sv_redis sv1 = sv_redis sv'" "tick (sv_world sv1) = tick (sv_world sv')"
    and w': "rw_sent w' = None \<longleftrightarrow> isl ra \<or> ra = Inr True"
    using assms(1,2) allow
    by (auto simp: limited_call_def RateLimiter_Middleware_def backend_allow_def response_Error_def log_at_def
        split: sum.splits if_splits)
  show "outlives (sv_redis sv1) K t0" "tick (sv_world sv1) = tick (sv_world sv) + 2"
    "key \<noteq> K \<Longrightarrow> counter (sv_redis sv1) K = counter (sv_redis sv) K"
    using step(1-3) same by (simp_all add: key_def)
  show "key = K \<Longrightarrow>
      \<not> failed \<and> counter (sv_redis sv1) K = counter (sv_redis sv) K + 1 \<and>
        (rw_sent w' = None \<longleftrightarrow> counter (sv_redis sv) K + 1 \<le> burst) \<or>
      failed \<and> rw_sent w' = None \<and>
        counter (sv_redis sv1) K \<in> {counter (sv_redis sv) K, counter (sv_redis sv) K + 1}"
    using step(4) same w' answer by (auto simp: key_def)
qed

lemma limited_call_ticks: "limited_call HE burst (r, w, sv) = (oc, r', w', sv1) \<Longrightarrow> tick (sv_world sv1) = tick (sv_world sv) + 2"
  by (cases "redis_allow HE burst (clientIP r) sv")
    (auto simp: limited_call_def RateLimiter_Middleware_def backend_allow_def log_at_def dest: allow_ticks split: sum.splits if_splits)

lemma limiter_run_ticks: "limiter_run HE burst sv rs sv' \<Longrightarrow> tick (sv_world sv) \<le> tick (sv_world sv')"
  by (induction rule: limiter_run.induct) (auto dest: limited_call_ticks)

lemma counts_Cons [simp]:
  "asked ip s ((ip', t, b, f) # rs) = (if ip' = ip \<and> t div 1000000000 = s then 1 else 0) + asked ip s rs"
  "let_in ip s ((ip', t, b, f) # rs) = (if ip' = ip \<and> t div 1000000000 = s then (if b then 1 else 0) else 0) + let_in ip s rs"
  "unanswered ip s ((ip', t, b, f) # rs) = (if ip' = ip \<and> t div 1000000000 = s then (if f then 1 else 0) else 0) + unanswered ip s rs"
  "asked ip s [] = 0" "let_in ip s [] = 0" "unanswered ip s [] = 0"
  by (simp_all add: asked_def let_in_def unanswered_def)

lemma let_in_count:
  fixes ip :: string and s :: int
  assumes "limiter_run HE burst sv rs sv'"
  defines "K \<equiv> redis_key ip (s * 1000000000)"
  shows "in_window HE t0 (tick (sv_world sv)) (tick (sv_world sv')) \<Longrightarrow> outlives (sv_redis sv) K t0 \<Longrightarrow>
    int (let_in ip s rs) \<le> max 0 (burst - counter (sv_redis sv) K) + int (unanswered ip s rs) \<and>
    min (int (asked ip s rs)) (burst - counter (sv_redis sv) K) \<le> int (let_in ip s rs) \<and>
    unanswered ip s rs \<le> let_in ip s rs"
  using assms(1)
proof (induction rule: limiter_run.induct)
  case (call w r sv oc r' w' sv1 rs sv2)
  let ?key = "redis_key (clientIP r) (env_now (he_env HE) (tick (sv_world sv)))"
  have win: "in_window HE t0 (tick (sv_world sv)) (tick (sv_world sv) + 2)" "in_window HE t0 (tick (sv_world sv1)) (tick (sv_world sv2))"
    using call.prems(1) limiter_run_ticks [OF call(3)] limited_call_ticks [OF call(2)] by (auto simp: in_window_def)
  note step = limited_call_counter [OF call(2,1) call.prems(2) win(1)]
  have key: "?key = K \<longleftrightarrow> clientIP r = ip \<and> env_now (he_env HE) (tick (sv_world sv)) div 1000000000 = s"
    by (simp add: K_def redis_key_inj)
  note IH = call.IH [OF win(2) step(1)]
  show ?case
  proof (cases "?key = K")
    case False
    then have "(clientIP r = ip \<and> env_now (he_env HE) (tick (sv_world sv)) div 1000000000 = s) = False"
      using key by simp
    then show ?thesis
      using IH step(3) [OF False] by (simp only: counts_Cons if_False add_0)
  next
    case True
    from step(4) [OF this] show ?thesis
    proof
      assume "\<not> he_redis HE (tick (sv_world sv) + 1) \<noteq> Answered \<and>
        counter (sv_redis sv1) K = counter (sv_redis sv) K + 1 \<and>
        (rw_sent w' = None \<longleftrightarrow> counter (sv_redis sv) K + 1 \<le> burst)"
      then show ?thesis
        using IH True key by (cases "counter (sv_redis sv) K + 1 \<le> burst") (simp_all add: min_def split: if_splits)
    next
      assume "he_redis HE (tick (sv_world sv) + 1) \<noteq> Answered \<and> rw_sent w' = None \<and>
        counter (sv_redis sv1) K \<in> {counter (sv_redis sv) K, counter (sv_redis sv) K + 1}"
      then show ?thesis
        using IH True key by (elim conjE insertE) (simp_all add: min_def split: if_splits)
    qed
  qed
next
  case (other sv1 sv rs sv2)
  then show ?case
    by (auto simp: in_window_def)
qed simp

text \<open>C20: the budget of a client at the middleware of the shared limiter, under every interleaving with
  other clients and other work and under every failure of Redis.  Of the requests a client makes within
  one second of the process clock, at most \<open>burst\<close> are let in beyond those for which Redis failed to
  answer; each of those is let in, too, because the middleware fails open; and at least the first
  \<open>burst\<close> requests are let in, so no client is refused on account of another.  While Redis answers the
  client's requests it therefore lets in exactly \<open>min\<close> of what is asked and \<open>burst\<close>.  Assumed: no
  request of that client in that second was counted before (its key is absent), and by the clock of
  Redis the requests fall into one window of a counter.\<close>

theorem redis_burst_bound:
  assumes "limiter_run HE burst sv rs sv'" and "map_of (sv_redis sv) (redis_key ip (s * 1000000000)) = None" and "0 \<le> burst"
    and "in_window HE t0 (tick (sv_world sv)) (tick (sv_world sv'))"
  shows "int (let_in ip s rs) \<le> burst + int (unanswered ip s rs) \<and> unanswered ip s rs \<le> let_in ip s rs \<and>
    min (int (asked ip s rs)) burst \<le> int (let_in ip s rs) \<and>
    (unanswered ip s rs = 0 \<longrightarrow> int (let_in ip s rs) = min (int (asked ip s rs)) burst)"
proof -
  have "let_in ip s rs \<le> asked ip s rs"
    unfolding let_in_def asked_def by (induction rs) auto
  then show ?thesis
    using let_in_count [OF assms(1,4), of ip s] assms(2,3) by (auto simp: outlives_def counter_def)
qed

text \<open>Twelve requests of one client in one second, with a budget of ten.\<close>

definition still_henv :: henv where
  "still_henv = example_henv\<lparr>he_env := example_env\<lparr>env_now := (\<lambda>n. 5000000000)\<rparr>, he_redis_now := (\<lambda>n. 7)\<rparr>"

abbreviation asking :: Request where
  "asking \<equiv> example_request ''GET'' ''/api/v1/tasks'' []"

fun ask_times :: "nat \<Rightarrow> server \<Rightarrow> server" where
  "ask_times 0 sv = sv"
| "ask_times (Suc k) sv = ask_times k (snd (snd (snd (limited_call still_henv 10 (asking, new_writer, sv)))))"

lemma still_now: "env_now (he_env still_henv) n = 5000000000"
  by (simp add: still_henv_def)

lemma asking_ip: "clientIP asking = ''10.0.0.1''"
  by (simp add: clientIP_def example_request_def Header_Get_def SplitHostPort_def last_index_def)

lemma ask_times_run:
  "\<exists>rs. limiter_run still_henv 10 sv rs (ask_times k sv) \<and> asked ''10.0.0.1'' 5 rs = k \<and> unanswered ''10.0.0.1'' 5 rs = 0"
proof (induction k arbitrary: sv)
  case 0
  then show ?case
    using limiter_run.finished by (force simp: asked_def unanswered_def)
next
  case (Suc k)
  obtain oc r' w' sv1 where call: "limited_call still_henv 10 (asking, new_writer, sv) = (oc, r', w', sv1)"
    by (metis prod.exhaust)
  obtain rs where "limiter_run still_henv 10 sv1 rs (ask_times k sv1)" "asked ''10.0.0.1'' 5 rs = k"
      "unanswered ''10.0.0.1'' 5 rs = 0"
    using Suc.IH by blast
  note rs = this
  have fresh: "rw_sent new_writer = None"
    by (simp add: new_writer_def)
  let ?rs = "(clientIP asking, env_now (he_env still_henv) (tick (sv_world sv)), rw_sent w' = None,
    he_redis still_henv (tick (sv_world sv) + 1) \<noteq> Answered) # rs"
  have "limiter_run still_henv 10 sv ?rs (ask_times (Suc k) sv)"
    using limiter_run.call [OF _ call rs(1)] fresh by (simp add: call)
  moreover have "asked ''10.0.0.1'' 5 ?rs = Suc k" "unanswered ''10.0.0.1'' 5 ?rs = 0"
    using rs(2,3) by (simp_all add: asked_def unanswered_def asking_ip still_now) (simp add: still_henv_def)
  ultimately show ?case
    by blast
qed

theorem redis_burst_bound_witness:
  "\<exists>rs sv'. limiter_run still_henv 10 example_server rs sv' \<and> asked ''10.0.0.1'' 5 rs = 12 \<and> let_in ''10.0.0.1'' 5 rs = 10"
proof -
  obtain rs where run: "limiter_run still_henv 10 example_server rs (ask_times 12 example_server)"
      "asked ''10.0.0.1'' 5 rs = 12" "unanswered ''10.0.0.1'' 5 rs = 0"
    using ask_times_run by blast
  have "in_window still_henv 0 i j" for i j
    by (simp add: in_window_def still_henv_def windowMillis_def)
  from redis_burst_bound [OF run(1) _ _ this, of "''10.0.0.1''" 5] have "let_in ''10.0.0.1'' 5 rs = 10"
    using run(2,3) by simp
  then show ?thesis
    using run by blast
qed

subsection \<open>Connecting\<close>

lemma db_Ping_eq:
  "db_Ping HE w = ((case env_db (he_env HE) (tick w) of
      Answered \<Rightarrow> Inr () | NotApplied m \<Rightarrow> Inl (ErrDriver m) | ReplyLost m \<Rightarrow> Inl (ErrDriver m)), w\<lparr>tick := Suc (tick w)\<rparr>)"
  by (simp add: db_Ping_def db_call_def Let_def split: answer.splits)

lemma connect_answered:
  assumes "\<forall>n. \<not> se_cancelled S n"
  shows "k + attempt \<le> maxAttempts \<Longrightarrow> env_db (he_env HE) (tick w + 2 * k) = Answered \<Longrightarrow>
    (\<forall>i<k. env_db (he_env HE) (tick w + 2 * i) \<noteq> Answered) \<Longrightarrow>
    connect_loop HE S attempt e w = (Inr (), w\<lparr>tick := tick w + 2 * k + 1\<rparr>)"
proof (induction k arbitrary: attempt e w)
  case 0
  then show ?case
    by (subst connect_loop.simps) (simp add: db_Ping_eq)
next
  case (Suc k)
  let ?w = "w\<lparr>tick := tick w + 2\<rparr>"
  have "env_db (he_env HE) (tick w) \<noteq> Answered"
    using Suc.prems(3) by (metis add.right_neutral mult_0_right zero_less_Suc)
  moreover have "env_db (he_env HE) (tick ?w + 2 * i) \<noteq> Answered" if "i < k" for i
    using spec [OF Suc.prems(3), of "Suc i"] that by simp
  ultimately show ?case
    using Suc.IH [of "attempt + 1" ?w] Suc.prems assms
    by (subst connect_loop.simps) (simp add: db_Ping_eq split: answer.splits)
qed

lemma connect_refused:
  assumes "\<forall>n. \<not> se_cancelled S n"
  shows "attempt + k = maxAttempts \<Longrightarrow> (\<forall>i\<le>k. env_db (he_env HE) (tick w + 2 * i) \<noteq> Answered) \<Longrightarrow>
    connect_loop HE S attempt e w =
      (Inl (Wrap (''could not connect to database after '' @ FormatInt (int maxAttempts) @ '' attempts: '')
         (ErrDriver (answer_text (env_db (he_env HE) (tick w + 2 * k)))) ''''), w\<lparr>tick := tick w + 2 * k + 2\<rparr>)"
proof (induction k arbitrary: attempt e w)
  case 0
  then have "env_db (he_env HE) (tick w) \<noteq> Answered"
    by simp
  then show ?case
    using 0(1) assms by (subst connect_loop.simps, subst connect_loop.simps) (auto simp: db_Ping_eq split: answer.splits)
next
  case (Suc k)
  let ?w = "w\<lparr>tick := tick w + 2\<rparr>"
  have "env_db (he_env HE) (tick w) \<noteq> Answered"
    using Suc.prems(2) by (metis add.right_neutral mult_0_right zero_le)
  moreover have "env_db (he_env HE) (tick ?w + 2 * i) \<noteq> Answered" if "i \<le> k" for i
    using spec [OF Suc.prems(2), of "Suc i"] that by simp
  ultimately show ?case
    using Suc.IH [of "attempt + 1" ?w] Suc.prems(1) assms
    by (subst connect_loop.simps) (auto simp: db_Ping_eq split: answer.splits)
qed

text \<open>C34: connecting ends, within ten pings, and succeeds exactly when one of them is answered; otherwise the
  error says so and wraps the error of the tenth ping.  No row changes.  (The driver is registered
  and opened, and no signal arrives meanwhile.)\<close>

theorem connect_retries:
  assumes "se_register S = None" and "se_open S dsn = None" and "\<forall>n. \<not> se_cancelled S n"
    and "Connect HE S dsn w = (rc, w')"
  shows "(rc = Inr () \<longleftrightarrow> (\<exists>k<10. env_db (he_env HE) (tick w + 2 * k) = Answered)) \<and>
    (rc \<noteq> Inr () \<longrightarrow> rc = Inl (Wrap ''could not connect to database after 10 attempts: ''
       (ErrDriver (answer_text (env_db (he_env HE) (tick w + 18)))) '''')) \<and>
    tick w' \<le> tick w + 20 \<and> same_rows w w'"
proof (cases "\<exists>k<10. env_db (he_env HE) (tick w + 2 * k) = Answered")
  case True
  define k where "k = (LEAST k. env_db (he_env HE) (tick w + 2 * k) = Answered)"
  have "env_db (he_env HE) (tick w + 2 * k) = Answered" "\<forall>i<k. env_db (he_env HE) (tick w + 2 * i) \<noteq> Answered"
    using True LeastI_ex [of "\<lambda>k. env_db (he_env HE) (tick w + 2 * k) = Answered"] not_less_Least
    unfolding k_def by blast+
  moreover have "k < 10"
    using True Least_le [of "\<lambda>k. env_db (he_env HE) (tick w + 2 * k) = Answered"] unfolding k_def by (meson le_less_trans)
  ultimately show ?thesis
    using connect_answered [OF assms(3), of k 1 HE w] assms True
    by (auto simp: Connect_def maxAttempts_def same_rows_def)
next
  case False
  moreover have "FormatInt (int maxAttempts) = ''10''"
    by code_simp
  ultimately show ?thesis
    using connect_refused [OF assms(3), of 1 9 HE w] assms
    by (auto simp: Connect_def maxAttempts_def same_rows_def less_Suc_eq_le)
qed

text \<open>A database that is up at the third ping.\<close>

definition late_henv :: henv where
  "late_henv = example_henv\<lparr>he_env := example_env\<lparr>env_db := (\<lambda>n. if n < 4 then NotApplied ''connection refused'' else Answered)\<rparr>\<rparr>"

definition calm_senv :: senv where
  "calm_senv = \<lparr>se_register = None, se_open = (\<lambda>dsn. None), se_resource = None, se_exporter = (\<lambda>url. None),
     se_cancelled = (\<lambda>n. False)\<rparr>"

theorem connect_retries_witness: "fst (Connect late_henv calm_senv ''postgres://'' empty_world) = Inr ()"
proof -
  have "tick empty_world = 0"
    by (simp add: empty_world_def)
  then have "env_db (he_env late_henv) (tick empty_world + 2 * 2) = Answered"
    by (simp add: late_henv_def)
  then have "\<exists>k<10. env_db (he_env late_henv) (tick empty_world + 2 * k) = Answered"
    by (intro exI [of _ 2]) simp
  then show ?thesis
    using connect_retries [OF _ _ _ prod.collapse [symmetric], of calm_senv "''postgres://''" late_henv empty_world]
    by (simp add: calm_senv_def)
qed

subsection \<open>Migrations\<close>

definition all_objects :: "string list" where
  "all_objects = [''users'', ''tasks'', ''idx_tasks_user_id'', ''refresh_tokens'', ''idx_refresh_tokens_user_id'']"

lemma exec_ddl_present: "list_all (\<lambda>d. ddl_if_not_exists d \<and> ddl_name d \<in> set objs) ds \<Longrightarrow> exec_ddl ds objs = Inr objs"
  by (induction ds) auto

lemma migration_order: "sort (map fst migration_files) = [''0001_init.sql'', ''0002_refresh_tokens.sql'']"
  by (simp add: migration_files_def less_char_def)

lemma exec_file_rows: "exec_file HE ds (objs, w) = (e, objs', w') \<Longrightarrow> w' = w\<lparr>tick := Suc (tick w)\<rparr>"
  by (auto simp: exec_file_def Let_def split: answer.splits sum.splits)

text \<open>A file whose statements go through is applied, or it fails with the connection and may be applied.\<close>

lemma exec_file_cases:
  assumes "exec_file HE ds (objs, w) = (e, objs1, w1)" and "exec_ddl ds objs = Inr objs'"
  shows "no_faults (he_env HE) \<Longrightarrow> e = None" and "e = None \<Longrightarrow> objs1 = objs'" and "objs1 = objs' \<or> objs1 = objs"
  using assms by (auto simp: exec_file_def Let_def no_faults_def split: answer.splits)

lemma migrate_loop_rows: "migrate_loop HE files names (objs, w) = (e, objs', w') \<Longrightarrow> same_rows w w'"
proof (induction names arbitrary: objs w)
  case (Cons name names)
  then show ?case
    by (fastforce simp: same_rows_def split: option.splits prod.splits dest: exec_file_rows)
qed simp

text \<open>What the two files do to any catalogue.\<close>

abbreviation "file_1 \<equiv> snd (migration_files ! 0)"
abbreviation "file_2 \<equiv> snd (migration_files ! 1)"

lemma Migrate_eq:
  "Migrate HE c =
     (case exec_file HE file_1 c of
        (Some err, c1) \<Rightarrow> (Some (Wrap ''apply migration 0001_init.sql: '' err ''''), c1)
      | (None, c1) \<Rightarrow>
          (case exec_file HE file_2 c1 of
             (Some err, c2) \<Rightarrow> (Some (Wrap ''apply migration 0002_refresh_tokens.sql: '' err ''''), c2)
           | (None, c2) \<Rightarrow> (None, c2)))"
  unfolding Migrate_def migration_order
  by (auto simp: migration_files_def split: option.splits prod.splits)

lemma exec_file_1: "\<exists>objs'. exec_ddl file_1 objs = Inr objs' \<and> set objs' = set objs \<union> {''users'', ''tasks'', ''idx_tasks_user_id''}"
  by (auto simp: migration_files_def)

lemma exec_file_2:
  "''users'' \<in> set objs \<Longrightarrow>
     \<exists>objs'. exec_ddl file_2 objs = Inr objs' \<and> set objs' = set objs \<union> {''refresh_tokens'', ''idx_refresh_tokens_user_id''}"
  by (auto simp: migration_files_def)

lemma all_objects_files: "set all_objects = {''users'', ''tasks'', ''idx_tasks_user_id''} \<union> {''refresh_tokens'', ''idx_refresh_tokens_user_id''}"
  by (auto simp: all_objects_def)

lemma Migrate_objects:
  assumes "Migrate HE (objs, w) = (e, objs1, w1)"
  shows "no_faults (he_env HE) \<Longrightarrow> e = None" and "e = None \<Longrightarrow> set objs1 = set objs \<union> set all_objects"
    and "set objs \<subseteq> set objs1" and "set objs1 \<subseteq> set objs \<union> set all_objects"
    and "set all_objects \<subseteq> set objs \<Longrightarrow> objs1 = objs"
proof -
  obtain ea objsa wa where a: "exec_file HE file_1 (objs, w) = (ea, objsa, wa)"
    by (metis prod.exhaust)
  obtain objsb where b: "exec_ddl file_1 objs = Inr objsb"
      "set objsb = set objs \<union> {''users'', ''tasks'', ''idx_tasks_user_id''}"
    using exec_file_1 by blast
  note first = exec_file_cases [OF a b(1)]
  obtain ec objsc wc where c: "exec_file HE file_2 (objsb, wa) = (ec, objsc, wc)"
    by (metis prod.exhaust)
  obtain objsd where d: "exec_ddl file_2 objsb = Inr objsd"
      "set objsd = set objsb \<union> {''refresh_tokens'', ''idx_refresh_tokens_user_id''}"
    using exec_file_2 [of objsb] b(2) by auto
  note second = exec_file_cases [OF c d(1)]
  have run: "ea \<noteq> None \<and> e \<noteq> None \<and> objs1 = objsa \<or> ea = None \<and> objsa = objsb \<and> (e = None \<longleftrightarrow> ec = None) \<and> objs1 = objsc"
  proof (cases ea)
    case None
    then show ?thesis
      using assms c first(2) by (cases ec) (auto simp: Migrate_eq a)
  next
    case (Some err)
    then show ?thesis
      using assms by (auto simp: Migrate_eq a)
  qed
  show "no_faults (he_env HE) \<Longrightarrow> e = None"
    using run first(1) second(1) by blast
  have d': "set objsd = set objs \<union> set all_objects"
    using b(2) d(2) all_objects_files by simp
  show "e = None \<Longrightarrow> set objs1 = set objs \<union> set all_objects"
    using run second(2) d' by auto
  have which: "objs1 = objs \<or> objs1 = objsb \<or> objs1 = objsd"
    using run first(3) second(3) by metis
  have "set objsb \<subseteq> set objs \<union> set all_objects" "set objs \<subseteq> set objsb"
    using b(2) all_objects_files by auto
  then show "set objs \<subseteq> set objs1" "set objs1 \<subseteq> set objs \<union> set all_objects"
    using which d' by auto
  show "objs1 = objs" if "set all_objects \<subseteq> set objs"
  proof -
    have "exec_ddl file_1 objs = Inr objs" "exec_ddl file_2 objs = Inr objs"
      using that by (auto simp: migration_files_def all_objects_def)
    then have "objsb = objs" "objsd = objs"
      using b(1) d(1) by simp_all
    then show ?thesis
      using which by blast
  qed
qed

text \<open>C35: migrations can be repeated.  From any catalogue, a run on a database that answers succeeds; a
  run that succeeds leaves exactly the objects there were and those of the schema, and a later run
  then changes nothing.  A run that fails drops nothing and creates nothing else, and whatever it left
  behind, the next run on a database that answers completes the schema without an error.  (The files
  only create objects, so rows are out of their reach.)\<close>

theorem migrate_idempotent:
  assumes "Migrate HE (objs, w) = (e1, objs1, w1)" and "Migrate HE' (objs1, w2) = (e2, objs2, w3)"
  shows "(no_faults (he_env HE) \<longrightarrow> e1 = None) \<and>
    set objs \<subseteq> set objs1 \<and> set objs1 \<subseteq> set objs \<union> set all_objects \<and>
    (e1 = None \<longrightarrow> set objs1 = set objs \<union> set all_objects \<and> objs2 = objs1) \<and>
    (no_faults (he_env HE') \<longrightarrow> e2 = None \<and> set objs2 = set objs \<union> set all_objects)"
  using Migrate_objects [OF assms(1)] Migrate_objects [OF assms(2)] by blast

lemma migrate_example: "Migrate example_henv ([], empty_world) = (None, all_objects, empty_world\<lparr>tick := 2\<rparr>)"
proof -
  have "tick empty_world = 0"
    by (simp add: empty_world_def)
  then show ?thesis
    unfolding Migrate_def migration_order
    by (simp add: migration_files_def exec_file_def all_objects_def)
qed

theorem migrate_idempotent_witness:
  "fst (Migrate example_henv (all_objects, empty_world\<lparr>tick := 2\<rparr>)) = None \<and>
   fst (snd (Migrate example_henv (all_objects, empty_world\<lparr>tick := 2\<rparr>))) = all_objects"
proof -
  obtain e objs w where later: "Migrate example_henv (all_objects, empty_world\<lparr>tick := 2\<rparr>) = (e, objs, w)"
    by (metis prod.exhaust)
  show ?thesis
    using migrate_idempotent [OF migrate_example later] by (simp add: later)
qed

end
