(* ===== verification/Lifecycle.thy ===== *)
theory Lifecycle
  imports Limits Progress "HOL-Library.Product_Lexorder"
begin

text \<open>
  The process from its start to its exit: what a process that serves was started with, what every
  state of its life satisfies, readiness while it shuts down, the time it leaves to the load
  balancer, and that it ends.
\<close>

subsection \<open>Starting\<close>

lemma Ping_ticks: "db_Ping HE w = (y, w') \<Longrightarrow> w' = w\<lparr>tick := Suc (tick w)\<rparr>"
  by (simp add: db_Ping_eq)

lemma connect_loop_ticks: "connect_loop HE S n e w = (rc, w') \<Longrightarrow> only_ticks w w'"
proof (induction "maxAttempts + 1 - n" arbitrary: n e w)
  case 0
  then show ?case
    by (subst (asm) connect_loop.simps) simp
next
  case (Suc k)
  obtain y w1 where ping: "db_Ping HE w = (y, w1)"
    by (metis surj_pair)
  have le: "n \<le> maxAttempts"
    using Suc.hyps(2) by simp
  have next_tick: "only_ticks w (w1\<lparr>tick := Suc (tick w1)\<rparr>)"
    using Ping_ticks [OF ping] by simp
  show ?case
  proof (cases "\<exists>err. y = Inl err \<and> \<not> se_cancelled S (tick w1)")
    case True
    then obtain err where "connect_loop HE S (n + 1) err (w1\<lparr>tick := Suc (tick w1)\<rparr>) = (rc, w')"
      using Suc.prems le ping by (subst (asm) connect_loop.simps [of HE S n e w]) auto
    then show ?thesis
      using Suc.hyps(1) [of "n + 1"] Suc.hyps(2) only_ticks_trans [OF next_tick] by force
  next
    case False
    then show ?thesis
      using Suc.prems le ping next_tick Ping_ticks [OF ping]
      by (subst (asm) connect_loop.simps) (auto split: sum.splits)
  qed
qed

lemma Connect_ticks: "Connect HE S dsn w = (rc, w') \<Longrightarrow> only_ticks w w'"
  by (auto simp: Connect_def split: option.splits dest: connect_loop_ticks)

lemma migrate_loop_ticks: "migrate_loop HE fls names (objs, w) = (e, objs', w') \<Longrightarrow> only_ticks w w'"
proof (induction names arbitrary: objs w)
  case (Cons name names)
  show ?case
  proof (cases "map_of fls name")
    case (Some ds)
    obtain e1 objs1 w1 where ex: "exec_file HE ds (objs, w) = (e1, objs1, w1)"
      by (metis surj_pair)
    then have "only_ticks w w1"
      using exec_file_rows [OF ex] by simp
    then show ?thesis
      using Cons.prems Cons.IH [of objs1 w1] Some ex only_ticks_trans by (cases e1) auto
  qed (use Cons.prems in simp)
qed simp

lemma Migrate_ticks: "Migrate HE (objs, w) = (e, objs', w') \<Longrightarrow> only_ticks w w'"
  unfolding Migrate_def by (rule migrate_loop_ticks)

lemma NewRouter_server: "NewRouter HE d client sv = (router, sv') \<Longrightarrow>
    (\<exists>rl. router = he_otelhttp HE (handler_chain HE d rl)) \<and> sv_draining sv' = sv_draining sv \<and>
    only_ticks (sv_world sv) (sv_world sv')"
  by (auto simp: NewRouter_def NewRateLimiter_def newInMemoryBackend_def slog_def Let_def split: if_splits prod.splits)


subsection \<open>The phases of a process\<close>

text \<open>Phases are ordered by the course of a process, so that it is seen to move forward only.\<close>

fun phase_key :: "phase \<Rightarrow> nat \<times> int \<times> int \<times> bool" where
  "phase_key Serving = (0, 0, 0, False)"
| "phase_key (Draining t) = (1, t, 0, False)"
| "phase_key (Closing t u) = (2, t, u, False)"
| "phase_key (Exited code d) = (3, code, 0, d)"

lemma phase_key_inj: "phase_key p = phase_key q \<Longrightarrow> p = q"
  by (cases p; cases q) auto

instantiation phase :: linorder
begin

definition less_eq_phase :: "phase \<Rightarrow> phase \<Rightarrow> bool" where
  "less_eq_phase p q \<longleftrightarrow> phase_key p \<le> phase_key q"

definition less_phase :: "phase \<Rightarrow> phase \<Rightarrow> bool" where
  "less_phase p q \<longleftrightarrow> phase_key p < phase_key q"

instance
  by standard (auto simp: less_eq_phase_def less_phase_def intro: phase_key_inj)

end

lemma life_step_forward: "life_step HE delay router (ph, now, sv) (ph', now', sv') \<Longrightarrow> ph \<le> ph' \<and> now \<le> now'"
  by (erule life_stepE) (auto simp: less_eq_phase_def)

text \<open>How far a process is from its end.\<close>

fun phase_rank :: "phase \<Rightarrow> nat" where
  "phase_rank Serving = 3"
| "phase_rank (Draining t) = 2"
| "phase_rank (Closing t u) = 1"
| "phase_rank (Exited code d) = 0"

interpretation life: ranked_system "life_step HE delay router" "\<lambda>c. phase_rank (fst c)" for HE delay router
proof (unfold_locales, goal_cases)
  case (1 s s')
  then show ?case
    by (cases rule: life_step.cases) auto
qed

text \<open>The clean-up of the limiter reads the clock and touches nothing but the visitors.\<close>

lemma cleanup_loop_server: "only_ticks (sv_world sv) (sv_world (cleanup_loop HE vs sv)) \<and>
    sv_draining (cleanup_loop HE vs sv) = sv_draining sv"
proof (induction vs arbitrary: sv)
  case (Cons v vs)
  obtain ip x where v: "v = (ip, x)"
    by fastforce
  let ?sv1 = "sv\<lparr>sv_world := (sv_world sv)\<lparr>tick := Suc (tick (sv_world sv))\<rparr>\<rparr>"
  show ?case
    using Cons.IH [of ?sv1] Cons.IH [of "?sv1\<lparr>sv_visitors := AList.delete ip (sv_visitors ?sv1)\<rparr>"]
      only_ticks_trans [of "sv_world sv" "sv_world ?sv1"]
    by (simp add: v sv_now_eq)
qed simp

lemma cleanup_server: "only_ticks (sv_world sv) (sv_world (inMemory_cleanup HE sv))"
  "sv_draining (inMemory_cleanup HE sv) = sv_draining sv"
  using cleanup_loop_server unfolding inMemory_cleanup_def by blast+

text \<open>What is assumed of \<open>otelhttp\<close>: the handler is called, and nothing else happens to the server.\<close>

definition otelhttp_ok :: "henv \<Rightarrow> bool" where
  "otelhttp_ok HE \<longleftrightarrow>
     (\<forall>h r w sv. \<exists>r1 w1. snd (snd (snd (he_otelhttp HE h (r, w, sv)))) = snd (snd (snd (h (r1, w1, sv)))))"

lemma keepsD_snd: "keeps U R h \<Longrightarrow> U (ctx_userID (rq_Context r)) \<Longrightarrow> R sv (snd (snd (snd (h (r, w, sv)))))"
  by (metis keepsD quad)

definition sound_router :: "handler \<Rightarrow> bool" where
  "sound_router router \<longleftrightarrow>
     keeps (\<lambda>_. True) (\<lambda>sv sv'. (db_inv (sv_world sv) \<longrightarrow> db_inv (sv_world sv')) \<and> sv_draining sv' = sv_draining sv) router"

lemma sound_routerD: "sound_router router \<Longrightarrow> router (r, w, sv) = (out, r', w', sv') \<Longrightarrow>
    (db_inv (sv_world sv) \<longrightarrow> db_inv (sv_world sv')) \<and> sv_draining sv' = sv_draining sv"
  unfolding sound_router_def by (drule keepsD) auto

lemma router_sound:
  assumes "promhttp_ok HE" and "otelhttp_ok HE"
  shows "sound_router (he_otelhttp HE (handler_chain HE (new_deps HE cfg) rl))"
  unfolding sound_router_def
proof (rule keepsI_snd)
  fix r w sv
  let ?h = "handler_chain HE (new_deps HE cfg) rl"
  obtain r1 w1 where eq: "snd (snd (snd (he_otelhttp HE ?h (r, w, sv)))) = snd (snd (snd (?h (r1, w1, sv))))"
    using assms(2) unfolding otelhttp_ok_def by blast
  have prom: "keeps (\<lambda>_. True) (steps_of HE) (he_promhttp HE)"
    "keeps (\<lambda>_. True) (\<lambda>sv sv'. sv_draining sv' = sv_draining sv) (he_promhttp HE)"
    using promhttp_keeps [OF assms(1)] by simp_all
  show "(db_inv (sv_world sv) \<longrightarrow> db_inv (sv_world (snd (snd (snd (he_otelhttp HE ?h (r, w, sv))))))) \<and>
      sv_draining (snd (snd (snd (he_otelhttp HE ?h (r, w, sv))))) = sv_draining sv"
    using db_steps_inv [OF keepsD_snd [OF handler_chain_steps [OF prom(1)], where r = r1 and w = w1 and sv = sv]]
      keepsD_snd [OF handler_chain_draining [OF prom(2)], where r = r1 and w = w1 and sv = sv] eq by auto
qed

subsection \<open>The life of a process\<close>

definition life_ok :: "duration \<Rightarrow> lifecycle \<Rightarrow> bool" where
  "life_ok delay c \<longleftrightarrow>
     (case c of (ph, now, sv) \<Rightarrow>
        db_inv (sv_world sv) \<and>
        (case ph of
           Serving \<Rightarrow> sv_draining sv = Some False
         | Draining t \<Rightarrow> sv_draining sv = Some True \<and> t \<le> now
         | Closing t u \<Rightarrow> sv_draining sv = Some True \<and> t + delay \<le> u \<and> u \<le> now
         | Exited code d \<Rightarrow> True))"

lemma life_ok_step:
  assumes "sound_router router" and "life_step HE delay router c c'" and "life_ok delay c"
  shows "life_ok delay c'"
  using assms(2)
proof (cases rule: life_step.cases)
  case (request ph r sv out r' w' sv' now)
  then show ?thesis
    using assms(3) sound_routerD [OF assms(1) request(4)] by (auto simp: life_ok_def split: phase.splits)
next
  case (cleanup ph now sv)
  then show ?thesis
    using assms(3) cleanup_server(1) [where sv = sv and HE = HE] cleanup_server(2) [where sv = sv and HE = HE] only_ticks_rows by (auto simp: life_ok_def split: phase.splits)
qed (use assms(3) in \<open>auto simp: life_ok_def split: phase.splits\<close>)

lemma life_ok_steps:
  assumes "sound_router router" and "(life_step HE delay router)\<^sup>*\<^sup>* c c'" and "life_ok delay c"
  shows "life_ok delay c'"
  using assms(2,3) by (induction rule: rtranclp_induct) (auto intro: life_ok_step [OF assms(1)])


text \<open>What a process that serves was started with.\<close>

lemma start_Inr:
  assumes "start P S HE (objs, w0) = Inr p"
  shows "config_errors (pr_config p) = [] \<and> set all_objects \<subseteq> set (pr_objects p) \<and>
    (\<exists>rl. pr_router p = he_otelhttp HE (handler_chain HE (new_deps HE (pr_config p)) rl)) \<and>
    sv_draining (pr_server p) = Some False \<and> only_ticks w0 (sv_world (pr_server p)) \<and> pr_srv p = http_Server (pr_config p)"
proof -
  from assms obtain cfg tp w1 objs2 w2 router sv where run: "Load P = Inr cfg"
      "Connect HE S (DBConfig_DSN (cf_DB cfg)) w0 = (Inr (), w1)" "Migrate HE (objs, w1) = (None, objs2, w2)"
      "NewRouter HE (new_deps HE cfg) (cf_RedisAddr cfg \<noteq> '''') (new_server w2) = (router, sv)"
    and p: "pr_config p = cfg" "pr_objects p = objs2" "pr_router p = router" "pr_server p = sv" "pr_srv p = http_Server cfg"
    by (auto simp: start_def split: sum.splits prod.splits option.splits)
  have "only_ticks w0 w2"
    using only_ticks_trans Connect_ticks [OF run(2)] Migrate_ticks [OF run(3)] by blast
  then have "only_ticks w0 (sv_world sv)"
    using NewRouter_server [OF run(4)] only_ticks_trans by (fastforce simp: new_server_def)
  then show ?thesis
    using p Load_Inr [of P cfg] run(1) NewRouter_server [OF run(4)]
      Migrate_objects(2) [OF run(3)] by (auto simp: new_server_def)
qed

text \<open>C14: a process that serves is sound for as long as it lives.  Its configuration passed every check, every
  object of the schema exists and starting changed no row; and whatever requests it serves, however
  they interleave with the clock, the clean-up of the limiter and a shutdown, the store satisfies the
  invariant of the tables, and the draining flag is set exactly from the signal on.\<close>

theorem process_sound:
  assumes "promhttp_ok HE" and "otelhttp_ok HE" and "db_inv w0" and "start P S HE (objs, w0) = Inr p"
    and "(life_step HE (cf_ShutdownDrainDelay (pr_config p)) (pr_router p))\<^sup>*\<^sup>* (Serving, t0, pr_server p) (ph, now, sv)"
  shows "config_errors (pr_config p) = [] \<and> set all_objects \<subseteq> set (pr_objects p) \<and> same_rows w0 (sv_world (pr_server p)) \<and>
    db_inv (sv_world sv) \<and> (running ph \<longrightarrow> sv_draining sv = Some (Serving < ph))"
proof -
  note started = start_Inr [OF assms(4)]
  have "sound_router (pr_router p)"
    using started router_sound [OF assms(1,2)] by auto
  moreover have "life_ok (cf_ShutdownDrainDelay (pr_config p)) (Serving, t0, pr_server p)"
    using started only_ticks_rows assms(3) by (auto simp: life_ok_def)
  ultimately have "life_ok (cf_ShutdownDrainDelay (pr_config p)) (ph, now, sv)"
    using life_ok_steps [OF _ assms(5)] by blast
  then show ?thesis
    using started only_ticks_rows by (cases ph) (auto simp: life_ok_def less_phase_def)
qed

subsection \<open>Shutting down\<close>

text \<open>
  Time goes on while the process runs, and a timer that is due fires: the pause before the shutdown,
  and the deadline of \<open>Shutdown\<close>.
\<close>

fun overdue :: "duration \<Rightarrow> lifecycle \<Rightarrow> bool" where
  "overdue delay (Draining t, now, sv) = (t + delay \<le> now)"
| "overdue delay (Closing t u, now, sv) = (u + shutdownTimeout \<le> now)"
| "overdue delay (ph, now, sv) = False"

definition timers_fire :: "duration \<Rightarrow> (nat \<Rightarrow> lifecycle) \<Rightarrow> bool" where
  "timers_fire delay run \<longleftrightarrow>
     (\<forall>T i. \<exists>j\<ge>i. T \<le> fst (snd (run j)) \<or> \<not> running (fst (run j))) \<and>
     (\<forall>i. overdue delay (run i) \<longrightarrow> (\<exists>j\<ge>i. fst (run j) \<noteq> fst (run i)))"

text \<open>Where a process can be after a signal at time \<open>t\<close>.\<close>

definition after_signal :: "time \<Rightarrow> duration \<Rightarrow> lifecycle \<Rightarrow> bool" where
  "after_signal t delay c \<longleftrightarrow>
     (case fst c of
        Serving \<Rightarrow> False
      | Draining t' \<Rightarrow> t' = t
      | Closing t' u \<Rightarrow> t' = t \<and> t + delay \<le> u \<and> u \<le> fst (snd c)
      | Exited code d \<Rightarrow> (code = 0 \<or> code = 1) \<and> d = (code = 0) \<and> (code = 0 \<longrightarrow> t + delay \<le> fst (snd c)))"

lemma after_signal_step: "life_step HE delay router c c' \<Longrightarrow> after_signal t delay c \<Longrightarrow> after_signal t delay c'"
  by (induction rule: life_step.induct) (auto simp: after_signal_def split: phase.splits)

lemma phase_rank_step: "life_step HE delay router c c' \<Longrightarrow> fst c' \<noteq> fst c \<Longrightarrow> phase_rank (fst c') < phase_rank (fst c)"
  by (induction rule: life_step.induct) auto

lemma phase_rank_run:
  assumes "is_run (life_step HE delay router) run" and "i \<le> j" and "fst (run j) \<noteq> fst (run i)"
  shows "phase_rank (fst (run j)) < phase_rank (fst (run i))"
  using assms(2,3)
proof (induction rule: dec_induct)
  case (step n)
  have one: "fst (run (Suc n)) = fst (run n) \<or> phase_rank (fst (run (Suc n))) < phase_rank (fst (run n))"
    using assms(1) phase_rank_step unfolding is_run_def by metis
  then show ?case
    using step life.rank_antimono [OF assms(1) step(1)] by force
qed simp

text \<open>C15: a process that got a signal ends.  However many requests it goes on to serve, it reaches its end and
  stays there; it exits with 0 exactly when the deferred calls ran (so that the traces are flushed),
  and then only after the drain delay was over; otherwise with 1.\<close>

theorem shutdown_completes:
  assumes "is_run (life_step HE delay router) run" and "timers_fire delay run" and "fst (run i) = Draining t"
  shows "\<exists>j\<ge>i. \<exists>code d. fst (run j) = Exited code d \<and> (code = 0 \<or> code = 1) \<and> d = (code = 0) \<and>
    (code = 0 \<longrightarrow> t + delay \<le> fst (snd (run j))) \<and> (\<forall>k\<ge>j. run k = run j)"
proof -
  have inv: "after_signal t delay (run j)" if "i \<le> j" for j
    by (rule life.invariant [OF assms(1) _ after_signal_step that]) (simp_all add: after_signal_def assms(3))
  have "\<exists>j\<ge>i. \<not> running (fst (run j))"
  proof (rule life.eventually [OF assms(1)])
    fix j
    assume j: "i \<le> j" "\<not> \<not> running (fst (run j))"
    define due where "due = (case fst (run j) of Closing t' u \<Rightarrow> u + shutdownTimeout | _ \<Rightarrow> t + delay)"
    obtain k where k: "k \<ge> j" "due \<le> fst (snd (run k)) \<or> \<not> running (fst (run k))"
      using assms(2) unfolding timers_fire_def by blast
    have "\<exists>m\<ge>j. fst (run m) \<noteq> fst (run j)"
    proof (cases "fst (run k) = fst (run j)")
      case True
      then have "overdue delay (run k)"
        using inv [OF j(1)] j(2) k(2)
        by (cases "run k"; cases "fst (run j)") (auto simp: due_def after_signal_def)
      then obtain m where "m \<ge> k" "fst (run m) \<noteq> fst (run k)"
        using assms(2) unfolding timers_fire_def by blast
      then show ?thesis
        using True k(1) by (intro exI [of _ m]) simp
    qed (use k(1) in blast)
    then show "\<exists>m\<ge>j. phase_rank (fst (run m)) < phase_rank (fst (run j))"
      using phase_rank_run [OF assms(1)] by blast
  qed
  then obtain j code d where j: "j \<ge> i" "fst (run j) = Exited code d"
    by (metis running.elims(3))
  have settled: "run k = run j" if "j \<le> k" for k
    using that
  proof (induction rule: dec_induct)
    case (step n)
    have "run n = (Exited code d, fst (snd (run n)), snd (snd (run n)))"
      using step(3) j(2) by (metis prod.collapse)
    then have "\<not> life_step HE delay router (run n) (run (Suc n))"
      by (metis life_step_exited)
    then show ?case
      using assms(1) step(3) unfolding is_run_def by metis
  qed simp
  have "(code = 0 \<or> code = 1) \<and> d = (code = 0) \<and> (code = 0 \<longrightarrow> t + delay \<le> fst (snd (run j)))"
    using inv [OF j(1)] j(2) by (simp add: after_signal_def)
  then show ?thesis
    using j settled by blast
qed

text \<open>A process that gets its signal at time 0 and drains for five seconds.\<close>

definition example_life :: "nat \<Rightarrow> lifecycle" where
  "example_life n =
     (let sv = example_server\<lparr>sv_draining := Some True\<rparr>
      in if n = 0 then (Draining 0, 0, sv)
         else if n = 1 then (Draining 0, 5 * Second, sv)
         else if n = 2 then (Closing 0 (5 * Second), 5 * Second, sv)
         else (Exited 0 True, 5 * Second, sv))"

lemma example_life_run: "is_run (life_step example_henv (5 * Second) router) example_life"
  unfolding is_run_def
proof
  fix n :: nat
  consider "n = 0" | "n = 1" | "n = 2" | "n > 2"
    by linarith
  then show "life_step example_henv (5 * Second) router (example_life n) (example_life (Suc n)) \<or>
      example_life (Suc n) = example_life n"
    by cases (auto simp: example_life_def Let_def Second_def intro: life_step.intros)
qed

lemma example_life_timers: "timers_fire (5 * Second) example_life"
proof -
  have "\<not> running (fst (example_life (i + 3)))" for i
    by (simp add: example_life_def Let_def)
  moreover have "\<exists>j\<ge>i. fst (example_life j) \<noteq> fst (example_life i)" if "overdue (5 * Second) (example_life i)" for i
    using that by (intro exI [of _ 3]) (auto simp: example_life_def Let_def Second_def shutdownTimeout_def split: if_splits)
  ultimately show ?thesis
    unfolding timers_fire_def by (metis le_add1)
qed

theorem shutdown_completes_witness:
  "\<exists>j code d. fst (example_life j) = Exited code d \<and> (code = 0 \<longrightarrow> 5 * Second \<le> fst (snd (example_life j)))"
  using shutdown_completes [OF example_life_run example_life_timers, of 0 0] by (auto simp: example_life_def)

text \<open>The process that is started with no settings on an empty database.\<close>

lemma example_otelhttp_ok: "otelhttp_ok example_henv"
  by (auto simp: otelhttp_ok_def example_henv_def)

lemma example_Connect: "Connect example_henv calm_senv dsn empty_world = (Inr (), empty_world\<lparr>tick := 1\<rparr>)"
  unfolding Connect_def connect_loop.simps [of example_henv calm_senv 1]
  by (simp add: calm_senv_def maxAttempts_def db_Ping_eq empty_world_def)

lemma example_Migrate: "Migrate example_henv ([], empty_world\<lparr>tick := 1\<rparr>) = (None, all_objects, empty_world\<lparr>tick := 3\<rparr>)"
  unfolding Migrate_def migration_order by (simp add: migration_files_def exec_file_def all_objects_def)

lemma example_start: "\<exists>p. start empty_penv calm_senv example_henv ([], empty_world) = Inr p"
proof -
  have load: "Load empty_penv = Inr (read_Config empty_penv)"
    by (simp add: Load_Inr config_errors_def read_Config_def penv_defs defaultJWTSecret_def)
  obtain tp where tracing: "tracing_Init calm_senv ''taskflow-api'' Version (cf_TracingEndpoint (read_Config empty_penv)) = Inr tp"
    by (simp add: tracing_Init_def tracesURL_def calm_senv_def read_Config_def penv_defs)
  show ?thesis
    unfolding start_def load sum.case tracing snd_conv example_Connect prod.case fst_conv example_Migrate option.case
    by (simp add: split_beta)
qed

theorem process_sound_witness:
  "\<exists>p. start empty_penv calm_senv example_henv ([], empty_world) = Inr p \<and>
    db_inv (sv_world ((pr_server p)\<lparr>sv_draining := Some True\<rparr>)) \<and> set all_objects \<subseteq> set (pr_objects p)"
proof -
  obtain p where p: "start empty_penv calm_senv example_henv ([], empty_world) = Inr p"
    using example_start by blast
  have "(life_step example_henv (cf_ShutdownDrainDelay (pr_config p)) (pr_router p))\<^sup>*\<^sup>*
      (Serving, 0, pr_server p) (Draining 0, 0, (pr_server p)\<lparr>sv_draining := Some True\<rparr>)"
    using life_step.signal by blast
  from process_sound [OF example_promhttp_ok example_otelhttp_ok db_inv_empty_world p this] show ?thesis
    using p by blast
qed

subsection \<open>Readiness during shutdown\<close>

lemma probe_path: "rq_Path r = ''/readyz'' \<Longrightarrow> rq_Method r = ''GET'' \<Longrightarrow>
    ServeMux HE (root_routes HE d rl) (r, w, sv) =
      Ready HE (dp_BuildVersion d) (r\<lparr>rq_Pattern := ''GET /readyz'', rq_PathValues := []\<rparr>, w, sv)"
proof -
  assume r: "rq_Path r = ''/readyz''" "rq_Method r = ''GET''"
  have plain: "list_all plain_seg [''readyz'']"
    by (simp add: plain_seg_def)
  have find: "mux_find (root_routes HE d rl) ''GET'' (join_segs [''readyz'']) =
      Some (fst (root_routes HE d rl ! 1), Ready HE (dp_BuildVersion d), [])"
    unfolding root_routes_def route_def
    by (simp add: match_path_def path_segs_join [OF plain] pathUnescape_plain match_method_def)
  show ?thesis
    using ServeMux_plain [of r "[''readyz'']", OF _ plain _ find [folded r(2)]] r
    by (simp add: join_segs_def root_routes_def route_def)
qed

text \<open>C36: from the moment a signal arrives until the process ends, whatever requests are served in
  between, the readiness probe answers 503 and touches neither the database nor anything else; and
  that is so for the whole drain delay before the server begins to close.\<close>

theorem draining_not_ready:
  assumes "promhttp_ok HE" and "otelhttp_ok HE" and "db_inv (sv_world sv0)" and "sv_draining sv0 = Some False"
    and "(life_step HE delay (he_otelhttp HE (handler_chain HE (new_deps HE cfg) rl)))\<^sup>*\<^sup>* (Serving, t0, sv0) (ph, now, sv)"
    and "Serving < ph" and "running ph"
    and "rq_Path r = ''/readyz''" and "rq_Method r = ''GET''" and "blank w"
    and "ServeMux HE (root_routes HE (new_deps HE cfg) rl) (r, w, sv) = (out, r', w', sv')"
  shows "out = Returned \<and> status_of w' = 503 \<and> sv' = sv \<and> (\<forall>t u. ph = Closing t u \<longrightarrow> t + delay \<le> u)"
proof -
  have ok: "life_ok delay (ph, now, sv)"
    using life_ok_steps [OF router_sound [OF assms(1,2)] assms(5)] assms(3,4) by (simp add: life_ok_def)
  then have "sv_draining sv = Some True"
    using assms(6,7) by (cases ph) (auto simp: life_ok_def)
  then show ?thesis
    using assms(11) json_blank [OF assms(10)] ok by (auto simp: probe_path [OF assms(8,9)] Ready_def life_ok_def)
qed

theorem draining_not_ready_witness:
  "status_of (fst (snd (snd (ServeMux example_henv (root_routes example_henv (new_deps example_henv example_config) example_limiter)
     (example_request ''GET'' ''/readyz'' [], new_writer, example_server\<lparr>sv_draining := Some True\<rparr>))))) = 503"
proof -
  have "(life_step example_henv 5 (he_otelhttp example_henv
      (handler_chain example_henv (new_deps example_henv example_config) example_limiter)))\<^sup>*\<^sup>*
      (Serving, 0, example_server) (Draining 0, 0, example_server\<lparr>sv_draining := Some True\<rparr>)"
    using life_step.signal by blast
  from draining_not_ready [OF example_promhttp_ok example_otelhttp_ok _ _ this _ _ _ _ blank_new_writer quad,
      of "example_request ''GET'' ''/readyz'' []"]
  show ?thesis
    by (simp add: less_phase_def example_request_def example_world_inv)
qed

end
