(* ===== verification/Gateway.thy ===== *)
theory Gateway
  imports Observability
begin

text \<open>
  What stands between a client and the handlers.  A request either is turned away, by the answer to
  a preflight, by the limiter or by the deadline, or it is answered as the handler of its route
  answers it: the middleware adds headers, log lines and counts, and changes neither the status nor
  the body nor what the handler does to the store.  From this: which errors of the server a client may
  see, and which origins may read a response.
\<close>

subsection \<open>The outer middleware\<close>

lemma pop_recorder_keeps:
  "pop_recorder w = (rec, w') \<Longrightarrow> rw_sent w' = rw_sent w \<and> rw_body w' = rw_body w \<and> rw_Header w' = rw_Header w"
  by (auto simp: pop_recorder_def split: list.splits)

lemma Logging_inner:
  assumes "Logging HE next (r, w, sv) = (out, r', w', sv')"
  shows "\<exists>w2 sv2. next (r, push_recorder w, at_tick (Suc (tick (sv_world sv))) sv) = (out, r', w2, sv2) \<and>
    rw_sent w' = rw_sent w2 \<and> rw_body w' = rw_body w2 \<and> only_ticks (sv_world sv2) (sv_world sv')"
proof -
  obtain out2 r2 w2 sv2 where inner: "next (r, push_recorder w, at_tick (Suc (tick (sv_world sv))) sv) = (out2, r2, w2, sv2)"
    by (metis surj_pair)
  obtain rec w3 where pop: "pop_recorder w2 = (rec, w3)"
    by fastforce
  show ?thesis
    using assms inner pop pop_recorder_keeps [OF pop]
    by (cases out2) (auto simp: Logging_def sv_now_tick)
qed

lemma Metrics_inner:
  assumes "Metrics HE next (r, w, sv) = (out, r', w', sv')"
  shows "\<exists>w2 sv2. next (r, push_recorder w, at_tick (Suc (tick (sv_world sv))) sv) = (out, r', w2, sv2) \<and>
    rw_sent w' = rw_sent w2 \<and> rw_body w' = rw_body w2 \<and> only_ticks (sv_world sv2) (sv_world sv')"
proof -
  obtain out2 r2 w2 sv2 where inner: "next (r, push_recorder w, at_tick (Suc (tick (sv_world sv))) sv) = (out2, r2, w2, sv2)"
    by (metis surj_pair)
  obtain rec w3 where pop: "pop_recorder w2 = (rec, w3)"
    by fastforce
  show ?thesis
    using assms inner pop pop_recorder_keeps [OF pop]
    by (cases out2) (auto simp: Metrics_def sv_now_tick Let_def)
qed

lemma Recover_inner:
  assumes "Recover HE next (r, w, sv) = (out, r', w', sv')" and "\<And>out2 r2 w2 sv2. next (r, w, sv) = (out2, r2, w2, sv2) \<Longrightarrow> out2 = Returned"
  shows "out = Returned \<and> next (r, w, sv) = (Returned, r', w', sv')"
  using assms(1) assms(2) [OF quad] by (auto simp: Recover_def split: prod.splits outcome.splits)

text \<open>A response in progress to which nothing was written.\<close>

lemma blank_header [simp]: "blank (set_header k v w) = blank w" "blank (push_recorder w) = blank w"
  by (simp_all add: blank_def push_recorder_def)

lemma SecurityHeaders_inner:
  assumes "SecurityHeaders next (r, w, sv) = (out, r', w', sv')" and "blank w"
  shows "\<exists>w1. next (r, w1, sv) = (out, r', w', sv') \<and> blank w1"
  using assms unfolding SecurityHeaders_def by (metis blank_header(1) case_prod_conv)

lemma RequestID_inner:
  assumes "RequestID HE next (r, w, sv) = (out, r', w', sv')"
  shows "\<exists>i c k r2. next (r\<lparr>rq_Context := c\<rparr>, set_header requestIDHeader i w, at_tick k sv) = (out, r2, w', sv') \<and>
    RequestID_of c = i \<and> ctx_userID c = ctx_userID (rq_Context r) \<and>
    tick (sv_world sv) \<le> k \<and> k \<le> Suc (tick (sv_world sv))"
proof -
  obtain i sv1 where gen:
      "(if Header_Get (rq_Header r) requestIDHeader = '''' then generateRequestID HE sv
        else (Header_Get (rq_Header r) requestIDHeader, sv)) = (i, sv1)"
    by (metis surj_pair)
  define tags where "tags = [(''request_id'', i)] @
    (case he_traceID HE (tick (sv_world sv1)) of None \<Rightarrow> [] | Some t \<Rightarrow> [(''trace_id'', t)])"
  let ?c = "WithLogger tags (WithRequestID i (rq_Context r))"
  obtain k where sv1: "sv1 = at_tick k sv" and k: "tick (sv_world sv) \<le> k" "k \<le> Suc (tick (sv_world sv))"
    using gen at_tick_id [of sv] that [of "tick (sv_world sv)"] that [of "Suc (tick (sv_world sv))"]
    by (auto simp: generateRequestID_def Let_def at_tick_def split: if_splits sum.splits)
  obtain r2 where "next (r\<lparr>rq_Context := ?c\<rparr>, set_header requestIDHeader i w, sv1) = (out, r2, w', sv')"
    using assms gen by (auto simp: RequestID_def Let_def tags_def split: prod.splits)
  then show ?thesis
    unfolding sv1
    by (intro exI [of _ i] exI [of _ ?c] exI [of _ k] exI [of _ r2])
      (use k in \<open>simp add: WithLogger_def WithRequestID_def RequestID_of_def\<close>)
qed

text \<open>The chain around the root mux.\<close>

lemma handler_chain_run:
  assumes "promhttp_ok HE" and "handler_chain HE d rl (r, new_writer, sv) = (out, r', w', sv')"
  shows "\<exists>c k w1 r2 w2 sv2.
    ServeMux HE (root_routes HE d rl) (r\<lparr>rq_Context := c\<rparr>, w1, at_tick k sv) = (Returned, r2, w2, sv2) \<and> blank w1 \<and>
    RequestID_of c = response_header w' ''X-Request-ID'' \<and> ctx_userID c = ctx_userID (rq_Context r) \<and>
    tick (sv_world sv) \<le> k \<and> k \<le> tick (sv_world sv) + 3 \<and>
    out = Returned \<and> status_of w' = status_of w2 \<and> rw_body w' = rw_body w2 \<and> only_ticks (sv_world sv2) (sv_world sv')"
proof -
  let ?root = "ServeMux HE (root_routes HE d rl)"
  obtain i c k1 r1 where logging: "Logging HE (Recover HE (Metrics HE (SecurityHeaders ?root)))
      (r\<lparr>rq_Context := c\<rparr>, set_header requestIDHeader i new_writer, at_tick k1 sv) = (out, r1, w', sv')"
    and c: "RequestID_of c = i" "ctx_userID c = ctx_userID (rq_Context r)"
      "tick (sv_world sv) \<le> k1" "k1 \<le> Suc (tick (sv_world sv))"
    using RequestID_inner [OF assms(2) [unfolded handler_chain_unfold]] by blast
  let ?w0 = "set_header requestIDHeader i new_writer"
  have fresh: "unwritten 2 (push_recorder (push_recorder ?w0))"
    by (simp add: unwritten_def push_recorder_def new_writer_def numeral_2_eq_2)
  have "has_header (CanonicalHeaderKey ''X-Request-ID'') i ?w0"
    by (simp add: has_header_def map_of_Header_Set requestIDHeader_def new_writer_def)
  from carriesD [OF chain_request_id [OF root_carries(1) [OF assms(1)] refl] logging this]
  have rid: "response_header w' ''X-Request-ID'' = i"
    by (rule has_header_response)
  obtain w3 sv3 where recover: "Recover HE (Metrics HE (SecurityHeaders ?root))
      (r\<lparr>rq_Context := c\<rparr>, push_recorder ?w0, at_tick (Suc k1) sv) = (out, r1, w3, sv3)"
    and w3: "rw_sent w' = rw_sent w3" "rw_body w' = rw_body w3" "only_ticks (sv_world sv3) (sv_world sv')"
    using Logging_inner [OF logging] by auto
  have inner: "out2 = Returned" if metrics: "Metrics HE (SecurityHeaders ?root) (r\<lparr>rq_Context := c\<rparr>, push_recorder ?w0,
      at_tick (Suc k1) sv) = (out2, r2, w2, sv2)" for out2 r2 w2 sv2
  proof -
    obtain w4 sv4 where "SecurityHeaders ?root (r\<lparr>rq_Context := c\<rparr>, push_recorder (push_recorder ?w0), at_tick (Suc (Suc k1)) sv) =
        (out2, r2, w4, sv4)"
      using Metrics_inner [OF metrics] by auto
    then show ?thesis
      using answersD [OF answers_SecurityHeaders [OF status.answers_root [OF promhttp_status [OF assms(1)]]] _ fresh] by blast
  qed
  from Recover_inner [OF recover inner] have ret: "out = Returned"
      "Metrics HE (SecurityHeaders ?root) (r\<lparr>rq_Context := c\<rparr>, push_recorder ?w0, at_tick (Suc k1) sv) = (Returned, r1, w3, sv3)"
    by auto
  obtain w4 sv4 where security: "SecurityHeaders ?root (r\<lparr>rq_Context := c\<rparr>, push_recorder (push_recorder ?w0),
      at_tick (Suc (Suc k1)) sv) = (Returned, r1, w4, sv4)"
    and w4: "rw_sent w3 = rw_sent w4" "rw_body w3 = rw_body w4" "only_ticks (sv_world sv4) (sv_world sv3)"
    using Metrics_inner [OF ret(2)] by auto
  obtain w1 where root: "?root (r\<lparr>rq_Context := c\<rparr>, w1, at_tick (Suc (Suc k1)) sv) = (Returned, r1, w4, sv4)" "blank w1"
    using SecurityHeaders_inner [OF security] by auto
  show ?thesis
    using root c rid ret(1) w3 w4 only_ticks_trans [OF w4(3) w3(3)]
    by (intro exI [of _ c] exI [of _ "Suc (Suc k1)"] exI [of _ w1] exI [of _ r1] exI [of _ w4] exI [of _ sv4])
      (simp add: status_of_def)
qed

subsection \<open>The middleware of the API\<close>

text \<open>The request with its body limited.\<close>

definition limited :: "int64 \<Rightarrow> Request \<Rightarrow> Request" where
  "limited n r = r\<lparr>rq_BodyLimit := Some (case rq_BodyLimit r of None \<Rightarrow> max 0 n | Some l \<Rightarrow> min l (max 0 n))\<rparr>"

lemma MaxBodyBytes_limited: "MaxBodyBytes n next (r, w, sv) = next (limited n r, w, sv)"
  by (simp add: MaxBodyBytes_def limited_def)

lemma clientIP_limited [simp]: "clientIP (limited n r) = clientIP r"
  by (simp add: clientIP_def limited_def Let_def split: option.split)

text \<open>The writer \<open>CORS\<close> hands on.\<close>

definition cors_writer :: "string list \<Rightarrow> Request \<Rightarrow> ResponseWriter \<Rightarrow> ResponseWriter" where
  "cors_writer origins r w =
     (let origin = Header_Get (rq_Header r) ''Origin''
      in if origin \<noteq> '''' \<and> (''*'' \<in> set origins \<or> origin \<in> set origins)
         then set_header ''Access-Control-Max-Age'' ''600''
               (set_header ''Access-Control-Allow-Headers'' ''Authorization, Content-Type''
                 (set_header ''Access-Control-Allow-Methods'' ''GET, POST, PUT, DELETE, OPTIONS''
                   (set_header ''Vary'' ''Origin''
                     (set_header ''Access-Control-Allow-Origin'' origin w))))
         else w)"

lemma CORS_writer: "CORS origins next (r, w, sv) =
    (if rq_Method r = ''OPTIONS'' then (Returned, r, WriteHeader 204 (cors_writer origins r w), sv)
     else next (r, cors_writer origins r w, sv))"
  by (simp add: CORS_def cors_writer_def Let_def)

lemma cors_writer_sel [simp]:
  "blank (cors_writer origins r w) = blank w" "rw_sent (cors_writer origins r w) = rw_sent w"
  "rw_body (cors_writer origins r w) = rw_body w"
  by (simp_all add: cors_writer_def Let_def)

text \<open>A response that is copied from the writer of \<open>TimeoutHandler\<close>.\<close>

lemma fold_Write:
  "rw_sent w = Some x \<Longrightarrow> rw_sent (fold (Write f) ps w) = Some x \<and>
     rw_body (fold (Write f) ps w) = rw_body w @ (if body_allowed w then ps else [])"
proof (induction ps arbitrary: w)
  case (Cons p ps)
  have "rw_sent (Write f p w) = Some x"
    using Cons.prems by simp
  moreover have "body_allowed (Write f p w) = body_allowed w"
    using Cons.prems by (simp add: body_allowed_def)
  moreover have "send_header 200 w = w"
    using Cons.prems by (simp add: send_header_def)
  ultimately show ?case
    using Cons.IH [of "Write f p w"] by (simp add: Write_body)
qed simp

lemma copied_response:
  assumes "blank w" and "w' = fold (Write f) (rw_body tw) (WriteHeader (status_of tw) (copy_headers h w))"
  shows "status_of w' = status_of tw \<and> rw_body w' = (if status_of tw = 204 \<or> status_of tw = 304 then [] else rw_body tw)"
proof -
  let ?w1 = "WriteHeader (status_of tw) (copy_headers h w)"
  have "rw_sent ?w1 = Some (status_of tw, rw_Header (copy_headers h w))" "rw_body ?w1 = []"
    using assms(1) by (simp_all add: blank_def copy_headers_def)
  then show ?thesis
    using fold_Write [of ?w1 _ f "rw_body tw"] assms(2) by (auto simp: status_of_def body_allowed_def)
qed

text \<open>The state in which a request that was not refused goes on, an error of the limiter being logged.\<close>

definition after_limiter :: "henv \<Rightarrow> Request \<Rightarrow> error + bool \<Rightarrow> server \<Rightarrow> server" where
  "after_limiter HE r ra sv =
     (case ra of
        Inl err \<Rightarrow> log_Error (rq_Context r) ''rate limiter backend error, allowing request'' [(''error'', err_Error HE err)] sv
      | Inr _ \<Rightarrow> sv)"

lemma api_handler_run:
  "api_handler HE d rl (r, w, sv) =
     (let cfg = dp_Config d; w0 = cors_writer (cf_AllowedOrigins cfg) r w; r0 = limited (cf_MaxBodyBytes cfg) r
      in if rq_Method r = ''OPTIONS'' then (Returned, r, WriteHeader 204 w0, sv)
         else case backend_allow HE (rl_backend rl) (clientIP r) sv of
                (ra, sv1) \<Rightarrow>
                  if ra = Inr False
                  then (Returned, r0, response_Error HE r0 429 CodeRateLimited ''rate limit exceeded, slow down'' w0, sv1)
                  else Timeout HE (cf_RequestTimeout cfg) (ServeMux HE (api_routes HE d)) (r0, w0, after_limiter HE r0 ra sv1))"
  by (auto simp: api_handler_def CORS_writer MaxBodyBytes_limited RateLimiter_Middleware_def after_limiter_def Let_def
      split: prod.splits sum.splits)

lemma api_mux_returns: "ServeMux HE (api_routes HE d) (r, w, sv) = (out, r', w', sv') \<Longrightarrow> out = Returned"
  using answersD [OF status.inner.answers_api] by blast

lemma Timeout_run:
  assumes "Timeout HE t next (r, w, sv) = (out, r', w', sv')" and "blank w"
    and "next (r, new_writer, at_tick (Suc (tick (sv_world sv))) sv) = (Returned, r2, tw, sv2)"
  shows "out = Returned \<and> sv' = sv2 \<and>
    (case he_deadline HE (tick (sv_world sv)) t of
       InTime \<Rightarrow> status_of w' = status_of tw \<and> rw_body w' = (if status_of tw = 204 \<or> status_of tw = 304 then [] else rw_body tw)
     | DeadlineExceeded \<Rightarrow> status_of w' = 503 \<and> rw_body w' = [P_Text timeout_body]
     | Cancelled \<Rightarrow> status_of w' = 503 \<and> rw_body w' = [])"
  using assms(1,3) copied_response [OF assms(2) refl, of "he_Encode HE" tw "rw_Header tw"] assms(2)
  by (auto simp: Timeout_def Let_def at_tick_def Write_body body_allowed_def send_header_def status_of_def blank_def
      split: deadline.splits option.splits)

text \<open>What the books of the limiter, the log and the clock may do.\<close>

interpretation ticking: server_relation "\<lambda>sv sv'. only_ticks (sv_world sv) (sv_world sv')"
  by unfold_locales (auto intro: only_ticks_trans)

subsection \<open>Turned away or answered\<close>

text \<open>What the client is told when the limiter refuses it.\<close>

definition refusal :: "Request \<Rightarrow> payload" where
  "refusal r = P_Error \<lparr>eb_Error = ''rate limit exceeded, slow down'', eb_Code = CodeRateLimited,
     eb_RequestID = RequestID_of (rq_Context r)\<rparr>"

text \<open>What the client gets of the response of its route: all of it, or 503 when the deadline was not kept.\<close>

definition delivered :: "deadline \<Rightarrow> ResponseWriter \<Rightarrow> ResponseWriter \<Rightarrow> bool" where
  "delivered dl tw w \<longleftrightarrow>
     (case dl of
        InTime \<Rightarrow> status_of w = status_of tw \<and> rw_body w = (if status_of tw = 204 \<or> status_of tw = 304 then [] else rw_body tw)
      | DeadlineExceeded \<Rightarrow> status_of w = 503 \<and> rw_body w = [P_Text timeout_body]
      | Cancelled \<Rightarrow> status_of w = 503 \<and> rw_body w = [])"

lemma api_handler_cases:
  assumes "api_handler HE d rl (r, w, sv) = (out, r', w', sv')" and "blank w"
    and "backend_allow HE (rl_backend rl) (clientIP r) sv = (ra, sv1)"
  shows "out = Returned \<and>
    (if rq_Method r = ''OPTIONS'' then status_of w' = 204 \<and> rw_body w' = [] \<and> sv' = sv
     else if ra = Inr False then status_of w' = 429 \<and> rw_body w' = [refusal r] \<and> sv' = sv1
     else let r0 = limited (cf_MaxBodyBytes (dp_Config d)) r; sv2 = after_limiter HE r0 ra sv1
          in \<exists>r2 tw. ServeMux HE (api_routes HE d) (r0, new_writer, at_tick (Suc (tick (sv_world sv2))) sv2) = (Returned, r2, tw, sv') \<and>
             delivered (he_deadline HE (tick (sv_world sv2)) (cf_RequestTimeout (dp_Config d))) tw w')"
proof -
  let ?cfg = "dp_Config d"
  let ?w0 = "cors_writer (cf_AllowedOrigins ?cfg) r w"
  let ?r0 = "limited (cf_MaxBodyBytes ?cfg) r"
  let ?sv2 = "after_limiter HE ?r0 ra sv1"
  consider (preflight) "rq_Method r = ''OPTIONS''" | (refused) "rq_Method r \<noteq> ''OPTIONS''" "ra = Inr False"
    | (served) "rq_Method r \<noteq> ''OPTIONS''" "ra \<noteq> Inr False"
    by blast
  then show ?thesis
  proof cases
    case preflight
    then show ?thesis
      using assms(1,2) by (auto simp: api_handler_run Let_def status_of_def blank_def)
  next
    case refused
    then have "w' = response_Error HE ?r0 429 CodeRateLimited ''rate limit exceeded, slow down'' ?w0" "out = Returned" "sv' = sv1"
      using assms(1,3) by (auto simp: api_handler_run Let_def)
    then show ?thesis
      using refused json_blank [of ?w0 429] assms(2)
      by (simp add: response_Error_def refusal_def limited_def)
  next
    case served
    obtain out2 r2 tw sv3 where inner: "ServeMux HE (api_routes HE d)
        (?r0, new_writer, at_tick (Suc (tick (sv_world ?sv2))) ?sv2) = (out2, r2, tw, sv3)"
      by (metis surj_pair)
    moreover have "out2 = Returned"
      using api_mux_returns [OF inner] .
    moreover have "Timeout HE (cf_RequestTimeout ?cfg) (ServeMux HE (api_routes HE d)) (?r0, ?w0, ?sv2) = (out, r', w', sv')"
      using assms(1,3) served by (simp add: api_handler_run Let_def)
    ultimately show ?thesis
      using Timeout_run [of HE "cf_RequestTimeout ?cfg" "ServeMux HE (api_routes HE d)" ?r0 ?w0 ?sv2 out r' w' sv' r2 tw sv3]
        served assms(2) by (auto simp: Let_def delivered_def)
  qed
qed

text \<open>C17: the gate of the API lets a request through as it is or turns it away without a trace in the
  database.  A preflight is answered 204 and touches nothing; a client over its budget gets 429 with
  the error envelope and only the books of the limiter change; any other request, also when the
  limiter itself fails, is served by its route exactly once, on a body that is limited in size, and the
  client gets the status and the body of the route when it was in time and 503 otherwise.\<close>

theorem api_gate:
  assumes "api_handler HE d rl (r, w, sv) = (out, r', w', sv')" and "blank w"
    and "backend_allow HE (rl_backend rl) (clientIP r) sv = (ra, sv1)"
  shows "out = Returned \<and>
    (if rq_Method r = ''OPTIONS'' then status_of w' = 204 \<and> rw_body w' = [] \<and> sv' = sv
     else if ra = Inr False then status_of w' = 429 \<and> rw_body w' = [refusal r] \<and> same_rows (sv_world sv) (sv_world sv')
     else let r0 = limited (cf_MaxBodyBytes (dp_Config d)) r; sv2 = after_limiter HE r0 ra sv1
          in same_rows (sv_world sv) (sv_world sv2) \<and>
             (\<exists>r2 tw. ServeMux HE (api_routes HE d) (r0, new_writer, at_tick (Suc (tick (sv_world sv2))) sv2) = (Returned, r2, tw, sv') \<and>
                delivered (he_deadline HE (tick (sv_world sv2)) (cf_RequestTimeout (dp_Config d))) tw w'))"
proof -
  have "only_ticks (sv_world sv) (sv_world sv1)"
    using ticking.rel_allow [OF assms(3)] .
  then have "same_rows (sv_world sv) (sv_world sv1)"
    using only_ticks_rows by blast
  moreover have "sv_world (after_limiter HE r0 ra sv1) = sv_world sv1" for r0
    by (simp add: after_limiter_def split: sum.splits)
  ultimately show ?thesis
    using api_handler_cases [OF assms] by (auto simp: Let_def)
qed

theorem api_gate_witness:
  "let (out, r', w', sv') = api_handler example_henv (new_deps example_henv example_config) \<lparr>rl_backend = inMemoryBackend (Fin 5 0) 0\<rparr>
         (example_request ''GET'' ''/api/v1/tasks'' [], new_writer, example_server)
   in status_of w' = 429 \<and> same_rows (example_world []) (sv_world sv')"
proof -
  let ?r = "example_request ''GET'' ''/api/v1/tasks'' []"
  have "fst (backend_allow example_henv (inMemoryBackend (Fin 5 0) 0) (clientIP ?r) example_server) = Inr False"
    by (simp add: backend_allow_def inMemory_allow_def Let_def split_beta) (simp add: example_henv_def)
  then obtain sv1 where "backend_allow example_henv (inMemoryBackend (Fin 5 0) 0) (clientIP ?r) example_server = (Inr False, sv1)"
    by (metis prod.collapse)
  then show ?thesis
    using api_gate [OF quad blank_new_writer, where HE = example_henv and d = "new_deps example_henv example_config"
        and rl = "\<lparr>rl_backend = inMemoryBackend (Fin 5 0) 0\<rparr>" and r = ?r and sv = example_server and ra = "Inr False"]
    by (simp add: example_request_def split_beta Let_def)
qed

subsection \<open>Errors of the server\<close>

text \<open>C30: errors of the server are opaque.  When the API answers with a status of 500 or more it is 500 with
  the fixed body of code INTERNAL_ERROR, or, for a request that was not in time, 503 with the fixed body
  of code TIMEOUT or with none; no text of an underlying error reaches the client.  (The redirects of
  \<open>ServeMux\<close> are taken to have a status below 500; they have 301 or 307.)\<close>

theorem server_errors_opaque:
  assumes "he_redirect HE < 500" and "blank w"
    and "api_handler HE d rl (r, w, sv) = (out, r', w', sv')" and "500 \<le> status_of w'"
  shows "status_of w' = 500 \<and> (\<exists>rid. rw_body w' =
      [P_Error \<lparr>eb_Error = ''internal server error'', eb_Code = CodeInternal, eb_RequestID = rid\<rparr>]) \<or>
    status_of w' = 503 \<and> rw_body w' \<in> {[], [P_Text timeout_body]} \<and>
      (\<exists>n. he_deadline HE n (cf_RequestTimeout (dp_Config d)) \<noteq> InTime)"
proof -
  obtain ra sv1 where "backend_allow HE (rl_backend rl) (clientIP r) sv = (ra, sv1)"
    by fastforce
  from api_handler_cases [OF assms(3,2) this] assms(4) obtain n r0 sv2 r2 tw
    where mux: "ServeMux HE (api_routes HE d) (r0, new_writer, sv2) = (Returned, r2, tw, sv')"
      and w': "delivered (he_deadline HE n (cf_RequestTimeout (dp_Config d))) tw w'"
    by (auto simp: Let_def split: if_splits)
  have opaque: "opaque HE tw"
    using answersD [OF errors.answers_api mux blank_new_writer] by simp
  show ?thesis
  proof (cases "he_deadline HE n (cf_RequestTimeout (dp_Config d))")
    case InTime
    then show ?thesis
      using opaque w' assms(1,4) by (auto simp: delivered_def opaque_def)
  qed (use w' in \<open>auto simp: delivered_def intro!: exI [of _ n]\<close>)
qed

text \<open>A login while the database refuses every statement.\<close>

definition faulty_henv :: henv where
  "faulty_henv = example_henv
     \<lparr>he_env := example_env\<lparr>env_db := (\<lambda>n. NotApplied ''connection refused'')\<rparr>,
      he_ReadJSON := (\<lambda>eof s. Some (JObj [(''email'', JStr ''e'' ''e''), (''password'', JStr ''p'' ''p'')]))\<rparr>"

lemma faulty_login:
  assumes "rq_Method r = ''POST''" and "rq_Path r = ''/api/v1/auth/login''"
    and "ServeMux faulty_henv (api_routes faulty_henv (new_deps faulty_henv example_config)) (r, new_writer, sv) = (out, r', w', sv')"
  shows "status_of w' = 500"
proof -
  let ?d = "new_deps faulty_henv example_config"
  let ?segs = "[''api'', ''v1'', ''auth'', ''login'']"
  have path: "rq_Path r = join_segs ?segs"
    using assms(2) by (simp add: join_segs_def)
  have plain: "list_all plain_seg ?segs"
    by (simp add: plain_seg_def)
  have find: "mux_find (api_routes faulty_henv ?d) ''POST'' (join_segs ?segs) =
      Some (fst (api_routes faulty_henv ?d ! 1), AuthHandler_Login faulty_henv (NewAuthHandler (dp_Auth ?d)), [])"
    unfolding api_routes_def route_def Let_def
    by (simp add: match_path_def path_segs_join [OF plain] pathUnescape_plain match_method_def)
  have json: "json_Decode faulty_henv LoginRequest_fields r z = Some (z\<lparr>lq_Email := ''e'', lq_Password := ''p''\<rparr>)" for r z
    by (simp add: json_Decode_def read_json_def faulty_henv_def find_field_def LoginRequest_fields_def split: option.split)
  have "\<exists>r1. ServeMux faulty_henv (api_routes faulty_henv ?d) (r, new_writer, sv) =
      AuthHandler_Login faulty_henv (NewAuthHandler (dp_Auth ?d)) (r1, new_writer, sv)"
    using ServeMux_plain [OF path plain _ find [folded assms(1)], of faulty_henv new_writer sv]
    by (auto simp: api_routes_def route_def Let_def)
  moreover have "\<exists>w1. AuthService_Login (he_env faulty_henv) (dp_Auth ?d) ''e'' ''p'' w =
      (Inl (Wrap ''find user by email: '' (ErrDriver ''connection refused'') ''''), w1)" for w
    by (simp add: AuthService_Login_def repo_defs db_call_def faulty_henv_def)
  then obtain w1 where "AuthService_Login (he_env faulty_henv) (dp_Auth ?d) ''e'' ''p'' (sv_world sv) =
      (Inl (Wrap ''find user by email: '' (ErrDriver ''connection refused'') ''''), w1)"
    by blast
  ultimately show ?thesis
    using assms(3)
    by (auto simp: json AuthHandler_Login_def NewAuthHandler_def with_world_def LoginRequest_Validate_def
        writeDomainError_def status_of_error)
qed

theorem server_errors_opaque_witness:
  "let (out, r', w', sv') = api_handler faulty_henv (new_deps faulty_henv example_config) example_limiter
         (example_request ''POST'' ''/api/v1/auth/login'' [], new_writer, example_server)
   in status_of w' = 500 \<and> length (rw_body w') = 1"
proof -
  let ?d = "new_deps faulty_henv example_config"
  let ?r = "example_request ''POST'' ''/api/v1/auth/login'' []"
  obtain out r' w' sv' where run: "api_handler faulty_henv ?d example_limiter (?r, new_writer, example_server) = (out, r', w', sv')"
    by (metis prod.exhaust)
  obtain ra sv1 where allow: "backend_allow faulty_henv (rl_backend example_limiter) (clientIP ?r) example_server = (ra, sv1)"
    by fastforce
  have path: "rq_Method ?r = ''POST''" "rq_Path ?r = ''/api/v1/auth/login''"
    by (simp_all add: example_request_def)
  have "ra \<noteq> Inr False"
    using allow
    by (auto simp: backend_allow_def inMemory_allow_def Let_def split_beta)
      (simp add: faulty_henv_def example_henv_def example_server_def new_server_def new_visitor_def)
  then obtain n sv2 r2 tw where mux: "ServeMux faulty_henv (api_routes faulty_henv ?d)
        (limited (cf_MaxBodyBytes (dp_Config ?d)) ?r, new_writer, sv2) = (Returned, r2, tw, sv')"
      and w': "delivered (he_deadline faulty_henv n (cf_RequestTimeout (dp_Config ?d))) tw w'"
    using api_handler_cases [OF run blank_new_writer allow] by (auto simp: Let_def path)
  have "status_of tw = 500"
    using faulty_login [OF _ _ mux] path by (simp add: limited_def)
  moreover have "he_deadline faulty_henv n e = InTime" for e
    by (simp add: faulty_henv_def)
  ultimately have status: "status_of w' = 500"
    using w' by (simp add: delivered_def)
  then have "length (rw_body w') = 1"
    using server_errors_opaque [OF _ blank_new_writer run] by (auto simp: faulty_henv_def)
  then show ?thesis
    using run status by simp
qed

subsection \<open>Cross-origin access\<close>

abbreviation acao :: string where
  "acao \<equiv> ''Access-Control-Allow-Origin''"

text \<open>Header \<open>acao\<close> is as given (\<open>None\<close> for absent), also in what was sent.\<close>

definition origin_header :: "string option \<Rightarrow> ResponseWriter \<Rightarrow> bool" where
  "origin_header v w \<longleftrightarrow> map_of (rw_Header w) acao = v \<and> (\<forall>s h. rw_sent w = Some (s, h) \<longrightarrow> map_of h acao = v)"

lemma origin_header_set:
  "origin_header v w \<Longrightarrow> CanonicalHeaderKey k \<noteq> acao \<Longrightarrow> origin_header v (set_header k x w)"
  by (auto simp: origin_header_def map_of_Header_Set)

lemma origin_header_written:
  "origin_header v w \<Longrightarrow> origin_header v (WriteHeader s w)" "origin_header v w \<Longrightarrow> origin_header v (Write f p w)"
  by (auto simp: origin_header_def split: option.splits)

lemma origin_header_writes: "origin_header v w \<Longrightarrow> origin_header v (fold (Write f) ps w)"
  by (induction ps arbitrary: w) (auto simp: origin_header_written)

lemma origin_header_json: "origin_header v w \<Longrightarrow> origin_header v (response_JSON HE s p w)"
  by (auto simp: response_JSON_def Let_def canonical_keys intro!: origin_header_written origin_header_set split: option.splits)

lemma canonical_nosniff: "CanonicalHeaderKey ''X-Content-Type-Options'' \<noteq> acao"
  by (simp add: canonical_keys)

text \<open>No handler of the API sets it.\<close>

interpretation origin: responder HE "origin_header v" "origin_header v" for HE v
  by unfold_locales
    (auto simp: response_Error_def http_Error_def http_Redirect_def canonical_keys
      intro!: origin_header_json origin_header_written origin_header_set)

lemma origin_header_copied:
  "rw_sent w = None \<Longrightarrow> origin_header v w \<Longrightarrow> origin_header None tw \<Longrightarrow> origin_header v (copy_headers (rw_Header tw) w)"
  by (simp add: origin_header_def copy_headers_def map_of_copied)

definition allowed_origin :: "string list \<Rightarrow> Request \<Rightarrow> string option" where
  "allowed_origin origins r =
     (let origin = Header_Get (rq_Header r) ''Origin''
      in if origin \<noteq> '''' \<and> (''*'' \<in> set origins \<or> origin \<in> set origins) then Some origin else None)"

lemma cors_writer_origin:
  "rw_sent w = None \<Longrightarrow> origin_header None w \<Longrightarrow> origin_header (allowed_origin origins r) (cors_writer origins r w)"
  by (simp add: origin_header_def allowed_origin_def cors_writer_def Let_def map_of_Header_Set canonical_keys)

lemma api_handler_origin:
  assumes "api_handler HE d rl (r, w, sv) = (out, r', w', sv')" and "rw_sent w = None" and "origin_header None w"
  shows "origin_header (allowed_origin (cf_AllowedOrigins (dp_Config d)) r) w'"
proof -
  let ?cfg = "dp_Config d"
  let ?w0 = "cors_writer (cf_AllowedOrigins ?cfg) r w"
  let ?r0 = "limited (cf_MaxBodyBytes ?cfg) r"
  let ?v = "allowed_origin (cf_AllowedOrigins ?cfg) r"
  have w0: "origin_header ?v ?w0" "rw_sent ?w0 = None"
    using cors_writer_origin [OF assms(2,3)] assms(2) by simp_all
  obtain ra sv1 where allow: "backend_allow HE (rl_backend rl) (clientIP r) sv = (ra, sv1)"
    by (metis surj_pair)
  let ?sv2 = "after_limiter HE ?r0 ra sv1"
  obtain out2 r2 tw sv3 where inner: "ServeMux HE (api_routes HE d)
      (?r0, new_writer, at_tick (Suc (tick (sv_world ?sv2))) ?sv2) = (out2, r2, tw, sv3)"
    by (metis surj_pair)
  have "origin_header None new_writer"
    by (simp add: origin_header_def new_writer_def)
  then have "origin_header None tw" and "out2 = Returned"
    using answersD [OF origin.answers_api inner] by auto
  then have "origin_header ?v (copy_headers (rw_Header tw) ?w0)"
    using origin_header_copied [OF w0(2,1)] by simp
  then show ?thesis
    using assms(1) allow inner w0(1) \<open>out2 = Returned\<close>
    by (auto simp: api_handler_run Let_def Timeout_def at_tick_def response_Error_def
        intro!: origin_header_json origin_header_written origin_header_writes split: if_splits deadline.splits)
qed

text \<open>C24: the API shares a response with another origin exactly when the configuration allows that origin,
  and with no origin but the one that asked: on every outcome the header
  Access-Control-Allow-Origin is the origin of the request if it is allowed, and is absent otherwise.\<close>

theorem cors_policy:
  assumes "api_handler HE d rl (r, new_writer, sv) = (out, r', w', sv')"
  shows "response_header w' acao =
    (let origin = Header_Get (rq_Header r) ''Origin''; origins = cf_AllowedOrigins (dp_Config d)
     in if ''*'' \<in> set origins \<or> origin \<in> set origins then origin else '''')"
proof -
  have "origin_header (allowed_origin (cf_AllowedOrigins (dp_Config d)) r) w'"
    by (rule api_handler_origin [OF assms]) (simp_all add: origin_header_def new_writer_def)
  then show ?thesis
    by (auto simp: origin_header_def response_header_def Header_Get_def canonical_keys allowed_origin_def Let_def
        split: option.splits)
qed

theorem cors_policy_witness:
  "response_header (fst (snd (snd (api_handler example_henv (new_deps example_henv (example_config\<lparr>cf_AllowedOrigins := [''https://a.example'']\<rparr>))
     example_limiter (example_request ''OPTIONS'' ''/api/v1/tasks'' [(''Origin'', ''https://b.example'')], new_writer, example_server))))) acao = ''''"
proof -
  have "CanonicalHeaderKey ''Origin'' = ''Origin''"
    by code_simp
  then show ?thesis
    using cors_policy [OF quad, of example_henv "new_deps example_henv (example_config\<lparr>cf_AllowedOrigins := [''https://a.example'']\<rparr>)"
        example_limiter "example_request ''OPTIONS'' ''/api/v1/tasks'' [(''Origin'', ''https://b.example'')]" example_server]
    by (simp add: example_request_def Header_Get_def)
qed

end
