(* ===== verification/EndToEnd.thy ===== *)
theory EndToEnd
  imports Gateway
begin

text \<open>
  A client with a valid token and the whole server: from the bytes of the path through the outer
  middleware, both muxes, the limiter, the deadline and the authentication to the service and the
  rows of the database, and back to the status and the body the client sees.
\<close>

subsection \<open>Plain paths below a subtree\<close>

lemma split_segs_slash:
  "list_all plain_seg (s # segs) \<Longrightarrow>
     strings_Split CHR ''/'' (s @ concat (map (\<lambda>s. CHR ''/'' # s) segs) @ ''/'') = s # segs @ ['''']"
  by (induction segs arbitrary: s) (simp_all add: strings_Split_append plain_segD)

lemma path_segs_slash:
  assumes "list_all plain_seg segs" and "segs \<noteq> []"
  shows "path_segs (join_segs segs @ ''/'') = segs @ ['''']"
proof -
  obtain s ss where "segs = s # ss"
    using assms(2) by (cases segs) auto
  then show ?thesis
    using split_segs_slash [of s ss] assms(1) by (simp add: path_segs_def join_segs_def)
qed

lemma ServeMux_subtree:
  assumes "rq_Path r = join_segs segs" and "list_all plain_seg segs" and "segs \<noteq> []"
    and "mux_find mx (rq_Method r) (join_segs segs) = Some (pt, h, bs)"
    and "mux_find mx (rq_Method r) (join_segs segs @ ''/'') = Some (pt, h, bs)"
    and "length (pt_segs pt) < length segs" and "pt_subtree pt"
  shows "ServeMux HE mx (r, w, sv) = h (r\<lparr>rq_Pattern := pt_text pt, rq_PathValues := bs\<rparr>, w, sv)"
proof -
  have "\<not> exact_match pt (join_segs segs @ ''/'')"
    using assms(6,7) path_segs_slash [OF assms(2,3)] by (simp add: exact_match_def)
  then show ?thesis
    using assms(1,4,5) cleanPath_plain [OF assms(2,3)]
    by (simp add: ServeMux_def Let_def needs_slash_def)
qed

text \<open>The paths of the tasks.\<close>

abbreviation tasks_path :: "string list \<Rightarrow> string" where
  "tasks_path segs \<equiv> join_segs (''api'' # ''v1'' # ''tasks'' # segs)"

lemma tasks_plain: "list_all plain_seg segs \<Longrightarrow> list_all plain_seg (''api'' # ''v1'' # ''tasks'' # segs)"
  by (simp add: plain_seg_def)

lemma unescape_literals: "pathUnescape ''api'' = ''api''" "pathUnescape ''v1'' = ''v1''" "pathUnescape ''tasks'' = ''tasks''"
  by (simp_all add: pathUnescape_plain)

lemma root_to_api:
  assumes "rq_Path r = tasks_path segs" and "list_all plain_seg segs"
  shows "ServeMux HE (root_routes HE d rl) (r, w, sv) =
    api_handler HE d rl (r\<lparr>rq_Pattern := ''/api/v1/'', rq_PathValues := []\<rparr>, w, sv)"
proof -
  note plain = tasks_plain [OF assms(2)]
  let ?pt = "\<lparr>pt_text = ''/api/v1/'', pt_method = '''', pt_segs = api_v1 [], pt_subtree = True\<rparr>"
  have find: "mux_find (root_routes HE d rl) (rq_Method r) p = Some (?pt, api_handler HE d rl, [])"
    if "path_segs p = ''api'' # ''v1'' # ''tasks'' # xs" for p xs
    by (simp add: root_routes_def route_def match_path_def match_method_def that unescape_literals)
  show ?thesis
    using ServeMux_subtree [OF assms(1) plain _ find find] path_segs_join [OF plain] path_segs_slash [OF plain] by simp
qed

lemma api_to_tasks:
  assumes "rq_Path r = tasks_path segs" and "list_all plain_seg segs"
  shows "\<exists>pat. ServeMux HE (api_routes HE (new_deps HE cfg)) (r, w, sv) =
    task_routes HE cfg (r\<lparr>rq_Pattern := pat, rq_PathValues := []\<rparr>, w, sv)"
proof (cases segs)
  case Nil
  note plain = tasks_plain [OF assms(2)]
  have "mux_find (api_routes HE (new_deps HE cfg)) (rq_Method r) (tasks_path segs) =
      Some (\<lparr>pt_text = ''/api/v1/tasks'', pt_method = '''', pt_segs = api_v1 [Lit ''tasks''], pt_subtree = False\<rparr>,
        task_routes HE cfg, [])"
    using path_segs_join [OF plain]
    by (simp add: api_routes_def route_def match_path_def match_method_def unescape_literals Nil Let_def)
  from ServeMux_plain [OF assms(1) plain _ this] show ?thesis
    by auto
next
  case (Cons x xs)
  note plain = tasks_plain [OF assms(2)]
  let ?pt = "\<lparr>pt_text = ''/api/v1/tasks/'', pt_method = '''', pt_segs = api_v1 [Lit ''tasks''], pt_subtree = True\<rparr>"
  have find: "mux_find (api_routes HE (new_deps HE cfg)) (rq_Method r) p = Some (?pt, task_routes HE cfg, [])"
    if "path_segs p = ''api'' # ''v1'' # ''tasks'' # y # ys" for p y ys
    by (simp add: api_routes_def route_def match_path_def match_method_def that unescape_literals Let_def)
  show ?thesis
    using ServeMux_subtree [OF assms(1) plain _ find find] path_segs_join [OF plain] path_segs_slash [OF plain]
    by (auto simp: Cons)
qed

subsection \<open>From the client to the task routes and back\<close>

lemma allow_two_ticks:
  assumes "backend_allow HE b ip sv = (ra, sv1)"
  shows "only_ticks (sv_world sv) (sv_world sv1) \<and> tick (sv_world sv) \<le> tick (sv_world sv1) \<and>
    tick (sv_world sv1) \<le> tick (sv_world sv) + 2"
  using assms ticking.rel_allow [OF assms]
  by (cases b) (auto simp: backend_allow_def inMemory_allow_def redis_allow_def run_script_def sv_now_tick Let_def
      split: sum.splits prod.splits answer.splits)

lemma validate_at: "tick (sv_world sv) = tick (sv_world sv') \<Longrightarrow> fst (validate HE cfg tok sv) = fst (validate HE cfg tok sv')"
  by (auto simp: with_world_def TokenManager_Validate_def time_Now_def split: sum.splits prod.splits option.splits)

text \<open>
  The request carries a token of user \<open>uid\<close> that is valid while the request is under way, the limiter
  does not refuse it and it is answered before its deadline.  A request takes at most six steps of the clock
  before its token is validated.
\<close>

definition let_through :: "henv \<Rightarrow> Config \<Rightarrow> RateLimiter \<Rightarrow> Request \<Rightarrow> int64 \<Rightarrow> server \<Rightarrow> bool" where
  "let_through HE cfg rl r uid sv \<longleftrightarrow>
     (\<exists>tok. bearer r = Some tok \<and>
       (\<forall>k\<in>{tick (sv_world sv)..tick (sv_world sv) + 6}.
          fst (validate HE cfg tok (at_tick k sv)) = Inr uid \<and>
          fst (backend_allow HE (rl_backend rl) (clientIP r) (at_tick k sv)) \<noteq> Inr False \<and>
          he_deadline HE k (cf_RequestTimeout cfg) = InTime))"

lemma bearer_kept [simp]: "bearer (r\<lparr>rq_Context := c\<rparr>) = bearer r" "bearer (r\<lparr>rq_Pattern := p\<rparr>) = bearer r"
  "bearer (r\<lparr>rq_PathValues := bs\<rparr>) = bearer r" "bearer (limited n r) = bearer r"
  by (simp_all add: bearer_def limited_def)

lemma clientIP_kept [simp]: "clientIP (r\<lparr>rq_Context := c\<rparr>) = clientIP r" "clientIP (r\<lparr>rq_Pattern := p\<rparr>) = clientIP r"
  "clientIP (r\<lparr>rq_PathValues := bs\<rparr>) = clientIP r"
  by (simp_all add: clientIP_def Let_def split: option.split)

lemma limited_sel [simp]: "rq_Method (limited n r) = rq_Method r" "rq_Path (limited n r) = rq_Path r"
  "rq_Context (limited n r) = rq_Context r" "rq_Body (limited n r) = rq_Body r"
  by (simp_all add: limited_def)

lemma let_through_run:
  assumes "promhttp_ok HE" and "let_through HE cfg rl r uid sv" and "rq_Method r \<noteq> ''OPTIONS''"
    and "rq_Path r = tasks_path segs" and "list_all plain_seg segs"
    and "handler_chain HE (new_deps HE cfg) rl (r, new_writer, sv) = (out, r', w', sv')"
  shows "\<exists>c pat k sv2 tok sv3 r4 tw sv4.
    task_routes HE cfg (limited (cf_MaxBodyBytes cfg) r\<lparr>rq_Context := c, rq_Pattern := pat, rq_PathValues := []\<rparr>, new_writer, sv2) =
      (Returned, r4, tw, sv4) \<and>
    bearer r = Some tok \<and> validate HE cfg tok sv2 = (Inr uid, sv3) \<and>
    only_ticks (sv_world sv) (sv_world sv2) \<and> only_ticks (sv_world sv4) (sv_world sv') \<and>
    RequestID_of c = response_header w' ''X-Request-ID'' \<and> out = Returned \<and> status_of w' = status_of tw \<and>
    rw_body w' = (if status_of tw = 204 \<or> status_of tw = 304 then [] else rw_body tw)"
proof -
  obtain tok where tok: "bearer r = Some tok" and window: "\<And>k. tick (sv_world sv) \<le> k \<Longrightarrow> k \<le> tick (sv_world sv) + 6 \<Longrightarrow>
      fst (validate HE cfg tok (at_tick k sv)) = Inr uid \<and>
      fst (backend_allow HE (rl_backend rl) (clientIP r) (at_tick k sv)) \<noteq> Inr False \<and>
      he_deadline HE k (cf_RequestTimeout cfg) = InTime"
    using assms(2) by (auto simp: let_through_def)
  obtain c k w1 r2 w2 sv2 where root: "ServeMux HE (root_routes HE (new_deps HE cfg) rl)
      (r\<lparr>rq_Context := c\<rparr>, w1, at_tick k sv) = (Returned, r2, w2, sv2)" "blank w1"
    and c: "RequestID_of c = response_header w' ''X-Request-ID''"
    and k: "tick (sv_world sv) \<le> k" "k \<le> tick (sv_world sv) + 3"
    and w': "out = Returned" "status_of w' = status_of w2" "rw_body w' = rw_body w2" "only_ticks (sv_world sv2) (sv_world sv')"
    using handler_chain_run [OF assms(1,6)] by blast
  let ?r1 = "r\<lparr>rq_Context := c, rq_Pattern := ''/api/v1/'', rq_PathValues := []\<rparr>"
  let ?r0 = "limited (cf_MaxBodyBytes cfg) ?r1"
  obtain ra sv3 where allow: "backend_allow HE (rl_backend rl) (clientIP r) (at_tick k sv) = (ra, sv3)"
    by (metis surj_pair)
  let ?sv3 = "after_limiter HE ?r0 ra sv3"
  have world: "sv_world ?sv3 = sv_world sv3"
    by (simp add: after_limiter_def split: sum.splits)
  have ticks: "tick (sv_world sv) \<le> tick (sv_world sv3)" "tick (sv_world sv3) \<le> tick (sv_world sv) + 5"
    "only_ticks ((sv_world sv)\<lparr>tick := k\<rparr>) (sv_world sv3)"
    using allow_two_ticks [OF allow] k by simp_all
  have "ra \<noteq> Inr False"
    using window [of k] k allow by simp
  moreover have "api_handler HE (new_deps HE cfg) rl (?r1, w1, at_tick k sv) = (Returned, r2, w2, sv2)"
    using root(1) root_to_api [of "r\<lparr>rq_Context := c\<rparr>" segs HE "new_deps HE cfg" rl] assms(4,5) by simp
  moreover have "backend_allow HE (rl_backend rl) (clientIP ?r1) (at_tick k sv) = (ra, sv3)"
    using allow by simp
  moreover have "he_deadline HE (tick (sv_world ?sv3)) (cf_RequestTimeout cfg) = InTime"
    using window ticks world by simp
  ultimately obtain r4 tw where inner: "ServeMux HE (api_routes HE (new_deps HE cfg))
      (?r0, new_writer, at_tick (Suc (tick (sv_world ?sv3))) ?sv3) = (Returned, r4, tw, sv2)"
    and tw: "status_of w2 = status_of tw" "rw_body w2 = (if status_of tw = 204 \<or> status_of tw = 304 then [] else rw_body tw)"
    using api_handler_cases [OF _ root(2), of HE "new_deps HE cfg" rl ?r1 "at_tick k sv" Returned r2 w2 sv2 ra sv3] assms(3)
    by (auto simp: delivered_def Let_def split: if_splits)
  let ?sv4 = "at_tick (Suc (tick (sv_world ?sv3))) ?sv3"
  obtain pat where "ServeMux HE (api_routes HE (new_deps HE cfg)) (?r0, new_writer, ?sv4) =
      task_routes HE cfg (?r0\<lparr>rq_Pattern := pat, rq_PathValues := []\<rparr>, new_writer, ?sv4)"
    using api_to_tasks [of ?r0 segs HE cfg new_writer ?sv4] assms(4,5) by auto
  moreover have "?r0\<lparr>rq_Pattern := pat, rq_PathValues := []\<rparr> =
      limited (cf_MaxBodyBytes cfg) r\<lparr>rq_Context := c, rq_Pattern := pat, rq_PathValues := []\<rparr>"
    by (simp add: limited_def)
  moreover have "fst (validate HE cfg tok ?sv4) = Inr uid"
    using window [of "Suc (tick (sv_world sv3))"] ticks world
      validate_at [of ?sv4 "at_tick (Suc (tick (sv_world sv3))) sv" HE cfg tok] by simp
  moreover have "only_ticks (sv_world sv) (sv_world sv3)"
    by (rule only_ticks_trans [OF _ ticks(3)]) simp
  then have "only_ticks (sv_world sv) (sv_world ?sv4)"
    using only_ticks_trans world by simp
  ultimately show ?thesis
    using inner tok c w' tw prod.collapse [of "validate HE cfg tok ?sv4"] by (metis (no_types, lifting))
qed

subsection \<open>Reading a task\<close>

lemma task_answer_ticks: "only_ticks w w' \<Longrightarrow> task_answer uid i w' rid = task_answer uid i w rid"
  using only_ticks_rows [of w w'] by (auto simp: task_answer_def same_rows_def)

lemma task_answer_status: "fst (task_answer uid i w rid) \<in> {200, 403, 404}"
  by (simp add: task_answer_def split: option.splits)

text \<open>C11: the whole path of a read.  A client with a valid token that asks the server for task \<open>i\<close> gets the stored
  task if it owns it, 403 if it belongs to someone else and 404 if there is none; the two errors carry
  the request id that is also in the header of the response, and no row changes.\<close>

theorem http_get_task:
  assumes "no_faults (he_env HE)" and "promhttp_ok HE" and "int64_ok i" and "let_through HE cfg rl r uid sv"
    and "rq_Method r = ''GET''" and "rq_Path r = ''/api/v1/tasks/'' @ FormatInt i"
    and "handler_chain HE (new_deps HE cfg) rl (r, new_writer, sv) = (out, r', w', sv')"
  shows "(case task_answer uid i (sv_world sv) (response_header w' ''X-Request-ID'') of
      (status, body) \<Rightarrow> status_of w' = status \<and> rw_body w' = [body]) \<and>
    out = Returned \<and> same_rows (sv_world sv) (sv_world sv')"
proof -
  have path: "rq_Path r = tasks_path [FormatInt i]" and plain: "list_all plain_seg [FormatInt i]"
    using assms(6) plain_FormatInt task_path by simp_all
  obtain c pat sv2 tok sv3 r4 tw sv4 where
    run: "task_routes HE cfg (limited (cf_MaxBodyBytes cfg) r\<lparr>rq_Context := c, rq_Pattern := pat, rq_PathValues := []\<rparr>,
        new_writer, sv2) = (Returned, r4, tw, sv4)"
    and tok: "bearer r = Some tok" "validate HE cfg tok sv2 = (Inr uid, sv3)"
    and ticks: "only_ticks (sv_world sv) (sv_world sv2)" "only_ticks (sv_world sv4) (sv_world sv')"
    and c: "RequestID_of c = response_header w' ''X-Request-ID''" and out: "out = Returned" "status_of w' = status_of tw"
      "rw_body w' = (if status_of tw = 204 \<or> status_of tw = 304 then [] else rw_body tw)"
    using let_through_run [OF assms(2,4) _ path plain assms(7)] assms(5) by auto
  have "(status_of tw, hd (rw_body tw)) = task_answer uid i (sv_world sv2) (RequestID_of c) \<and> length (rw_body tw) = 1 \<and>
      same_rows (sv_world sv2) (sv_world sv4)"
    using task_routes_get [OF assms(1) blank_new_writer assms(3) _ _ _ tok(2) run] assms(5,6) tok(1) by simp
  moreover from this obtain p where "rw_body tw = [p]"
    by (auto simp: length_Suc_conv)
  ultimately show ?thesis
    using task_answer_ticks [OF ticks(1), of uid i "RequestID_of c"] task_answer_status [of uid i "sv_world sv2" "RequestID_of c"]
      out c only_ticks_rows [OF ticks(1)] only_ticks_rows [OF ticks(2)]
    by (auto simp: same_rows_def split: prod.splits)
qed

lemma example_let_through:
  assumes "int64_ok uid" and "he_env HE = example_env" and "\<And>n d. he_deadline HE n d = InTime"
    and "he_Allow HE = he_Allow example_henv"
    and "tick (sv_world sv) < 3000" and "sv_visitors sv = []" and "bearer r = bearer (authorized m p uid)"
  shows "let_through HE example_config example_limiter r uid sv"
proof -
  have "fst (backend_allow HE (inMemoryBackend (Fin 5 0) 10) ip (at_tick k sv)) \<noteq> Inr False" for k ip
    using assms(4,6) by (simp add: backend_allow_def inMemory_allow_def sv_now_tick Let_def) (simp add: example_henv_def new_visitor_def)
  moreover have "fst (validate HE example_config (example_access_token ''secret'' uid) (at_tick k sv)) = Inr uid" if "k < 3600" for k
    using example_Validate [of uid "(sv_world sv)\<lparr>tick := k\<rparr>" "NewTokenManager ''secret'' (60 * Second)"] assms(1,2) that
    by (simp add: with_world_def example_config_def NewTokenManager_def)
  ultimately show ?thesis
    using assms(3,5,7) by (simp add: let_through_def)
qed

theorem http_get_task_witness:
  "case handler_chain example_henv (new_deps example_henv example_config) example_limiter
      (authorized ''GET'' (''/api/v1/tasks/'' @ FormatInt 1) 1, new_writer, example_server) of
     (out, r', w', sv') \<Rightarrow> status_of w' = 200 \<and> rw_body w' = [P_Task (NewTaskResponse (example_task 1 1))]"
proof -
  let ?r = "authorized ''GET'' (''/api/v1/tasks/'' @ FormatInt 1) 1"
  have "let_through example_henv example_config example_limiter ?r 1 example_server"
    by (rule example_let_through) (simp_all add: int64_ok_def, simp add: example_server_def new_server_def)
  from http_get_task [OF _ example_promhttp_ok _ this _ _ quad] show ?thesis
    by (simp add: int64_ok_def task_answer_def authorized_def example_request_def split_beta)
qed

subsection \<open>Creating a task and reading it back\<close>

lemma find_create_route:
  "mux_find (protected_routes HE d) ''POST'' (tasks_path []) =
     Some (fst (protected_routes HE d ! 0), TaskHandler_Create HE (NewTaskHandler (dp_Task d)), [])"
  using path_segs_join [OF tasks_plain [of "[]"]]
  by (simp add: protected_routes_def route_def match_path_def match_method_def unescape_literals Let_def)

lemma json_Decode_kept [simp]: "json_Decode HE fs (r\<lparr>rq_Context := c\<rparr>) z = json_Decode HE fs r z"
  "json_Decode HE fs (r\<lparr>rq_Pattern := pat\<rparr>) z = json_Decode HE fs r z"
  "json_Decode HE fs (r\<lparr>rq_PathValues := bs\<rparr>) z = json_Decode HE fs r z"
  by (simp_all add: json_Decode_def read_json_def split: option.split)

lemma task_routes_create:
  assumes "no_faults (he_env HE)" and "db_inv (sv_world sv)" and "uid \<in> u_ID ` set (users (sv_world sv))"
    and "tasks_id_seq (sv_world sv) < 2 ^ 63 - 1" and "rq_Method r = ''POST''" and "rq_Path r = tasks_path []"
    and "json_Decode HE (TaskRequest_fields HE) r empty_TaskRequest = Some req" and "TaskRequest_Validate req = None"
    and "bearer r = Some tok" and "validate HE cfg tok sv = (Inr uid, sv1)"
    and "task_routes HE cfg (r, new_writer, sv) = (out, r', w', sv')"
  shows "\<exists>n. let row = created_task (he_env HE) (tasks_id_seq (sv_world sv) + 1) n uid (tq_Title req) (tq_Description req) (tq_DueDate req)
    in status_of w' = 201 \<and> rw_body w' = [P_Task (NewTaskResponse (row\<lparr>t_DueDate := tq_DueDate req\<rparr>))] \<and>
       tasks (sv_world sv') = tasks (sv_world sv) @ [row]"
proof -
  let ?d = "new_deps HE cfg"
  let ?r1 = "r\<lparr>rq_Context := (rq_Context r)\<lparr>ctx_userID := Some uid\<rparr>\<rparr>"
  let ?r2 = "?r1\<lparr>rq_Pattern := ''POST /api/v1/tasks'', rq_PathValues := []\<rparr>"
  have rows: "sv_world sv1 = (sv_world sv)\<lparr>tick := Suc (tick (sv_world sv))\<rparr>"
    using validate_rows [OF assms(10)] .
  have "ServeMux HE (protected_routes HE ?d) (?r1, new_writer, sv1) =
      TaskHandler_Create HE (NewTaskHandler (dp_Task ?d)) (?r2, new_writer, sv1)"
    using ServeMux_plain [of ?r1 _ "protected_routes HE ?d" "fst (protected_routes HE ?d ! 0)"] find_create_route [of HE ?d]
      tasks_plain [of "[]"] assms(5,6)
    by (simp add: protected_routes_def route_def Let_def)
  then have "\<exists>r4. TaskHandler_Create HE (NewTaskHandler (taskService (he_env HE))) (?r2, new_writer, sv1) = (out, r4, w', sv')"
    using assms(9-11) by (auto simp: Auth_bearer split: prod.splits)
  moreover have "currentUserID HE ?r2 new_writer = Inr uid"
    by (simp add: currentUserID_def UserIDFromContext_def)
  ultimately have "let row = created_task (he_env HE) (tasks_id_seq (sv_world sv) + 1) (Suc (tick (sv_world sv))) uid (tq_Title req)
      (tq_Description req) (tq_DueDate req)
    in status_of w' = 201 \<and> rw_body w' = [P_Task (NewTaskResponse (row\<lparr>t_DueDate := tq_DueDate req\<rparr>))] \<and>
       tasks (sv_world sv') = tasks (sv_world sv) @ [row]"
    using assms(2-4,7,8) rows Create_answered [OF assms(1), of "sv_world sv1" uid] json_blank [OF blank_new_writer]
    by (auto simp: TaskHandler_Create_def NewTaskHandler_def with_world_def Let_def)
  then show ?thesis
    by (rule exI)
qed

text \<open>C16: what a client stores it gets back.  A client with a valid token whose body is a valid task gets
  201 and the new task, which is pending, whatever status the body asks for; as long as the tasks do not
  change, its owner then reads the same task under the id of the answer, except that the due date
  has the precision of the database, and any other client with a valid token gets 403.\<close>

theorem http_task_roundtrip:
  assumes "no_faults (he_env HE)" and "promhttp_ok HE" and "db_inv (sv_world sv)"
    and "uid \<in> u_ID ` set (users (sv_world sv))" and "tasks_id_seq (sv_world sv) < 2 ^ 63 - 1"
    and "rq_Method r = ''POST''" and "rq_Path r = ''/api/v1/tasks''" and "let_through HE cfg rl r uid sv"
    and "json_Decode HE (TaskRequest_fields HE) (limited (cf_MaxBodyBytes cfg) r) empty_TaskRequest = Some req"
    and "TaskRequest_Validate req = None"
    and "handler_chain HE (new_deps HE cfg) rl (r, new_writer, sv) = (out, r', w', sv')"
  shows "\<exists>t. status_of w' = 201 \<and> rw_body w' = [P_Task (NewTaskResponse t)] \<and>
    t_UserID t = uid \<and> t_Title t = tq_Title req \<and> t_Description t = tq_Description req \<and> t_DueDate t = tq_DueDate req \<and>
    t_Status t = TaskStatusPending \<and>
    (\<forall>q v sq out2 q' wq sq'.
       tasks (sv_world sq) = tasks (sv_world sv') \<and> rq_Method q = ''GET'' \<and> rq_Path q = ''/api/v1/tasks/'' @ FormatInt (t_ID t) \<and>
       let_through HE cfg rl q v sq \<and> handler_chain HE (new_deps HE cfg) rl (q, new_writer, sq) = (out2, q', wq, sq') \<longrightarrow>
       (if v = uid
        then status_of wq = 200 \<and> rw_body wq = [P_Task (NewTaskResponse (t\<lparr>t_DueDate := map_option (env_timestamptz (he_env HE)) (t_DueDate t)\<rparr>))]
        else status_of wq = 403))"
proof -
  have path: "rq_Path r = tasks_path []"
    using assms(7) by (simp add: join_segs_def)
  obtain c pat sv2 tok sv3 r4 tw sv4 where
    run: "task_routes HE cfg (limited (cf_MaxBodyBytes cfg) r\<lparr>rq_Context := c, rq_Pattern := pat, rq_PathValues := []\<rparr>,
        new_writer, sv2) = (Returned, r4, tw, sv4)"
    and tok: "bearer r = Some tok" "validate HE cfg tok sv2 = (Inr uid, sv3)"
    and ticks: "only_ticks (sv_world sv) (sv_world sv2)" "only_ticks (sv_world sv4) (sv_world sv')"
    and out: "status_of w' = status_of tw" "rw_body w' = (if status_of tw = 204 \<or> status_of tw = 304 then [] else rw_body tw)"
    using let_through_run [OF assms(2,8) _ path _ assms(11)] assms(6) by auto
  obtain n0 where w2: "sv_world sv2 = (sv_world sv)\<lparr>tick := n0\<rparr>"
    using ticks(1) by (auto simp: only_ticks_def)
  obtain n where made: "let row = created_task (he_env HE) (tasks_id_seq (sv_world sv) + 1) n uid (tq_Title req) (tq_Description req)
        (tq_DueDate req)
      in status_of tw = 201 \<and> rw_body tw = [P_Task (NewTaskResponse (row\<lparr>t_DueDate := tq_DueDate req\<rparr>))] \<and>
         tasks (sv_world sv4) = tasks (sv_world sv) @ [row]"
    using task_routes_create [OF assms(1) _ _ _ _ _ _ assms(10) _ tok(2) run] assms(3-6,9) path tok(1) w2 by auto
  let ?row = "created_task (he_env HE) (tasks_id_seq (sv_world sv) + 1) n uid (tq_Title req) (tq_Description req) (tq_DueDate req)"
  have fresh: "find (\<lambda>t. t_ID t = t_ID ?row) (tasks (sv_world sv')) = Some ?row"
  proof -
    have "t_ID t \<noteq> t_ID ?row" if "t \<in> set (tasks (sv_world sv))" for t
      using assms(3) that by (fastforce simp: db_inv_def ids_ok_def created_task_def)
    then have "find (\<lambda>t. t_ID t = t_ID ?row) (tasks (sv_world sv)) = None"
      by (simp add: find_None_iff)
    moreover have "tasks (sv_world sv') = tasks (sv_world sv) @ [?row]"
      using made only_ticks_rows [OF ticks(2)] by (auto simp: Let_def same_rows_def)
    ultimately show ?thesis
      by (simp add: find_append)
  qed
  have id: "int64_ok (t_ID (?row\<lparr>t_DueDate := tq_DueDate req\<rparr>))"
    using assms(3,5) by (simp add: db_inv_def ids_ok_def created_task_def int64_ok_def)
  let ?t = "?row\<lparr>t_DueDate := tq_DueDate req\<rparr>"
  have read: "if v = uid
      then status_of wq = 200 \<and> rw_body wq = [P_Task (NewTaskResponse (?t\<lparr>t_DueDate := map_option (env_timestamptz (he_env HE)) (t_DueDate ?t)\<rparr>))]
      else status_of wq = 403"
    if "tasks (sv_world sq) = tasks (sv_world sv')" "rq_Method q = ''GET''" "rq_Path q = ''/api/v1/tasks/'' @ FormatInt (t_ID ?t)"
      "let_through HE cfg rl q v sq" "handler_chain HE (new_deps HE cfg) rl (q, new_writer, sq) = (out2, q', wq, sq')" for q v sq out2 q' wq sq'
    using http_get_task [OF assms(1,2) id that(4,2) _ that(5)] fresh that(1,3) by (auto simp: task_answer_def created_task_def)
  have "status_of w' = 201" "rw_body w' = [P_Task (NewTaskResponse ?t)]" "t_UserID ?t = uid" "t_Title ?t = tq_Title req"
    "t_Description ?t = tq_Description req" "t_DueDate ?t = tq_DueDate req" "t_Status ?t = TaskStatusPending"
    using made out by (auto simp: Let_def created_task_def)
  with read show ?thesis
    by blast
qed

definition posting_henv :: henv where
  "posting_henv = example_henv\<lparr>he_ReadJSON := (\<lambda>eof s. if s = ''{title: milk}'' then Some (JObj [(''title'', JStr ''milk'' ''milk'')]) else None)\<rparr>"

lemma posting_henv_sel [simp]: "he_env posting_henv = example_env" "he_deadline posting_henv n d = InTime"
  "he_Allow posting_henv = he_Allow example_henv" "promhttp_ok posting_henv"
  by (simp_all add: posting_henv_def)
    (auto simp: promhttp_ok_def serves_page_def example_henv_def list_all_iff split: option.splits)

theorem http_task_roundtrip_witness:
  "\<exists>t. rw_body (fst (snd (snd (handler_chain posting_henv (new_deps posting_henv example_config) example_limiter
       ((authorized ''POST'' ''/api/v1/tasks'' 1)\<lparr>rq_Body := ''{title: milk}''\<rparr>, new_writer, example_server))))) =
     [P_Task (NewTaskResponse t)] \<and> t_Title t = ''milk'' \<and> t_UserID t = 1"
proof -
  let ?r = "(authorized ''POST'' ''/api/v1/tasks'' 1)\<lparr>rq_Body := ''{title: milk}''\<rparr>"
  have "bearer ?r = bearer (authorized ''POST'' ''/api/v1/tasks'' 1)"
    by (simp add: bearer_def)
  then have "let_through posting_henv example_config example_limiter ?r 1 example_server"
    by (intro example_let_through) (simp_all add: int64_ok_def, simp add: example_server_def new_server_def)
  moreover have "json_Decode posting_henv (TaskRequest_fields posting_henv) (limited (cf_MaxBodyBytes example_config) ?r) empty_TaskRequest =
      Some \<lparr>tq_Title = ''milk'', tq_Description = '''', tq_Status = '''', tq_DueDate = None\<rparr>"
  proof -
    have "cf_MaxBodyBytes example_config = 1048576"
      by code_simp
    then have "read_json posting_henv (limited (cf_MaxBodyBytes example_config) ?r) = Some (JObj [(''title'', JStr ''milk'' ''milk'')])"
      by (simp add: read_json_def limited_def authorized_def example_request_def posting_henv_def)
    then show ?thesis
      by (simp add: json_Decode_def find_field_def TaskRequest_fields_def)
  qed
  ultimately show ?thesis
    using http_task_roundtrip [OF _ _ _ _ _ _ _ _ _ _ quad, of posting_henv example_server 1 ?r example_config example_limiter]
    by (auto simp: example_world_inv example_users_def TaskRequest_Validate_def authorized_def example_request_def)
qed

end
