(* ===== verification/Contract.thy ===== *)
theory Contract
  imports Gateway ErrorClasses
begin

text \<open>
  The interface as a type.  For every route \<open>contract\<close> lists the statuses with the kind of body that goes with
  each; that every response of the API is of the type of its route is proved from the errors the services can
  return (theory \<open>ErrorClasses\<close>).
\<close>

subsection \<open>Types of responses\<close>

datatype body_kind =
    ErrorBody string
  | AuthBody
  | TokenBody
  | TaskBody
  | TaskListBody
  | MapBody
  | TextBody

fun kind_of :: "payload \<Rightarrow> body_kind" where
  "kind_of (P_Error e) = ErrorBody (eb_Code e)"
| "kind_of (P_Auth a) = AuthBody"
| "kind_of (P_Token t) = TokenBody"
| "kind_of (P_Task t) = TaskBody"
| "kind_of (P_TaskList l) = TaskListBody"
| "kind_of (P_Map m) = MapBody"
| "kind_of (P_Text t) = TextBody"

definition response_type :: "ResponseWriter \<Rightarrow> int \<times> body_kind list" where
  "response_type w = (status_of w, map kind_of (rw_body w))"

text \<open>How \<open>writeDomainError\<close> answers an error that is or wraps a sentinel, and any other.\<close>

fun error_type :: "error \<Rightarrow> int \<times> body_kind list" where
  "error_type ErrNotFound = (404, [ErrorBody CodeNotFound])"
| "error_type ErrAlreadyExists = (409, [ErrorBody CodeAlreadyExists])"
| "error_type ErrInvalidCredentials = (401, [ErrorBody CodeUnauthorized])"
| "error_type ErrTokenInvalid = (401, [ErrorBody CodeUnauthorized])"
| "error_type ErrForbidden = (403, [ErrorBody CodeForbidden])"
| "error_type ErrValidation = (400, [ErrorBody CodeValidation])"
| "error_type e = (500, [ErrorBody CodeInternal])"

abbreviation internal_error :: "int \<times> body_kind list" where
  "internal_error \<equiv> (500, [ErrorBody CodeInternal])"

abbreviation bad_request :: "(int \<times> body_kind list) set" where
  "bad_request \<equiv> {(400, [ErrorBody CodeBadRequest]), (400, [ErrorBody CodeValidation])}"

definition contract :: "string \<Rightarrow> (int \<times> body_kind list) set" where
  "contract pat =
     (if pat = ''POST /api/v1/auth/signup'' then {(201, [AuthBody]), (409, [ErrorBody CodeAlreadyExists]), internal_error} \<union> bad_request
      else if pat = ''POST /api/v1/auth/login'' then {(200, [AuthBody]), (401, [ErrorBody CodeUnauthorized]), internal_error} \<union> bad_request
      else if pat = ''POST /api/v1/auth/refresh''
      then {(200, [TokenBody]), (401, [ErrorBody CodeUnauthorized]), (404, [ErrorBody CodeNotFound]), internal_error} \<union> bad_request
      else if pat = ''POST /api/v1/auth/logout''
      then {(204, []), (401, [ErrorBody CodeUnauthorized]), (404, [ErrorBody CodeNotFound]), internal_error} \<union> bad_request
      else if pat = ''POST /api/v1/tasks'' then {(201, [TaskBody]), internal_error} \<union> bad_request
      else if pat = ''GET /api/v1/tasks'' then {(200, [TaskListBody]), (400, [ErrorBody CodeValidation]), internal_error}
      else if pat = ''GET /api/v1/tasks/{id}''
      then {(200, [TaskBody]), (400, [ErrorBody CodeBadRequest]), (403, [ErrorBody CodeForbidden]), (404, [ErrorBody CodeNotFound]), internal_error}
      else if pat = ''PUT /api/v1/tasks/{id}''
      then {(200, [TaskBody]), (403, [ErrorBody CodeForbidden]), (404, [ErrorBody CodeNotFound]), internal_error} \<union> bad_request
      else if pat = ''DELETE /api/v1/tasks/{id}''
      then {(204, []), (400, [ErrorBody CodeBadRequest]), (403, [ErrorBody CodeForbidden]), (404, [ErrorBody CodeNotFound]), internal_error}
      else {})"

subsection \<open>The handlers have the type of their route\<close>

lemma typed_json [simp]:
  "blank w \<Longrightarrow> s \<noteq> 204 \<Longrightarrow> s \<noteq> 304 \<Longrightarrow> response_type (response_JSON HE s (Some p) w) = (s, [kind_of p])"
  "blank w \<Longrightarrow> response_type (response_JSON HE s None w) = (s, [])"
  using json_blank [of w s HE p]
  by (simp_all add: response_type_def) (simp_all add: response_JSON_def blank_def status_of_def)

lemma typed_error [simp]:
  "blank w \<Longrightarrow> s \<noteq> 204 \<Longrightarrow> s \<noteq> 304 \<Longrightarrow> response_type (response_Error HE r s code msg w) = (s, [ErrorBody code])"
  by (simp add: response_Error_def)

lemma typed_domain_error:
  assumes "carries_only S err" and "blank w"
  shows "response_type (fst (writeDomainError HE r err (w, sv))) \<in> insert internal_error (error_type ` S)"
proof -
  have carried: "errors_Is err t \<Longrightarrow> error_type t \<in> error_type ` S" if "t \<in> sentinels" for t
    using assms(1) that by (auto simp: carries_only_def)
  show ?thesis
    using assms(2) carried [of ErrNotFound] carried [of ErrAlreadyExists] carried [of ErrInvalidCredentials]
      carried [of ErrForbidden] carried [of ErrValidation] carried [of ErrTokenInvalid]
    by (simp add: writeDomainError_def)
qed

text \<open>A handler that, given a fresh writer, returns with a response of a type in \<open>T\<close>.\<close>

abbreviation typed :: "(int \<times> body_kind list) set \<Rightarrow> handler \<Rightarrow> bool" where
  "typed T h \<equiv> answers blank (\<lambda>w. response_type w \<in> T) h"

definition failures :: "error set \<Rightarrow> (int \<times> body_kind list) set" where
  "failures S = insert internal_error (error_type ` S)"

lemma typed_failure:
  assumes "fails_with S op" and "with_world op sv = (Inl err, sv1)" and "blank w" and "failures S \<subseteq> T"
  shows "response_type (fst (writeDomainError HE r err (w, sv1))) \<in> T"
  using typed_domain_error [OF fails_withD [OF assms(1) with_worldD [OF assms(2)] order_refl] assms(3)] assms(4)
  unfolding failures_def by blast

lemma typed_Signup:
  assumes "foreign_errors (he_env HE)" and "failures {ErrAlreadyExists} \<subseteq> T" and "bad_request \<subseteq> T" and "(201, [AuthBody]) \<in> T"
  shows "typed T (AuthHandler_Signup HE (NewAuthHandler (authService (he_env HE) tm ttl)))"
  using assms(3,4) typed_failure [OF Signup_errors [OF assms(1)] _ _ assms(2)]
  by (intro answers_direct) (simp add: AuthHandler_Signup_def NewAuthHandler_def split: option.splits prod.splits sum.splits)

lemma typed_Login:
  assumes "foreign_errors (he_env HE)" and "failures {ErrInvalidCredentials} \<subseteq> T" and "bad_request \<subseteq> T" and "(200, [AuthBody]) \<in> T"
  shows "typed T (AuthHandler_Login HE (NewAuthHandler (authService (he_env HE) tm ttl)))"
  using assms(3,4) typed_failure [OF Login_errors [OF assms(1)] _ _ assms(2)]
  by (intro answers_direct) (simp add: AuthHandler_Login_def NewAuthHandler_def split: option.splits prod.splits sum.splits)

lemma typed_Refresh:
  assumes "foreign_errors (he_env HE)" and "failures {ErrTokenInvalid, ErrNotFound} \<subseteq> T" and "bad_request \<subseteq> T" and "(200, [TokenBody]) \<in> T"
  shows "typed T (AuthHandler_Refresh HE (NewAuthHandler (authService (he_env HE) tm ttl)))"
  using assms(3,4) typed_failure [OF Refresh_errors [OF assms(1)] _ _ assms(2)]
  by (intro answers_direct) (simp add: AuthHandler_Refresh_def NewAuthHandler_def split: option.splits prod.splits sum.splits)

lemma typed_Logout:
  assumes "failures {ErrTokenInvalid, ErrNotFound} \<subseteq> T" and "bad_request \<subseteq> T" and "(204, []) \<in> T"
  shows "typed T (AuthHandler_Logout HE (NewAuthHandler (authService (he_env HE) tm ttl)))"
  using assms(2,3) typed_failure [OF Logout_errors _ _ assms(1)]
  by (intro answers_direct) (simp add: AuthHandler_Logout_def NewAuthHandler_def split: option.splits prod.splits sum.splits)

text \<open>The handlers of tasks also answer 500 when there is no user in the context.\<close>

lemma typed_user:
  "currentUserID HE r w = Inl w1 \<Longrightarrow> blank w \<Longrightarrow> failures S \<subseteq> T \<Longrightarrow> response_type w1 \<in> T"
  by (auto simp: currentUserID_def failures_def split: option.splits)

lemma typed_Create:
  assumes "failures {} \<subseteq> T" and "bad_request \<subseteq> T" and "(201, [TaskBody]) \<in> T"
  shows "typed T (TaskHandler_Create HE (NewTaskHandler (taskService (he_env HE))))"
  using assms(2,3) typed_failure [OF task_errors(1) _ _ assms(1)] typed_user [OF _ _ assms(1)]
  by (intro answers_direct) (simp add: TaskHandler_Create_def NewTaskHandler_def split: option.splits prod.splits sum.splits)

lemma typed_List:
  assumes "failures {} \<subseteq> T" and "(400, [ErrorBody CodeValidation]) \<in> T" and "(200, [TaskListBody]) \<in> T"
  shows "typed T (TaskHandler_List HE (NewTaskHandler (taskService (he_env HE))))"
  using assms(2,3) typed_failure [OF task_errors(2) _ _ assms(1)] typed_user [OF _ _ assms(1)]
  by (intro answers_direct) (simp add: TaskHandler_List_def NewTaskHandler_def Let_def split: option.splits prod.splits sum.splits)

lemma typed_Get:
  assumes "failures {ErrNotFound, ErrForbidden} \<subseteq> T" and "(400, [ErrorBody CodeBadRequest]) \<in> T" and "(200, [TaskBody]) \<in> T"
  shows "typed T (TaskHandler_Get HE (NewTaskHandler (taskService (he_env HE))))"
  using assms(2,3) typed_failure [OF task_errors(3) _ _ assms(1)] typed_user [OF _ _ assms(1)]
  by (intro answers_direct) (simp add: TaskHandler_Get_def NewTaskHandler_def split: option.splits prod.splits sum.splits)

lemma validated_status:
  "TaskRequest_Validate req = None \<Longrightarrow> TaskStatus_Valid (if tq_Status req = '''' then TaskStatusPending else tq_Status req)"
  by (auto simp: TaskRequest_Validate_def split: if_splits)

lemma typed_Update:
  assumes "failures {ErrNotFound, ErrForbidden} \<subseteq> T" and "bad_request \<subseteq> T" and "(200, [TaskBody]) \<in> T"
  shows "typed T (TaskHandler_Update HE (NewTaskHandler (taskService (he_env HE))))"
  using assms(2,3) typed_failure [OF task_errors(4) [OF validated_status] _ _ assms(1)] typed_user [OF _ _ assms(1)]
  by (intro answers_direct)
    (simp add: TaskHandler_Update_def NewTaskHandler_def Let_def split: option.splits prod.splits sum.splits del: if_split)

lemma typed_Delete:
  assumes "failures {ErrNotFound, ErrForbidden} \<subseteq> T" and "(400, [ErrorBody CodeBadRequest]) \<in> T" and "(204, []) \<in> T"
  shows "typed T (TaskHandler_Delete HE (NewTaskHandler (taskService (he_env HE))))"
  using assms(2,3) typed_failure [OF task_errors(5) _ _ assms(1)] typed_user [OF _ _ assms(1)]
  by (intro answers_direct) (simp add: TaskHandler_Delete_def NewTaskHandler_def split: option.splits prod.splits sum.splits)

lemma typed_auth_routes:
  assumes "foreign_errors (he_env HE)"
  shows "typed (contract ''POST /api/v1/auth/signup'') (AuthHandler_Signup HE (NewAuthHandler (authService (he_env HE) tm ttl)))"
    and "typed (contract ''POST /api/v1/auth/login'') (AuthHandler_Login HE (NewAuthHandler (authService (he_env HE) tm ttl)))"
    and "typed (contract ''POST /api/v1/auth/refresh'') (AuthHandler_Refresh HE (NewAuthHandler (authService (he_env HE) tm ttl)))"
    and "typed (contract ''POST /api/v1/auth/logout'') (AuthHandler_Logout HE (NewAuthHandler (authService (he_env HE) tm ttl)))"
  by (rule typed_Signup [OF assms] typed_Login [OF assms] typed_Refresh [OF assms] typed_Logout;
    simp add: contract_def failures_def)+

lemma typed_task_routes:
  "typed (contract ''POST /api/v1/tasks'') (TaskHandler_Create HE (NewTaskHandler (taskService (he_env HE))))"
  "typed (contract ''GET /api/v1/tasks'') (TaskHandler_List HE (NewTaskHandler (taskService (he_env HE))))"
  "typed (contract ''GET /api/v1/tasks/{id}'') (TaskHandler_Get HE (NewTaskHandler (taskService (he_env HE))))"
  "typed (contract ''PUT /api/v1/tasks/{id}'') (TaskHandler_Update HE (NewTaskHandler (taskService (he_env HE))))"
  "typed (contract ''DELETE /api/v1/tasks/{id}'') (TaskHandler_Delete HE (NewTaskHandler (taskService (he_env HE))))"
  by (rule typed_Create typed_List typed_Get typed_Update typed_Delete; simp add: contract_def failures_def)+

subsection \<open>The types of a request\<close>

text \<open>The answers of a mux itself, next to its redirects.\<close>

definition unrouted :: "(int \<times> body_kind list) set" where
  "unrouted = {(404, [TextBody]), (405, [TextBody])}"

definition routed_types :: "mux \<Rightarrow> (pattern \<Rightarrow> (int \<times> body_kind list) set) \<Rightarrow> string \<Rightarrow> string \<Rightarrow> (int \<times> body_kind list) set" where
  "routed_types mx T m p = (case mux_find mx m p of None \<Rightarrow> unrouted | Some (pt, _) \<Rightarrow> T pt)"

definition task_types :: "henv \<Rightarrow> Deps \<Rightarrow> string \<Rightarrow> string \<Rightarrow> (int \<times> body_kind list) set" where
  "task_types HE d m p = insert (401, [ErrorBody CodeUnauthorized])
     (insert (he_redirect HE, []) (routed_types (protected_routes HE d) (\<lambda>pt. contract (pt_text pt)) m p))"

definition api_types :: "henv \<Rightarrow> Deps \<Rightarrow> string \<Rightarrow> string \<Rightarrow> (int \<times> body_kind list) set" where
  "api_types HE d m p = insert (he_redirect HE, [])
     (routed_types (api_routes HE d)
        (\<lambda>pt. if pt_segs pt = api_v1 [Lit ''tasks''] then task_types HE d m p else contract (pt_text pt)) m p)"

lemma typed_plain:
  "blank w \<Longrightarrow> s \<noteq> 204 \<Longrightarrow> s \<noteq> 304 \<Longrightarrow> response_type (http_Error HE s msg w) = (s, [TextBody])"
  "blank w \<Longrightarrow> response_type (http_Redirect HE url w) = (he_redirect HE, [])"
  by (simp_all add: http_Error_def http_Redirect_def response_type_def blank_def status_of_def Write_body body_allowed_def
      send_header_def)

lemma typed_ServeMux:
  assumes "ServeMux HE mx (r, w, sv) = (out, r', w', sv')" and "blank w"
    and "\<And>pt h r1 w1 sv1 out1 r2 w2 sv2. (pt, h) \<in> set mx \<Longrightarrow> h (r1, w1, sv1) = (out1, r2, w2, sv2) \<Longrightarrow> blank w1 \<Longrightarrow>
      rq_Method r1 = rq_Method r \<Longrightarrow> rq_Path r1 = rq_Path r \<Longrightarrow> response_type w2 \<in> T pt"
  shows "response_type w' \<in> insert (he_redirect HE, []) (routed_types mx T (rq_Method r) (rq_Path r))"
proof -
  let ?p = "if rq_Method r = ''CONNECT'' then rq_Path r else cleanPath (rq_Path r)"
  consider (redirect) url where "w' = http_Redirect HE url w"
    | (none) "mux_find mx (rq_Method r) (rq_Path r) = None"
        "w' = http_Error HE 405 ''Method Not Allowed'' (set_header ''Allow'' (strings_Join '', '' (matching_methods mx ?p)) w) \<or>
         w' = http_Error HE 404 ''404 page not found'' w"
    | (found) pt h bs where "mux_find mx (rq_Method r) (rq_Path r) = Some (pt, h, bs)"
        "h (r\<lparr>rq_Pattern := pt_text pt, rq_PathValues := bs\<rparr>, w, sv) = (out, r', w', sv')"
    using assms(1) unfolding ServeMux_def Let_def by (auto split: if_splits option.splits)
  then show ?thesis
  proof cases
    case redirect
    then show ?thesis
      using assms(2) by (simp add: typed_plain)
  next
    case none
    then show ?thesis
      using assms(2) typed_plain(1) [of w 404] typed_plain(1) [of _ 405] by (auto simp: routed_types_def unrouted_def)
  next
    case found
    then show ?thesis
      using assms(3) [OF mux_find_in [OF found(1)] found(2) assms(2)] by (simp add: routed_types_def)
  qed
qed

lemma typed_protected:
  assumes "ServeMux HE (protected_routes HE (new_deps HE cfg)) (r, w, sv) = (out, r', w', sv')" and "blank w"
  shows "response_type w' \<in> insert (he_redirect HE, [])
    (routed_types (protected_routes HE (new_deps HE cfg)) (\<lambda>pt. contract (pt_text pt)) (rq_Method r) (rq_Path r))"
proof (rule typed_ServeMux [OF assms])
  fix pt h r1 w1 sv1 out1 r2 w2 sv2
  assume "(pt, h) \<in> set (protected_routes HE (new_deps HE cfg))" and run: "h (r1, w1, sv1) = (out1, r2, w2, sv2)" and "blank w1"
  then have "typed (contract (pt_text pt)) h"
    using typed_task_routes [of HE] by (auto simp: protected_routes_def route_def Let_def)
  from answersD [OF this run \<open>blank w1\<close>] show "response_type w2 \<in> contract (pt_text pt)"
    by simp
qed

lemma typed_tasks:
  assumes "task_routes HE cfg (r, w, sv) = (out, r', w', sv')" and "blank w"
  shows "response_type w' \<in> task_types HE (new_deps HE cfg) (rq_Method r) (rq_Path r)"
proof -
  consider (refused) msg where "w' = response_Error HE r 401 CodeUnauthorized msg w"
    | (inner) uid sv1 r2 where "ServeMux HE (protected_routes HE (new_deps HE cfg))
        (r\<lparr>rq_Context := (rq_Context r)\<lparr>ctx_userID := Some uid\<rparr>\<rparr>, w, sv1) = (out, r2, w', sv')"
    using assms(1) by (auto simp: Auth_bearer split: option.splits prod.splits sum.splits)
  then show ?thesis
  proof cases
    case refused
    then show ?thesis
      using assms(2) by (simp add: task_types_def)
  next
    case inner
    from typed_protected [OF this assms(2)] show ?thesis
      by (simp add: task_types_def)
  qed
qed

lemma typed_api:
  assumes "foreign_errors (he_env HE)"
    and "ServeMux HE (api_routes HE (new_deps HE cfg)) (r, w, sv) = (out, r', w', sv')" and "blank w"
  shows "response_type w' \<in> api_types HE (new_deps HE cfg) (rq_Method r) (rq_Path r)"
  unfolding api_types_def
proof (rule typed_ServeMux [OF assms(2,3)])
  fix pt h r1 w1 sv1 out1 r2 w2 sv2
  assume pt: "(pt, h) \<in> set (api_routes HE (new_deps HE cfg))" and run: "h (r1, w1, sv1) = (out1, r2, w2, sv2)"
    and blank: "blank w1" and same: "rq_Method r1 = rq_Method r" "rq_Path r1 = rq_Path r"
  consider (auth) "pt_segs pt \<noteq> api_v1 [Lit ''tasks'']" "typed (contract (pt_text pt)) h"
    | (tasks) "pt_segs pt = api_v1 [Lit ''tasks'']" "h = task_routes HE cfg"
    using pt typed_auth_routes [OF assms(1)] by (auto simp: api_routes_def route_def Let_def)
  then show "response_type w2 \<in> (if pt_segs pt = api_v1 [Lit ''tasks'']
      then task_types HE (new_deps HE cfg) (rq_Method r) (rq_Path r) else contract (pt_text pt))"
  proof cases
    case auth
    then show ?thesis
      using answersD [OF auth(2) run blank] by simp
  next
    case tasks
    then show ?thesis
      using typed_tasks [of HE cfg r1 w1] run blank same by simp
  qed
qed

text \<open>The answers of the limiter and of \<open>TimeoutHandler\<close>.\<close>

definition gate_types :: "(int \<times> body_kind list) set" where
  "gate_types = {(429, [ErrorBody CodeRateLimited]), (503, [TextBody]), (503, [])}"

text \<open>No response with status 204 or 304 has a body.\<close>

lemma contract_bodies: "(s, b) \<in> contract pat \<Longrightarrow> s = 204 \<or> s = 304 \<Longrightarrow> b = []"
  by (auto simp: contract_def split: if_splits)

lemma api_types_bodies: "(s, b) \<in> api_types HE d m p \<Longrightarrow> s = 204 \<or> s = 304 \<Longrightarrow> b = []"
  by (auto simp: api_types_def task_types_def routed_types_def unrouted_def split: option.splits if_splits dest: contract_bodies)

text \<open>C10: the type of the API.  A preflight gets 204 without a body.  Any other request gets a response of its route's
  type: a status and a kind of body, and for an error the code, that \<open>contract\<close> lists for the route; 401 at the task
  routes; 404 or 405 when there is no route; a redirect to the clean path; or 429 or 503 from the gate.  No other
  status, no body of another kind and no error code that does not belong to the status ever reaches a client.\<close>

theorem api_response_types:
  assumes "foreign_errors (he_env HE)" and "blank w"
    and "api_handler HE (new_deps HE cfg) rl (r, w, sv) = (out, r', w', sv')"
  shows "response_type w' \<in> (if rq_Method r = ''OPTIONS'' then {(204, [])}
    else gate_types \<union> api_types HE (new_deps HE cfg) (rq_Method r) (rq_Path r))"
proof -
  obtain ra sv1 where allow: "backend_allow HE (rl_backend rl) (clientIP r) sv = (ra, sv1)"
    by (metis surj_pair)
  let ?r0 = "limited (cf_MaxBodyBytes cfg) r"
  let ?sv2 = "after_limiter HE ?r0 ra sv1"
  note cases = api_handler_cases [OF assms(3,2) allow]
  consider (preflight) "rq_Method r = ''OPTIONS''" | (refused) "rq_Method r \<noteq> ''OPTIONS''" "ra = Inr False"
    | (served) r2 tw where "rq_Method r \<noteq> ''OPTIONS''"
        "ServeMux HE (api_routes HE (new_deps HE cfg)) (?r0, new_writer, at_tick (Suc (tick (sv_world ?sv2))) ?sv2) = (Returned, r2, tw, sv')"
        "delivered (he_deadline HE (tick (sv_world ?sv2)) (cf_RequestTimeout cfg)) tw w'"
    using cases by (auto simp: Let_def split: if_splits)
  then show ?thesis
  proof cases
    case preflight
    then show ?thesis
      using cases by (simp add: response_type_def)
  next
    case refused
    then show ?thesis
      using cases by (simp add: response_type_def gate_types_def refusal_def)
  next
    case served
    have "response_type tw \<in> api_types HE (new_deps HE cfg) (rq_Method r) (rq_Path r)"
      using typed_api [OF assms(1) served(2) blank_new_writer] by (simp add: limited_def)
    moreover from this have "status_of tw = 204 \<or> status_of tw = 304 \<Longrightarrow> map kind_of (rw_body tw) = []"
      using api_types_bodies unfolding response_type_def by blast
    ultimately show ?thesis
      using served(1,3) by (auto simp: delivered_def response_type_def gate_types_def split: deadline.splits if_splits)
  qed
qed

theorem api_response_types_witness:
  "response_type (fst (snd (snd (api_handler example_henv (new_deps example_henv example_config) example_limiter
     (example_request ''PUT'' ''/api/v1/auth/login'' [], new_writer, example_server))))) \<in>
   {(429, [ErrorBody CodeRateLimited]), (503, [TextBody]), (503, []), (301, []), (404, [TextBody]), (405, [TextBody])}"
proof -
  have segs: "path_segs ''/api/v1/auth/login'' = [''api'', ''v1'', ''auth'', ''login'']"
    by code_simp
  have "pathUnescape ''api'' = ''api''" "pathUnescape ''v1'' = ''v1''" "pathUnescape ''auth'' = ''auth''" "pathUnescape ''login'' = ''login''"
    by (simp_all add: pathUnescape_plain)
  then have "api_types example_henv (new_deps example_henv example_config) ''PUT'' ''/api/v1/auth/login'' = insert (301, []) unrouted"
    by (simp add: api_types_def routed_types_def api_routes_def route_def Let_def match_path_def match_method_def segs)
  then show ?thesis
    using api_response_types [OF _ blank_new_writer quad, of example_henv example_config example_limiter
        "example_request ''PUT'' ''/api/v1/auth/login'' []" example_server] example_foreign_errors
    by (auto simp: example_request_def gate_types_def unrouted_def)
qed

end
