(* ===== verification/MemoryLimiter.thy ===== *)
theory MemoryLimiter
  imports Limits
begin

text \<open>
  The limiter in memory over time.  \<open>cleanupLoop\<close> drops clients that were not seen for a while, so a client may meet
  several token buckets one after the other.  It does not notice as long as a bucket that rests for three minutes is
  full again.
\<close>

subsection \<open>Runs\<close>

text \<open>
  A call of \<open>allow\<close>: the client, the two readings of the clock and the answer.  A log has the newest call first.
\<close>

type_synonym mem_call = "string \<times> time \<times> time \<times> bool"

inductive mem_run :: "henv \<Rightarrow> float64 \<Rightarrow> int \<Rightarrow> server \<Rightarrow> mem_call list \<Rightarrow> server \<Rightarrow> bool" for HE rps burst sv0 where
  start: "mem_run HE rps burst sv0 [] sv0"
| ask: "mem_run HE rps burst sv0 log sv \<Longrightarrow> inMemory_allow HE rps burst ip sv = (Inr a, sv1) \<Longrightarrow>
    mem_run HE rps burst sv0
      ((ip, env_now (he_env HE) (tick (sv_world sv)), env_now (he_env HE) (Suc (tick (sv_world sv))), a) # log) sv1"
| cleanup: "mem_run HE rps burst sv0 log sv \<Longrightarrow> mem_run HE rps burst sv0 log (inMemory_cleanup HE sv)"
| other: "mem_run HE rps burst sv0 log sv \<Longrightarrow> sv_visitors sv1 = sv_visitors sv \<Longrightarrow> tick (sv_world sv) \<le> tick (sv_world sv1) \<Longrightarrow>
    mem_run HE rps burst sv0 log sv1"

text \<open>The moments at which a client asked; one bucket per client that has seen them all.\<close>

definition moments :: "string \<Rightarrow> mem_call list \<Rightarrow> time list" where
  "moments ip log = map (\<lambda>(_, _, now, _). now) (filter (\<lambda>c. fst c = ip) log)"

fun one_bucket :: "(time list \<Rightarrow> time \<Rightarrow> bool) \<Rightarrow> mem_call list \<Rightarrow> bool" where
  "one_bucket f [] = True"
| "one_bucket f ((ip, seen, now, a) # log) = (a = f (moments ip log) now \<and> one_bucket f log)"

text \<open>
  What is assumed of a token bucket: after a rest of more than \<open>g\<close> it is full, so that it answers as if nothing had
  been asked before the rest.  A bucket of \<open>burst\<close> tokens that gets \<open>rps\<close> of them per second has this property
  when \<open>burst \<le> rps * g\<close>.
\<close>

definition refills :: "(time list \<Rightarrow> time \<Rightarrow> bool) \<Rightarrow> time \<Rightarrow> bool" where
  "refills f g \<longleftrightarrow> (\<forall>h old now. old \<noteq> [] \<and> sorted_wrt (\<ge>) (now # h @ old) \<and> last (now # h) - hd old > g \<longrightarrow> f (h @ old) now = f h now)"

lemma refillsD:
  "refills f g \<Longrightarrow> old \<noteq> [] \<Longrightarrow> sorted_wrt (\<ge>) (now # h @ old) \<Longrightarrow> last (now # h) - hd old > g \<Longrightarrow> f (h @ old) now = f h now"
  unfolding refills_def by blast

subsection \<open>One round of the clean-up\<close>

text \<open>One client in the round.\<close>

definition visit :: "henv \<Rightarrow> string \<Rightarrow> visitor \<Rightarrow> server \<Rightarrow> server" where
  "visit HE ip v sv =
     (let sv1 = at_tick (Suc (tick (sv_world sv))) sv
      in if env_now (he_env HE) (tick (sv_world sv)) - vs_lastSeen v > 180000000000
         then sv1\<lparr>sv_visitors := AList.delete ip (sv_visitors sv)\<rparr> else sv1)"

lemma cleanup_loop_Cons: "cleanup_loop HE ((ip, v) # vs) sv = cleanup_loop HE vs (visit HE ip v sv)"
  by (simp add: visit_def sv_now_tick Let_def)

lemma visit_sel:
  "tick (sv_world (visit HE ip v sv)) = Suc (tick (sv_world sv))"
  "distinct (map fst (sv_visitors sv)) \<Longrightarrow> distinct (map fst (sv_visitors (visit HE ip v sv)))"
  by (auto simp: visit_def Let_def distinct_delete)

lemma cleanup_loop_ticks: "tick (sv_world sv) \<le> tick (sv_world (cleanup_loop HE vs sv))"
proof (induction vs arbitrary: sv)
  case (Cons x vs)
  then show ?case
    using visit_sel(1) by (cases x) (simp only: cleanup_loop_Cons, metis Suc_leD)
qed simp

lemma cleanup_loop_distinct:
  "distinct (map fst (sv_visitors sv)) \<Longrightarrow> distinct (map fst (sv_visitors (cleanup_loop HE vs sv)))"
proof (induction vs arbitrary: sv)
  case (Cons x vs)
  then show ?case
    using visit_sel(2) by (cases x) (simp only: cleanup_loop_Cons)
qed simp

text \<open>A client is kept with its bucket, or it had not been seen for three minutes.\<close>

lemma cleanup_loop_visitors:
  "map_of (sv_visitors (cleanup_loop HE vs sv)) ip = map_of (sv_visitors sv) ip \<or>
   map_of (sv_visitors (cleanup_loop HE vs sv)) ip = None \<and>
     (\<exists>v n. (ip, v) \<in> set vs \<and> n < tick (sv_world (cleanup_loop HE vs sv)) \<and> env_now (he_env HE) n - vs_lastSeen v > 180000000000)"
proof (induction vs arbitrary: sv)
  case (Cons x vs)
  obtain ip' v where x: "x = (ip', v)"
    by fastforce
  let ?n = "tick (sv_world sv)" and ?after = "cleanup_loop HE vs (visit HE ip' v sv)"
  have "?n < tick (sv_world ?after)"
    using cleanup_loop_ticks [of "visit HE ip' v sv" HE vs] by (simp add: visit_sel)
  moreover have "map_of (sv_visitors (visit HE ip' v sv)) ip = map_of (sv_visitors sv) ip \<or>
      ip = ip' \<and> map_of (sv_visitors (visit HE ip' v sv)) ip = None \<and> env_now (he_env HE) ?n - vs_lastSeen v > 180000000000"
    by (auto simp: visit_def Let_def delete_conv')
  ultimately show ?case
    using Cons.IH [of "visit HE ip' v sv"] unfolding x cleanup_loop_Cons by auto
qed simp

subsection \<open>One bucket per client\<close>

definition mem_inv :: "henv \<Rightarrow> time \<Rightarrow> mem_call list \<Rightarrow> server \<Rightarrow> bool" where
  "mem_inv HE g log sv \<longleftrightarrow>
     distinct (map fst (sv_visitors sv)) \<and>
     (\<forall>ip. sorted_wrt (\<ge>) (moments ip log) \<and> (\<forall>t \<in> set (moments ip log). t \<le> env_now (he_env HE) (tick (sv_world sv)))) \<and>
     (\<forall>ip v. map_of (sv_visitors sv) ip = Some v \<longrightarrow> vs_history v \<noteq> [] \<and> hd (vs_history v) \<le> vs_lastSeen v + Second \<and>
        (\<exists>old. moments ip log = vs_history v @ old \<and> (old \<noteq> [] \<longrightarrow> last (vs_history v) - hd old > g))) \<and>
     (\<forall>ip. map_of (sv_visitors sv) ip = None \<longrightarrow> moments ip log \<noteq> [] \<longrightarrow>
        env_now (he_env HE) (tick (sv_world sv)) - hd (moments ip log) > g)"

lemma mem_invD:
  assumes "mem_inv HE g log sv"
  shows "distinct (map fst (sv_visitors sv))" and "sorted_wrt (\<ge>) (moments ip log)"
    and "t \<in> set (moments ip log) \<Longrightarrow> t \<le> env_now (he_env HE) (tick (sv_world sv))"
    and "map_of (sv_visitors sv) ip = None \<Longrightarrow> moments ip log \<noteq> [] \<Longrightarrow>
      g < env_now (he_env HE) (tick (sv_world sv)) - hd (moments ip log)"
    and "map_of (sv_visitors sv) ip = Some v \<Longrightarrow> moments ip log \<noteq> [] \<and> hd (moments ip log) \<le> vs_lastSeen v + Second"
proof -
  show "moments ip log \<noteq> [] \<and> hd (moments ip log) \<le> vs_lastSeen v + Second" if some: "map_of (sv_visitors sv) ip = Some v"
  proof -
    obtain old where "moments ip log = vs_history v @ old" "vs_history v \<noteq> []" "hd (vs_history v) \<le> vs_lastSeen v + Second"
      using assms some unfolding mem_inv_def by blast
    then show ?thesis
      by simp
  qed
qed (use assms in \<open>simp_all add: mem_inv_def\<close>)

lemma moments_Cons [simp]:
  "moments ip ((ip', seen, now, a) # log) = (if ip' = ip then now # moments ip log else moments ip log)"
  by (simp add: moments_def)

definition steady :: "henv \<Rightarrow> bool" where
  "steady HE \<longleftrightarrow> (\<forall>n m. n \<le> m \<longrightarrow> env_now (he_env HE) n \<le> env_now (he_env HE) m)"

definition visitor_of :: "server \<Rightarrow> string \<Rightarrow> visitor" where
  "visitor_of sv ip = (case map_of (sv_visitors sv) ip of None \<Rightarrow> new_visitor | Some v \<Rightarrow> v)"

abbreviation clock :: "henv \<Rightarrow> server \<Rightarrow> time" where
  "clock HE sv \<equiv> env_now (he_env HE) (tick (sv_world sv))"

abbreviation next_clock :: "henv \<Rightarrow> server \<Rightarrow> time" where
  "next_clock HE sv \<equiv> env_now (he_env HE) (Suc (tick (sv_world sv)))"

lemma inMemory_allow_run:
  assumes "inMemory_allow HE rps burst ip sv = (Inr a, sv1)"
  shows "a = he_Allow HE rps burst (vs_history (visitor_of sv ip)) (next_clock HE sv)"
    and "tick (sv_world sv1) = tick (sv_world sv) + 2"
    and "sv_visitors sv1 =
      AList.update ip \<lparr>vs_history = next_clock HE sv # vs_history (visitor_of sv ip), vs_lastSeen = clock HE sv\<rparr> (sv_visitors sv)"
  using assms by (auto simp: inMemory_allow_def visitor_of_def sv_now_tick Let_def)

lemma inMemory_allow_answers:
  "\<exists>sv1. inMemory_allow HE rps burst ip sv = (Inr (he_Allow HE rps burst (vs_history (visitor_of sv ip)) (next_clock HE sv)), sv1)"
  by (simp add: inMemory_allow_def visitor_of_def sv_now_tick Let_def)

text \<open>The bucket a client meets answers as one that has seen all its calls.\<close>

lemma bucket_answer:
  assumes "mem_inv HE g log sv" and "refills f g" and "steady HE"
  shows "f (vs_history (visitor_of sv ip)) (next_clock HE sv) = f (moments ip log) (next_clock HE sv)"
    and "\<exists>old. moments ip log = vs_history (visitor_of sv ip) @ old \<and>
      (old \<noteq> [] \<longrightarrow> last (next_clock HE sv # vs_history (visitor_of sv ip)) - hd old > g)"
proof -
  let ?now = "next_clock HE sv"
  have clock: "clock HE sv \<le> ?now"
    using assms(3) by (simp add: steady_def)
  show old: "\<exists>old. moments ip log = vs_history (visitor_of sv ip) @ old \<and>
      (old \<noteq> [] \<longrightarrow> last (?now # vs_history (visitor_of sv ip)) - hd old > g)"
  proof (cases "map_of (sv_visitors sv) ip")
    case None
    then have "?now - hd (moments ip log) > g" if "moments ip log \<noteq> []"
      using mem_invD(4) [OF assms(1) None that] clock by simp
    then show ?thesis
      using None by (intro exI [of _ "moments ip log"]) (simp add: visitor_of_def new_visitor_def)
  next
    case (Some v)
    then show ?thesis
      using assms(1) by (simp add: mem_inv_def visitor_of_def)
  qed
  have "sorted_wrt (\<ge>) (?now # moments ip log)"
    using mem_invD(2,3) [OF assms(1)] clock by (auto intro: order_trans)
  then show "f (vs_history (visitor_of sv ip)) ?now = f (moments ip log) ?now"
    using old refillsD [OF assms(2)] by (metis append_Nil2)
qed

lemma mem_inv_ask:
  assumes "mem_inv HE g log sv" and "refills (he_Allow HE rps burst) g" and "steady HE"
    and "inMemory_allow HE rps burst ip sv = (Inr a, sv1)" and "next_clock HE sv \<le> clock HE sv + Second"
  shows "mem_inv HE g ((ip, clock HE sv, next_clock HE sv, a) # log) sv1 \<and> a = he_Allow HE rps burst (moments ip log) (next_clock HE sv)"
proof -
  note run = inMemory_allow_run [OF assms(4)]
  note answer = bucket_answer [OF assms(1-3), of ip]
  have clock: "clock HE sv \<le> next_clock HE sv" "clock HE sv \<le> clock HE sv1" "next_clock HE sv \<le> clock HE sv1"
    using assms(3) run(2) by (simp_all add: steady_def)
  show ?thesis
    unfolding mem_inv_def
  proof (intro conjI allI impI; (elim conjE)?)
    show "distinct (map fst (sv_visitors sv1))"
      using assms(1) by (simp add: mem_inv_def run(3) distinct_update)
  next
    fix ip'
    show "sorted_wrt (\<ge>) (moments ip' ((ip, clock HE sv, next_clock HE sv, a) # log))"
      using mem_invD(2) [OF assms(1)] order_trans [OF mem_invD(3) [OF assms(1)] clock(1)] by auto
  next
    fix ip'
    show "\<forall>t\<in>set (moments ip' ((ip, clock HE sv, next_clock HE sv, a) # log)). t \<le> clock HE sv1"
      using order_trans [OF mem_invD(3) [OF assms(1)] clock(2)] clock(3) by auto
  next
    fix ip' v
    assume v: "map_of (sv_visitors sv1) ip' = Some v"
    show "vs_history v \<noteq> []" "hd (vs_history v) \<le> vs_lastSeen v + Second"
      "\<exists>old. moments ip' ((ip, clock HE sv, next_clock HE sv, a) # log) = vs_history v @ old \<and>
        (old \<noteq> [] \<longrightarrow> last (vs_history v) - hd old > g)"
      using v assms(1,5) answer(2) by (auto simp: run(3) update_conv' mem_inv_def split: if_splits)
  next
    fix ip'
    assume "map_of (sv_visitors sv1) ip' = None" and "moments ip' ((ip, clock HE sv, next_clock HE sv, a) # log) \<noteq> []"
    then show "clock HE sv1 - hd (moments ip' ((ip, clock HE sv, next_clock HE sv, a) # log)) > g"
      using mem_invD(4) [OF assms(1), of ip'] clock(2) by (auto simp: run(3) update_conv' split: if_splits)
  next
    show "a = he_Allow HE rps burst (moments ip log) (next_clock HE sv)"
      using run(1) answer(1) by simp
  qed
qed

lemma mem_inv_mono:
  assumes "mem_inv HE g log sv" and "steady HE" and "tick (sv_world sv) \<le> tick (sv_world sv1)"
    and "distinct (map fst (sv_visitors sv1))"
    and "\<And>ip. map_of (sv_visitors sv1) ip = map_of (sv_visitors sv) ip \<or>
      map_of (sv_visitors sv1) ip = None \<and> (\<exists>v. map_of (sv_visitors sv) ip = Some v \<and> clock HE sv1 - vs_lastSeen v > g + Second)"
  shows "mem_inv HE g log sv1"
proof -
  have clock: "clock HE sv \<le> clock HE sv1"
    using assms(2,3) by (simp add: steady_def)
  have gone: "clock HE sv1 - hd (moments ip log) > g" if "map_of (sv_visitors sv1) ip = None" "moments ip log \<noteq> []" for ip
  proof (cases "map_of (sv_visitors sv) ip")
    case None
    then show ?thesis
      using mem_invD(4) [OF assms(1) None] that(2) clock by force
  next
    case (Some v)
    then have "clock HE sv1 - vs_lastSeen v > g + Second" "hd (moments ip log) \<le> vs_lastSeen v + Second"
      using mem_invD(5) [OF assms(1) Some] assms(5) [of ip] that(1) by auto
    then show ?thesis
      by simp
  qed
  have kept: "map_of (sv_visitors sv) ip = Some v" if "map_of (sv_visitors sv1) ip = Some v" for ip v
    using assms(5) [of ip] that by auto
  show ?thesis
    using assms(1,4) kept gone clock unfolding mem_inv_def by (blast intro: order_trans)
qed

lemma mem_inv_cleanup:
  assumes "mem_inv HE (179 * Second) log sv" and "steady HE"
  shows "mem_inv HE (179 * Second) log (inMemory_cleanup HE sv)"
proof (rule mem_inv_mono [OF assms])
  let ?after = "inMemory_cleanup HE sv"
  show "tick (sv_world sv) \<le> tick (sv_world ?after)"
    by (simp add: inMemory_cleanup_def cleanup_loop_ticks)
  show "distinct (map fst (sv_visitors ?after))"
    using mem_invD(1) [OF assms(1)] by (simp add: inMemory_cleanup_def cleanup_loop_distinct)
  fix ip
  have "map_of (sv_visitors sv) ip = Some v" if "(ip, v) \<in> set (sv_visitors sv)" for v
    using mem_invD(1) [OF assms(1)] that by simp
  moreover have "env_now (he_env HE) n \<le> clock HE ?after" if "n < tick (sv_world ?after)" for n
    using assms(2) that by (simp add: steady_def)
  ultimately show "map_of (sv_visitors ?after) ip = map_of (sv_visitors sv) ip \<or>
      map_of (sv_visitors ?after) ip = None \<and>
        (\<exists>v. map_of (sv_visitors sv) ip = Some v \<and> clock HE ?after - vs_lastSeen v > 179 * Second + Second)"
    using cleanup_loop_visitors [of HE "sv_visitors sv" sv ip] unfolding inMemory_cleanup_def
    by (fastforce simp: Second_def)
qed

text \<open>C23: evicting idle clients is not observable.  Whatever the order of calls and of rounds of the clean-up, every
  call of the in-memory limiter is answered as one token bucket per client would that has seen all calls of that client
  since the start, and no others: eviction never refuses a client that should pass and never grants a fresh budget.
  This needs a bucket that fills up in three minutes (\<open>refills\<close>); the clock does not run backwards and the two
  readings of a call are at most a second apart.\<close>

theorem eviction_unobservable:
  assumes "mem_run HE rps burst sv log sv'" and "sv_visitors sv = []" and "steady HE"
    and "refills (he_Allow HE rps burst) (179 * Second)" and "\<forall>(ip, seen, now, a) \<in> set log. now \<le> seen + Second"
  shows "one_bucket (he_Allow HE rps burst) log"
proof -
  have "mem_inv HE (179 * Second) log sv' \<and> one_bucket (he_Allow HE rps burst) log"
    using assms(1,5)
  proof (induction rule: mem_run.induct)
    case start
    then show ?case
      using assms(2) by (simp add: mem_inv_def moments_def)
  next
    case (ask log sv1 ip a sv2)
    then have inv: "mem_inv HE (179 * Second) log sv1" "next_clock HE sv1 \<le> clock HE sv1 + Second"
      and one: "one_bucket (he_Allow HE rps burst) log"
      by auto
    note step = mem_inv_ask [OF inv(1) assms(4,3) ask(2) inv(2)]
    show ?case
      using conjunct1 [OF step] conjunct2 [OF step] one by (intro conjI) (assumption, simp)
  next
    case (cleanup log sv1)
    then show ?case
      using mem_inv_cleanup [OF _ assms(3)] by simp
  next
    case (other log sv1 sv2)
    then have inv: "mem_inv HE (179 * Second) log sv1"
      by simp
    then show ?case
      using mem_inv_mono [OF inv assms(3) other(3)] mem_invD(1) [OF inv] other by simp
  qed
  then show ?thesis
    by simp
qed

subsubsection \<open>A bucket that fills up in one step\<close>

text \<open>The number of calls since the last rest.\<close>

fun since_rest :: "time \<Rightarrow> time list \<Rightarrow> nat" where
  "since_rest now [] = 0"
| "since_rest now (t # h) = (if now - t > 179 * Second then 0 else Suc (since_rest t h))"

lemma since_rest_append: "old \<noteq> [] \<Longrightarrow> last (now # h) - hd old > 179 * Second \<Longrightarrow> since_rest now (h @ old) = since_rest now h"
proof (induction h arbitrary: now)
  case Nil
  then show ?case
    by (cases old) auto
qed (auto split: if_splits)

definition resting_henv :: henv where
  "resting_henv = example_henv\<lparr>he_Allow := (\<lambda>rps burst h now. int (since_rest now h) < burst)\<rparr>"

theorem eviction_unobservable_witness:
  "\<exists>log sv. mem_run resting_henv (Fin 5 0) 1 example_server log sv \<and> map (\<lambda>(ip, seen, now, a). a) log = [True, False, True] \<and>
     one_bucket (he_Allow resting_henv (Fin 5 0) 1) log"
proof -
  have sel: "he_env resting_henv = example_env" "he_Allow resting_henv = (\<lambda>rps burst h now. int (since_rest now h) < burst)"
    by (simp_all add: resting_henv_def)
  have ask: "\<exists>sv1. inMemory_allow resting_henv (Fin 5 0) 1 ip sv = (Inr (since_rest (next_clock resting_henv sv) (vs_history (visitor_of sv ip)) = 0), sv1) \<and>
      tick (sv_world sv1) = tick (sv_world sv) + 2 \<and> sv_visitors sv1 = AList.update ip
        \<lparr>vs_history = next_clock resting_henv sv # vs_history (visitor_of sv ip), vs_lastSeen = clock resting_henv sv\<rparr> (sv_visitors sv)" for ip sv
  proof -
    obtain sv1 where run: "inMemory_allow resting_henv (Fin 5 0) 1 ip sv = (Inr (he_Allow resting_henv (Fin 5 0) 1
        (vs_history (visitor_of sv ip)) (next_clock resting_henv sv)), sv1)"
      using inMemory_allow_answers by blast
    show ?thesis
      using run inMemory_allow_run(2,3) [OF run] by (simp add: sel(2))
  qed
  let ?H = resting_henv and ?ip = "''10.0.0.1''"
  obtain sv1 where 1: "inMemory_allow ?H (Fin 5 0) 1 ?ip example_server = (Inr True, sv1)" "tick (sv_world sv1) = 2"
    "sv_visitors sv1 = [(?ip, \<lparr>vs_history = [Second], vs_lastSeen = 0\<rparr>)]"
    using ask [of ?ip example_server] by (auto simp: visitor_of_def new_visitor_def sel Second_def example_server_def new_server_def)
  obtain sv2 where 2: "inMemory_allow ?H (Fin 5 0) 1 ?ip sv1 = (Inr False, sv2)" "tick (sv_world sv2) = 4"
    "sv_visitors sv2 = [(?ip, \<lparr>vs_history = [3 * Second, Second], vs_lastSeen = 2 * Second\<rparr>)]"
    using ask [of ?ip sv1] 1 by (auto simp: visitor_of_def sel Second_def)
  let ?sv3 = "at_tick 200 sv2"
  let ?sv4 = "inMemory_cleanup ?H ?sv3"
  have 4: "sv_visitors ?sv4 = []" "tick (sv_world ?sv4) = 201"
    by (simp_all add: inMemory_cleanup_def 2 cleanup_loop_Cons del: cleanup_loop.simps(2)) (simp_all add: visit_def sel Let_def 2 Second_def)
  obtain sv5 where 5: "inMemory_allow ?H (Fin 5 0) 1 ?ip ?sv4 = (Inr True, sv5)"
    using ask [of ?ip ?sv4] 4 by (auto simp: visitor_of_def new_visitor_def)
  let ?log = "[(?ip, clock ?H ?sv4, next_clock ?H ?sv4, True), (?ip, clock ?H sv1, next_clock ?H sv1, False),
    (?ip, clock ?H example_server, next_clock ?H example_server, True)]"
  have "mem_run ?H (Fin 5 0) 1 example_server ?log sv5"
    using mem_run.ask [OF mem_run.cleanup [OF mem_run.other [OF mem_run.ask [OF mem_run.ask [OF mem_run.start 1(1)] 2(1)], of ?sv3]] 5]
    by (simp add: 2)
  moreover from this have "one_bucket (he_Allow ?H (Fin 5 0) 1) ?log"
    by (rule eviction_unobservable)
      (auto simp: steady_def sel refills_def since_rest_append Second_def example_server_def new_server_def)
  ultimately show ?thesis
    by (intro exI [of _ ?log] exI [of _ sv5]) simp
qed

end
