(* ===== verification/Spec2Isabelle.thy ===== *)
theory Spec2Isabelle
  imports AuthBook TaskBook RaceProperties TaskRaces SeedProperties Lifecycle EndToEnd Contract MemoryLimiter
begin

text \<open>
  TaskFlow API: a task manager over HTTP, with accounts, access tokens, rotating refresh tokens, and
  tasks that belong to their users.  This development models the Go program from the SQL statements to
  the start of the process and proves what its parts promise.

  \<^bold>\<open>The program.\<close>  Requests pass the middleware (\<open>internal/httpapi/middleware\<close>), are routed
  (\<open>internal/httpapi/router.go\<close>) to handlers (\<open>internal/httpapi/handler\<close>) which read DTOs
  (\<open>internal/httpapi/dto\<close>), call services (\<open>internal/service\<close>) and write responses
  (\<open>internal/httpapi/response\<close>); the services call repositories (\<open>internal/repository\<close>) over the domain
  types (\<open>internal/domain\<close>), and these run SQL statements on the tables of
  \<open>internal/database/migrations\<close>.  \<open>cmd/api\<close> starts the server from its configuration
  (\<open>internal/config\<close>), \<open>cmd/seed\<close> fills the database with demo data.

  \<^bold>\<open>The model.\<close>  An operation is a function from the store to a result and a new store.  Every reading of
  the clock or of random bytes and every statement is an interaction; the field \<open>tick\<close> of the store
  counts them, and the environment (\<open>env\<close>, \<open>henv\<close>) answers the n-th one.  So clocks, randomness, refused
  statements and lost replies are arbitrary, and each hypothesis on them is named
  (\<open>no_faults\<close>, \<open>rand_ok\<close>, \<open>bcrypt_ok\<close>, \<open>rows_affected_ok\<close>, \<open>foreign_errors\<close>, the laws of the JWT library, \<open>promhttp_ok\<close>,
  \<open>otelhttp_ok\<close>; \<open>steady\<close> and \<open>refills\<close> for clock and token bucket; \<open>fair\<close> and \<open>timers_fire\<close> for liveness).

  \<^item> \<open>Prelude\<close>: lists and tables.  \<open>Progress\<close>: runs, and systems that run down.  \<open>GoStd\<close>: strconv, strings,
    hex, base64, floats.  \<open>Sha256\<close>: the hash.
  \<^item> \<open>Domain\<close>: \<open>internal/domain\<close>, errors as a datatype with \<open>errors.Is\<close>.
  \<^item> \<open>Database\<close>: the tables, their invariant \<open>db_inv\<close>, the calls with their faults.  \<open>Example\<close>: a concrete
    environment and store on which hypotheses are met.
  \<^item> \<open>UserRepository\<close>, \<open>RefreshTokenRepository\<close>, \<open>TaskRepository\<close>: the three repositories; each has its
    contract as a locale, interpreted on the statements.
  \<^item> \<open>TokenManager\<close>, \<open>AuthService\<close>, \<open>TaskService\<close>: \<open>internal/service\<close>, proved over the contracts of the
    repositories (locales \<open>auth_service\<close>, \<open>task_service\<close>) and interpreted on the repositories.
  \<^item> \<open>System\<close>: one repository call, clock reading or random read as a step; requests are sequences of
    steps.  \<open>Sessions\<close>: \<open>AuthService.Refresh\<close> one call at a time, for races (a statement, a reading of the
    clock or of random bytes, the signing of a token).  \<open>TaskRaces\<close>: the same for
    \<open>TaskService.Update\<close> and \<open>Delete\<close>.
  \<^item> \<open>Http\<close>: requests, contexts, writers and recorders, \<open>response\<close>, \<open>reqctx\<close>.  \<open>Dto\<close>, \<open>Handlers\<close>,
    \<open>RateLimit\<close>, \<open>Middleware\<close>, \<open>Router\<close>: the packages of the same names, \<open>Router\<close> with \<open>ServeMux\<close>.
  \<^item> \<open>Config\<close>: \<open>internal/config\<close>, with logging and version.  \<open>Startup\<close>: \<open>internal/database/database.go\<close>,
    \<open>internal/tracing\<close> and \<open>cmd/api/main.go\<close>, the latter as \<open>start\<close> and as a transition system of phases.
    \<open>Seed\<close>: \<open>cmd/seed/main.go\<close>.

  \<^bold>\<open>What is proved.\<close>
  \<^item> \<open>AuthBook\<close>, \<open>TaskBook\<close>: the two services refine abstract books of accounts, sessions and tasks, for all
    sequences of calls while the database answers (locale \<open>simulation\<close> of \<open>Simulation\<close>).
  \<^item> \<open>AuthProperties\<close>, \<open>RaceProperties\<close>: rotation, single use, reuse detection and its limit when two
    refreshes overlap, logout, login, sign-up, isolation and permanence of sessions; a race for a live
    token settles with exactly one winner (locale \<open>ranked_system\<close>, on \<open>race_step\<close> and on \<open>contest\<close>).
  \<^item> \<open>TaskProperties\<close>: ownership, the effect of every operation, listings and their pages.  \<open>TaskRaces\<close>: the
    check of the owner is still good when the write comes, and racing calls act as if they were atomic.
  \<^item> \<open>ErrorClasses\<close>: which of the sentinels of \<open>domain/errors.go\<close> each operation can return.
    \<open>Contract\<close>: from these, the type of the API, the statuses and bodies of every route.
  \<^item> \<open>HttpFrame\<close>: what a request can do to the server (locales \<open>server_relation\<close>, \<open>counting_relation\<close>, with
    interpretations for the steps of the system, for one user's requests, for the draining flag, the
    counters and the log).  \<open>Responses\<close>: what handlers write (locales \<open>responder\<close>, \<open>timed_responder\<close>,
    \<open>guarded_header\<close>, with interpretations for headers, recorded statuses and error bodies).  \<open>Routing\<close>:
    paths and unambiguous tables.
  \<^item> \<open>HttpProperties\<close>, \<open>Observability\<close>, \<open>Limits\<close>, \<open>SeedProperties\<close>: the HTTP stack refines the transition
    system; task routes are confined to the user of the token; headers, access log and metrics of
    every request; panics; the budget a client has at the middleware of the shared limiter, which lets
    requests in when Redis fails; connecting; migrations that can be repeated after a success or a
    failure; what running the seed again creates.
  \<^item> \<open>Gateway\<close>, \<open>EndToEnd\<close>: what the middleware does to a request before its route, the errors of the
    server a client may see, and reading and writing tasks through all layers.  \<open>MemoryLimiter\<close>:
    dropping idle clients is not observable.
  \<^item> \<open>Lifecycle\<close>: what holds of a process that serves, readiness while it drains, and that it ends after a
    signal (locale \<open>ranked_system\<close>).
  \<^item> This theory: the invariant of all reachable stores, and the permanence of accounts.

  \<^bold>\<open>Bounds and termination.\<close>  No fuel is used: all recursion is structural but for the retry loop of
  \<open>Connect\<close> (at most \<open>maxAttempts\<close> rounds) and the printing of numbers, which have measures.  Liveness is
  proved on infinite runs: for refreshes under a fair schedule, for the process when its timers fire.  Integers
  are unbounded in the model; where Go's \<open>int64\<close> matters (\<open>ParseInt\<close>, sequences, conversions) the
  bounds are written out.

  \<^bold>\<open>Parameters.\<close>  Code outside the repository: bcrypt, the JWT library, the JSON scanner and encoder,
  RFC 3339 times, \<open>ParseDuration\<close> and \<open>ParseFloat\<close>, the token bucket of \<open>x/time/rate\<close>, Redis' clock and
  answers, \<open>promhttp\<close>, \<open>otelhttp\<close>, the deadline of \<open>TimeoutHandler\<close>, the driver.

  \<^bold>\<open>Not modelled.\<close>  The scheduling of goroutines inside one interaction (interleavings are those of
  interactions), the mutex of the in-memory limiter, the buckets and the text format of the metrics,
  connection pools, spans and their export, the connections and timeouts of \<open>net/http\<close>, HTTP framing, the
  bytes of JSON, console output: these are libraries, or output that nothing in the program reads.
  Deployment files, the API description and the tests hold no logic of the program.
\<close>

subsection \<open>The whole store\<close>

text \<open>C6: every state the system can reach from the empty database, by any interleaving of the
  steps of any requests and under any faults, satisfies the invariant of the tables: keys are unique
  and were handed out by their sequences, addresses and token hashes are unique, every task and
  session belongs to a user, every task has one of the three statuses.\<close>

theorem reachable_states_sound:
  assumes "db_steps E empty_world w"
  shows "db_inv w"
  using db_steps_inv [OF assms db_inv_empty_world] .

theorem reachable_states_sound_witness:
  "db_inv (serve example_env example_manager 60 (Req_Signup ''eve@example.com'' ''secret'') empty_world)"
  using reachable_states_sound [OF serve_steps] .

text \<open>Accounts are permanent.  No step removes a user, reorders users or changes an address, a
  password hash or an id; users are only added.\<close>

theorem accounts_permanent:
  assumes "db_steps E w w'"
  shows "\<exists>added. users w' = users w @ added \<and>
    (db_inv w \<longrightarrow> u_Email ` set added \<inter> u_Email ` set (users w) = {} \<and> u_ID ` set added \<inter> u_ID ` set (users w) = {})"
proof -
  obtain added where "users w' = users w @ added"
    using db_steps_users [OF assms] by blast
  moreover have "db_inv w \<Longrightarrow> db_inv w'"
    using db_steps_inv [OF assms] .
  moreover have "distinct (map u_Email (users w'))" "distinct (map u_ID (users w'))" if "db_inv w'"
    using that by (simp_all add: db_inv_def ids_ok_def)
  ultimately show ?thesis
    by (intro exI [of _ added]) (auto simp del: Int_iff)
qed

theorem accounts_permanent_witness:
  "\<exists>added. users (serve example_env example_manager 60 (Req_Signup ''eve@example.com'' ''secret'') (example_world [])) =
     example_users @ added"
  using accounts_permanent [OF serve_steps [of example_env "example_world []" example_manager 60
      "Req_Signup ''eve@example.com'' ''secret''"]]
  by (simp del: serve.simps) blast

end
